theory Spec2Isabelle
  imports Complex_Main "HOL-Library.Word"
begin

unbundle bit_operations_syntax

section \<open>Characters and C strings\<close>

text \<open>
  A C string is modelled as a \<^typ>\<open>string\<close> holding the characters before the
  terminating NUL.  The sources read characters into an \<open>int\<close>; plain \<open>char\<close> is taken
  to be signed, so bytes above 127 become negative.
\<close>

definition charInt :: "char \<Rightarrow> int" where
  "charInt c = (if (of_char c :: nat) < 128 then int (of_char c) else int (of_char c) - 256)"

definition isLetter :: "char \<Rightarrow> bool" where
  "isLetter c = (\<not> (charInt c < charInt CHR ''a'' \<or> charInt c > charInt CHR ''z'')
               \<or> \<not> (charInt c < charInt CHR ''A'' \<or> charInt c > charInt CHR ''Z''))"

definition isDigit :: "char \<Rightarrow> bool" where
  "isDigit c = (\<not> (charInt c < charInt CHR ''0'' \<or> charInt c > charInt CHR ''9''))"

text \<open>\<open>isWhitespace\<close>: anything up to the ASCII space counts as whitespace.\<close>

definition isWhitespace :: "char \<Rightarrow> bool" where
  "isWhitespace c = (charInt c \<le> charInt CHR '' '')"

section \<open>CVar name validation\<close>

text \<open>
  \<open>CVarManagerImpl::isValidCVarName\<close>.  The loop walks the name with an index; the
  argument of \<open>isValidCVarName_loop\<close> is the text from that index on.  After a dot or an
  underscore the loop reads one more character and steps over it; reading at the end of
  the text yields the terminating NUL, which fails the character test.
\<close>

fun isValidCVarName_loop :: "string \<Rightarrow> bool" where
  "isValidCVarName_loop [] = True"
| "isValidCVarName_loop (c # rest) =
     (if \<not> isDigit c \<and> \<not> isLetter c then
        (if c \<noteq> CHR ''.'' \<and> c \<noteq> CHR ''_'' then False
         else if c = CHR ''.'' \<and> rest = [] then False
         else if c = CHR ''.'' then
           (case rest of
              [] \<Rightarrow> False
            | c2 # rest2 \<Rightarrow>
                if \<not> isLetter c2 \<and> c2 \<noteq> CHR ''_'' then False
                else isValidCVarName_loop rest2)
         else
           (case rest of
              [] \<Rightarrow> False
            | c2 # rest2 \<Rightarrow>
                if \<not> isDigit c2 \<and> \<not> isLetter c2 \<and> c2 \<noteq> CHR ''_'' \<and> c2 \<noteq> CHR ''.'' then False
                else isValidCVarName_loop rest2))
      else isValidCVarName_loop rest)"

definition isValidCVarName :: "string \<Rightarrow> bool" where
  "isValidCVarName name =
     (case name of
        [] \<Rightarrow> False
      | c # rest \<Rightarrow>
          if \<not> isLetter c \<and> c \<noteq> CHR ''_'' then False
          else isValidCVarName_loop rest)"

text \<open>
  The naming rule in the words of the specification: the first character is a letter or
  an underscore, every later character is a letter, digit, underscore or dot, and every
  dot is followed by a letter or an underscore (so no dot ends the name).
\<close>

fun dotsFollowed :: "string \<Rightarrow> bool" where
  "dotsFollowed [] = True"
| "dotsFollowed [c] = (c \<noteq> CHR ''.'')"
| "dotsFollowed (c # d # rest) =
     ((c = CHR ''.'' \<longrightarrow> isLetter d \<or> d = CHR ''_'') \<and> dotsFollowed (d # rest))"

definition namingRule :: "string \<Rightarrow> bool" where
  "namingRule name =
     (case name of
        [] \<Rightarrow> False
      | c # rest \<Rightarrow>
          (isLetter c \<or> c = CHR ''_'')
          \<and> list_all (\<lambda>d. isLetter d \<or> isDigit d \<or> d = CHR ''_'' \<or> d = CHR ''.'') rest
          \<and> dotsFollowed name)"


section \<open>Integer and string conversions\<close>

type_synonym int64 = "64 word"
type_synonym uint64 = "64 word"
type_synonym uint32 = "32 word"

datatype NumberFormat = Binary | Octal | Decimal | Hexadecimal

text \<open>Size of the stack buffers used for number to string conversions.\<close>

definition CVarTempStrMaxSize :: int where
  "CVarTempStrMaxSize = 128"

text \<open>
  The main conversion loop of \<open>intToString\<close>: a do-while loop that emits the digits of
  \<open>number\<close>, least significant first, while counting \<open>length\<close> against the size of
  the destination.  It returns the characters written and the final \<open>length\<close>.
\<close>

definition digitChar :: "nat \<Rightarrow> char" where
  "digitChar digitVal =
     (if digitVal > 9 then char_of ((digitVal - 10) + of_char CHR ''A'')
      else char_of (digitVal + of_char CHR ''0''))"

function intToString_loop :: "uint64 \<Rightarrow> nat \<Rightarrow> int \<Rightarrow> int \<Rightarrow> string \<times> int" where
  "intToString_loop number numBase len destSizeInChars =
     (let digitVal = unat number mod numBase;
          number' = number div of_nat numBase;
          len' = len + 1
      in if number' \<noteq> 0 \<and> len' < destSizeInChars
         then (case intToString_loop number' numBase len' destSizeInChars of
                 (ds, l) \<Rightarrow> (digitChar digitVal # ds, l))
         else ([digitChar digitVal], len'))"
  by pat_completeness auto
termination
  by (relation "measure (\<lambda>(number, numBase, len, destSizeInChars). nat (destSizeInChars - len))") auto

declare intToString_loop.simps [simp del]

text \<open>
  \<open>intToString\<close>.  The result is the success flag and the text left in \<open>dest\<close>.  The
  final in-place reversal of the digits is modelled by \<^const>\<open>rev\<close>.  Negating the
  value goes through \<open>int64_t\<close> and wraps in two's complement.
\<close>

definition intToString :: "uint64 \<Rightarrow> int \<Rightarrow> nat \<Rightarrow> bool \<Rightarrow> bool \<times> string" where
  "intToString number destSizeInChars numBase isNegative =
     (if \<not> (numBase = 2 \<or> numBase = 8 \<or> numBase = 10 \<or> numBase = 16) then (False, [])
      else
        let (prefix, len0, number1) =
              (if numBase = 16 then (''0x'', 2, number)
               else if isNegative \<and> numBase = 10 then (''-'', 1, - number)
               else ([], 0, number));
            (ds, len) = intToString_loop number1 numBase len0 destSizeInChars
        in if len \<ge> destSizeInChars then (False, [])
           else (True, prefix @ rev ds))"

definition numberBase :: "NumberFormat \<Rightarrow> nat" where
  "numberBase numberFormat =
     (case numberFormat of Binary \<Rightarrow> 2 | Octal \<Rightarrow> 8 | Decimal \<Rightarrow> 10 | Hexadecimal \<Rightarrow> 16)"

text \<open>\<open>cvarToString(std::string *, std::int64_t, NumberFormat)\<close>.\<close>

definition cvarToString_int :: "int64 \<Rightarrow> NumberFormat \<Rightarrow> string" where
  "cvarToString_int val numberFormat =
     snd (intToString val CVarTempStrMaxSize (numberBase numberFormat) (val <s 0))"

text \<open>
  \<open>std::strtoll(nPtr, &endPtr, 0)\<close> belongs to the C library.  It is modelled after
  the C standard: leading white space is skipped, an optional sign is read, base 0
  selects hexadecimal after \<open>0x\<close>/\<open>0X\<close> (when a hexadecimal digit follows), octal after
  a leading \<open>0\<close> and decimal otherwise, the longest run of digits of that base is
  converted, and a value outside the range of \<open>long long\<close> is clamped.  \<open>None\<close> stands
  for "no conversion performed" (\<open>endPtr == nPtr\<close>).
\<close>

definition isspaceC :: "char \<Rightarrow> bool" where
  "isspaceC c = (c = CHR '' '' \<or> (of_char c :: nat) \<in> {9, 10, 11, 12, 13})"

definition digitValue :: "char \<Rightarrow> nat option" where
  "digitValue c =
     (let n = (of_char c :: nat) in
      if 48 \<le> n \<and> n \<le> 57 then Some (n - 48)
      else if 97 \<le> n \<and> n \<le> 122 then Some (n - 87)
      else if 65 \<le> n \<and> n \<le> 90 then Some (n - 55)
      else None)"

definition isDigitOfBase :: "nat \<Rightarrow> char \<Rightarrow> bool" where
  "isDigitOfBase b c = (case digitValue c of None \<Rightarrow> False | Some d \<Rightarrow> d < b)"

definition digitsValue :: "nat \<Rightarrow> string \<Rightarrow> nat" where
  "digitsValue b ds = foldl (\<lambda>acc c. acc * b + the (digitValue c)) 0 ds"

text \<open>The value of a digit string that is written least significant digit first.\<close>

definition valLSB :: "nat \<Rightarrow> string \<Rightarrow> nat" where
  "valLSB b ds = foldr (\<lambda>c acc. acc * b + the (digitValue c)) ds 0"

definition clampInt64 :: "int \<Rightarrow> int64" where
  "clampInt64 v =
     (if v < - (2 ^ 63) then word_of_int (- (2 ^ 63))
      else if v > 2 ^ 63 - 1 then word_of_int (2 ^ 63 - 1)
      else word_of_int v)"

fun strtoll_sign :: "string \<Rightarrow> bool \<times> string" where
  "strtoll_sign (c # r) =
     (if c = CHR ''-'' then (True, r) else if c = CHR ''+'' then (False, r) else (False, c # r))"
| "strtoll_sign [] = (False, [])"

fun strtoll_base :: "string \<Rightarrow> nat \<times> string" where
  "strtoll_base (z # x # h # r) =
     (if z = CHR ''0'' \<and> (x = CHR ''x'' \<or> x = CHR ''X'') \<and> isDigitOfBase 16 h then (16, h # r)
      else if z = CHR ''0'' then (8, z # x # h # r)
      else (10, z # x # h # r))"
| "strtoll_base (z # r) = (if z = CHR ''0'' then (8, z # r) else (10, z # r))"
| "strtoll_base [] = (10, [])"

definition strtoll0 :: "string \<Rightarrow> int64 option" where
  "strtoll0 nPtr =
     (let (neg, s2) = strtoll_sign (dropWhile isspaceC nPtr);
          (b, s3) = strtoll_base s2;
          ds = takeWhile (isDigitOfBase b) s3
      in if ds = [] then None
         else Some (clampInt64 (if neg then - int (digitsValue b ds) else int (digitsValue b ds))))"

text \<open>
  \<open>cvarToInt64(const std::string &, bool *)\<close>: the converted number and the flag written
  to \<open>outOkFlag\<close>; a failed conversion reports an error and yields 0.
\<close>

definition cvarToInt64_str :: "string \<Rightarrow> int64 \<times> bool" where
  "cvarToInt64_str str = (case strtoll0 str of None \<Rightarrow> (0, False) | Some num \<Rightarrow> (num, True))"

section \<open>CVar values, ranges and flags\<close>

text \<open>\<open>CVar::Flags\<close>.\<close>

definition Modified :: uint32 where "Modified = push_bit 0 1"
definition Persistent :: uint32 where "Persistent = push_bit 1 1"
definition Volatile :: uint32 where "Volatile = push_bit 2 1"
definition ReadOnly :: uint32 where "ReadOnly = push_bit 3 1"
definition InitOnly :: uint32 where "InitOnly = push_bit 4 1"
definition RangeCheck :: uint32 where "RangeCheck = push_bit 5 1"
definition UserDefined :: uint32 where "UserDefined = push_bit 6 1"

text \<open>
  Every fallible operation returns \<open>false\<close> and may send one message to the error
  sink (\<open>return errorF(...)\<close>); some paths return \<open>false\<close> silently.
\<close>

datatype ErrorReport =
    ReadOnlyError | BelowMinimum | AboveMaximum | NoIntConversion | NoFloatConversion
  | BadBoolString

datatype Outcome = Success | Failure "ErrorReport option"

text \<open>
  A \<open>double\<close> is a NaN, an infinity or a number.  Every binary64 value is one of these
  (the model has more numbers than binary64 has), and the comparison \<open>dless\<close> is the
  one of IEEE 754: a NaN is neither below nor above anything.
\<close>

datatype double = DNaN | DNegInf | DNum real | DPosInf

fun dless :: "double \<Rightarrow> double \<Rightarrow> bool" where
  "dless DNaN _ = False"
| "dless _ DNaN = False"
| "dless DNegInf DNegInf = False"
| "dless DNegInf _ = True"
| "dless (DNum a) (DNum b) = (a < b)"
| "dless (DNum a) DPosInf = True"
| "dless (DNum a) DNegInf = False"
| "dless DPosInf _ = False"

text \<open>
  What the library takes from its platform: the conversions between \<open>int64_t\<close> and
  \<open>double\<close>, \<open>strtod\<close> (\<open>None\<close> when no conversion is performed), \<open>snprintf\<close> with
  \<open>"%.8g"\<close>, and the current table of boolean strings.
\<close>

record Platform =
  int64ToDouble :: "int64 \<Rightarrow> double"
  doubleToInt64 :: "double \<Rightarrow> int64"
  strtod :: "string \<Rightarrow> double option"
  snprintf_g8 :: "double \<Rightarrow> string"
  boolStrings :: "(string \<times> string) list"

record 'a CVarNumberRange =
  minValue :: 'a
  maxValue :: 'a

text \<open>A null \<open>strings\<close> pointer is \<open>None\<close>; the null-terminated array is the list.\<close>

record CVarAllowedStrings =
  strings :: "string list option"

text \<open>
  \<open>CVarEnumConstList\<close>: the constructor copies as many values as there are names, and
  leaves both pointers null unless both arrays are given.
\<close>

record CVarEnumConstList =
  names :: "string list option"
  enumValues :: "int64 list"

definition mkCVarEnumConstList :: "int64 list option \<Rightarrow> string list option \<Rightarrow> CVarEnumConstList" where
  "mkCVarEnumConstList enumConstants constNames =
     (case (enumConstants, constNames) of
        (Some vs, Some ns) \<Rightarrow> \<lparr>names = Some ns, enumValues = take (length ns) vs\<rparr>
      | _ \<Rightarrow> \<lparr>names = None, enumValues = []\<rparr>)"

record CVarEnumConst =
  constName :: string
  constValue :: int64

text \<open>\<open>trimTrailingZeros\<close>: the text that is left (the returned length is its length).\<close>

fun dropTrailingZeros :: "string \<Rightarrow> string" where
  "dropTrailingZeros [] = []"
| "dropTrailingZeros (c # cs) =
     (case dropTrailingZeros cs of
        [] \<Rightarrow> (if c = CHR ''0'' then [] else [c])
      | r \<Rightarrow> c # r)"

definition trimTrailingZeros :: "string \<Rightarrow> string" where
  "trimTrailingZeros str =
     (let pre = takeWhile (\<lambda>c. c \<noteq> CHR ''.'') str;
          post = dropWhile (\<lambda>c. c \<noteq> CHR ''.'') str
      in case post of
           [] \<Rightarrow> str
         | dot # rest \<Rightarrow>
             (case dropTrailingZeros rest of
                [] \<Rightarrow> pre
              | r \<Rightarrow> pre @ dot # r))"

subsection \<open>\<open>cvarToX\<close>\<close>

definition cvarToInt64_bool :: "bool \<Rightarrow> int64" where
  "cvarToInt64_bool val = (if val then 1 else 0)"

definition cvarToDouble_str :: "Platform \<Rightarrow> string \<Rightarrow> double \<times> bool" where
  "cvarToDouble_str P str = (case strtod P str of None \<Rightarrow> (DNum 0, False) | Some num \<Rightarrow> (num, True))"

definition cvarToString_bool :: "Platform \<Rightarrow> bool \<Rightarrow> string" where
  "cvarToString_bool P val =
     (case boolStrings P of
        [] \<Rightarrow> []
      | (trueStr, falseStr) # _ \<Rightarrow> (if val then trueStr else falseStr))"

definition cvarToString_double :: "Platform \<Rightarrow> double \<Rightarrow> string" where
  "cvarToString_double P val = trimTrailingZeros (snprintf_g8 P val)"

definition cvarToString_enum :: "CVarEnumConst \<Rightarrow> NumberFormat \<Rightarrow> string" where
  "cvarToString_enum enumConst numberFormat =
     (if constName enumConst \<noteq> [] then constName enumConst
      else cvarToString_int (constValue enumConst) numberFormat)"

subsection \<open>\<open>cvarSetX\<close>\<close>

text \<open>
  Each \<open>cvarSetX\<close> overload writes through \<open>outVal\<close> and returns a flag.  The model
  takes the value \<open>outVal\<close> points to and returns the outcome together with the value
  found there afterwards.  A null range pointer is \<open>None\<close>.
\<close>

definition cvarSetInt64_int ::
  "int64 \<Rightarrow> int64 \<Rightarrow> int64 CVarNumberRange option \<Rightarrow> NumberFormat \<Rightarrow> Outcome \<times> int64" where
  "cvarSetInt64_int outVal newVal valueRange numberFormat =
     (case valueRange of
        Some r \<Rightarrow>
          if newVal <s minValue r then (Failure (Some BelowMinimum), outVal)
          else if maxValue r <s newVal then (Failure (Some AboveMaximum), outVal)
          else (Success, newVal)
      | None \<Rightarrow> (Success, newVal))"

definition cvarSetInt64_bool ::
  "bool \<Rightarrow> int64 \<Rightarrow> bool CVarNumberRange option \<Rightarrow> NumberFormat \<Rightarrow> Outcome \<times> bool" where
  "cvarSetInt64_bool outVal newVal valueRange numberFormat = (Success, 0 <s newVal)"

definition cvarSetInt64_double ::
  "Platform \<Rightarrow> double \<Rightarrow> int64 \<Rightarrow> double CVarNumberRange option \<Rightarrow> NumberFormat \<Rightarrow> Outcome \<times> double" where
  "cvarSetInt64_double P outVal newVal valueRange numberFormat =
     (case valueRange of
        Some r \<Rightarrow>
          if dless (int64ToDouble P newVal) (minValue r) then (Failure (Some BelowMinimum), outVal)
          else if dless (maxValue r) (int64ToDouble P newVal) then (Failure (Some AboveMaximum), outVal)
          else (Success, int64ToDouble P newVal)
      | None \<Rightarrow> (Success, int64ToDouble P newVal))"

text \<open>The search loops over the constant list, first match wins.\<close>

fun findEnumByValue :: "string list \<Rightarrow> int64 list \<Rightarrow> int64 \<Rightarrow> CVarEnumConst option" where
  "findEnumByValue (n # ns) (v # vs) newVal =
     (if v = newVal then Some \<lparr>constName = n, constValue = v\<rparr> else findEnumByValue ns vs newVal)"
| "findEnumByValue _ _ newVal = None"

fun findEnumByName :: "string list \<Rightarrow> int64 list \<Rightarrow> string \<Rightarrow> CVarEnumConst option" where
  "findEnumByName (n # ns) (v # vs) newVal =
     (if n = newVal then Some \<lparr>constName = n, constValue = v\<rparr> else findEnumByName ns vs newVal)"
| "findEnumByName _ _ newVal = None"

definition cvarSetInt64_enum ::
  "CVarEnumConst \<Rightarrow> int64 \<Rightarrow> CVarEnumConstList option \<Rightarrow> NumberFormat \<Rightarrow> Outcome \<times> CVarEnumConst" where
  "cvarSetInt64_enum outVal newVal enumConstants numberFormat =
     (case (case enumConstants of None \<Rightarrow> None | Some l \<Rightarrow> names l) of
        Some ns \<Rightarrow>
          (case findEnumByValue ns (enumValues (the enumConstants)) newVal of
             Some e \<Rightarrow> (Success, e)
           | None \<Rightarrow> (Failure None, outVal))
      | None \<Rightarrow> (Success, \<lparr>constName = [], constValue = newVal\<rparr>))"

definition cvarSetInt64_string ::
  "string \<Rightarrow> int64 \<Rightarrow> CVarAllowedStrings option \<Rightarrow> NumberFormat \<Rightarrow> Outcome \<times> string" where
  "cvarSetInt64_string outVal newVal allowedStrings numberFormat =
     (case (case allowedStrings of None \<Rightarrow> None | Some a \<Rightarrow> strings a) of
        Some ss \<Rightarrow>
          (if cvarToString_int newVal numberFormat \<in> set ss
           then (Success, cvarToString_int newVal numberFormat)
           else (Failure None, outVal))
      | None \<Rightarrow> (Success, cvarToString_int newVal numberFormat))"

definition cvarSetDouble_int ::
  "Platform \<Rightarrow> int64 \<Rightarrow> double \<Rightarrow> int64 CVarNumberRange option \<Rightarrow> Outcome \<times> int64" where
  "cvarSetDouble_int P outVal newVal valueRange =
     (case valueRange of
        Some r \<Rightarrow>
          if dless newVal (int64ToDouble P (minValue r)) then (Failure (Some BelowMinimum), outVal)
          else if dless (int64ToDouble P (maxValue r)) newVal then (Failure (Some AboveMaximum), outVal)
          else (Success, doubleToInt64 P newVal)
      | None \<Rightarrow> (Success, doubleToInt64 P newVal))"

definition cvarSetDouble_bool ::
  "bool \<Rightarrow> double \<Rightarrow> bool CVarNumberRange option \<Rightarrow> Outcome \<times> bool" where
  "cvarSetDouble_bool outVal newVal valueRange = (Success, dless (DNum 0) newVal)"

definition cvarSetDouble_double ::
  "double \<Rightarrow> double \<Rightarrow> double CVarNumberRange option \<Rightarrow> Outcome \<times> double" where
  "cvarSetDouble_double outVal newVal valueRange =
     (case valueRange of
        Some r \<Rightarrow>
          if dless newVal (minValue r) then (Failure (Some BelowMinimum), outVal)
          else if dless (maxValue r) newVal then (Failure (Some AboveMaximum), outVal)
          else (Success, newVal)
      | None \<Rightarrow> (Success, newVal))"

definition cvarSetDouble_enum ::
  "Platform \<Rightarrow> CVarEnumConst \<Rightarrow> double \<Rightarrow> CVarEnumConstList option \<Rightarrow> Outcome \<times> CVarEnumConst" where
  "cvarSetDouble_enum P outVal newVal enumConstants =
     cvarSetInt64_enum outVal (doubleToInt64 P newVal) enumConstants Decimal"

definition cvarSetDouble_string ::
  "Platform \<Rightarrow> string \<Rightarrow> double \<Rightarrow> CVarAllowedStrings option \<Rightarrow> Outcome \<times> string" where
  "cvarSetDouble_string P outVal newVal allowedStrings =
     (case (case allowedStrings of None \<Rightarrow> None | Some a \<Rightarrow> strings a) of
        Some ss \<Rightarrow>
          (if cvarToString_double P newVal \<in> set ss
           then (Success, cvarToString_double P newVal)
           else (Failure None, outVal))
      | None \<Rightarrow> (Success, cvarToString_double P newVal))"

definition cvarSetString_int ::
  "int64 \<Rightarrow> string \<Rightarrow> int64 CVarNumberRange option \<Rightarrow> Outcome \<times> int64" where
  "cvarSetString_int outVal newVal valueRange =
     (case cvarToInt64_str newVal of
        (temp, ok) \<Rightarrow>
          if \<not> ok then (Failure (Some NoIntConversion), outVal)
          else cvarSetInt64_int outVal temp valueRange Decimal)"

fun findBoolString :: "(string \<times> string) list \<Rightarrow> string \<Rightarrow> bool option" where
  "findBoolString [] newVal = None"
| "findBoolString ((trueStr, falseStr) # rest) newVal =
     (if trueStr = newVal then Some True
      else if falseStr = newVal then Some False
      else findBoolString rest newVal)"

definition cvarSetString_bool ::
  "Platform \<Rightarrow> bool \<Rightarrow> string \<Rightarrow> bool CVarNumberRange option \<Rightarrow> Outcome \<times> bool" where
  "cvarSetString_bool P outVal newVal valueRange =
     (case findBoolString (boolStrings P) newVal of
        Some b \<Rightarrow> (Success, b)
      | None \<Rightarrow> (Failure (Some BadBoolString), outVal))"

definition cvarSetString_double ::
  "Platform \<Rightarrow> double \<Rightarrow> string \<Rightarrow> double CVarNumberRange option \<Rightarrow> Outcome \<times> double" where
  "cvarSetString_double P outVal newVal valueRange =
     (case cvarToDouble_str P newVal of
        (temp, ok) \<Rightarrow>
          if \<not> ok then (Failure (Some NoFloatConversion), outVal)
          else cvarSetDouble_double outVal temp valueRange)"

definition cvarSetString_enum ::
  "CVarEnumConst \<Rightarrow> string \<Rightarrow> CVarEnumConstList option \<Rightarrow> Outcome \<times> CVarEnumConst" where
  "cvarSetString_enum outVal newVal enumConstants =
     (case (case enumConstants of None \<Rightarrow> None | Some l \<Rightarrow> names l) of
        Some ns \<Rightarrow>
          (case findEnumByName ns (enumValues (the enumConstants)) newVal of
             Some e \<Rightarrow> (Success, e)
           | None \<Rightarrow> (Failure None, outVal))
      | None \<Rightarrow>
          (case cvarSetString_int 0 newVal None of
             (Success, temp) \<Rightarrow> (Success, \<lparr>constName = [], constValue = temp\<rparr>)
           | (Failure e, _) \<Rightarrow> (Failure e, outVal)))"

definition cvarSetString_string ::
  "string \<Rightarrow> string \<Rightarrow> CVarAllowedStrings option \<Rightarrow> Outcome \<times> string" where
  "cvarSetString_string outVal newVal allowedStrings =
     (case (case allowedStrings of None \<Rightarrow> None | Some a \<Rightarrow> strings a) of
        Some ss \<Rightarrow> (if newVal \<in> set ss then (Success, newVal) else (Failure None, outVal))
      | None \<Rightarrow> (Success, newVal))"

section \<open>\<open>CVarImpl\<close>\<close>

text \<open>
  \<open>CVarImpl<ValueType, ValueRange, TypeTag>\<close>.  The member functions of the template
  call the \<open>cvarSetX\<close>/\<open>cvarToX\<close> overload selected by \<open>ValueType\<close>; in the model
  that overload is the first argument of each member function.  A null description is
  \<open>None\<close>.
\<close>

record ('v, 'r) CVarImpl =
  currentValue :: 'v
  defaultValue :: 'v
  valueRange :: 'r
  numberFormat :: NumberFormat
  flags :: uint32
  name :: string
  description :: "string option"

definition newCVarImpl ::
  "string \<Rightarrow> string \<Rightarrow> uint32 \<Rightarrow> 'v \<Rightarrow> 'r \<Rightarrow> ('v, 'r) CVarImpl" where
  "newCVarImpl varName varDesc varFlags initValue rng =
     \<lparr>currentValue = initValue, defaultValue = initValue, valueRange = rng,
      numberFormat = Decimal, flags = varFlags, name = varName,
      description = (if varDesc \<noteq> [] then Some varDesc else None)\<rparr>"

definition setModified :: "('v, 'r) CVarImpl \<Rightarrow> ('v, 'r) CVarImpl" where
  "setModified cv = cv\<lparr>flags := flags cv OR Modified\<rparr>"

definition clearModified :: "('v, 'r) CVarImpl \<Rightarrow> ('v, 'r) CVarImpl" where
  "clearModified cv = cv\<lparr>flags := flags cv AND NOT Modified\<rparr>"

definition isModified :: "('v, 'r) CVarImpl \<Rightarrow> bool" where
  "isModified cv = (flags cv AND Modified \<noteq> 0)"

definition isWritable :: "('v, 'r) CVarImpl \<Rightarrow> bool" where
  "isWritable cv = (\<not> (flags cv AND (ReadOnly OR InitOnly) \<noteq> 0))"

definition isRangeChecked :: "('v, 'r) CVarImpl \<Rightarrow> bool" where
  "isRangeChecked cv = (flags cv AND RangeCheck \<noteq> 0)"

definition rangeArg :: "('v, 'r) CVarImpl \<Rightarrow> 'r option" where
  \<comment> \<open>\<open>(isRangeChecked() ? &valueRange : nullptr)\<close>\<close>
  "rangeArg cv = (if isRangeChecked cv then Some (valueRange cv) else None)"

definition setIntValue ::
  "('v \<Rightarrow> int64 \<Rightarrow> 'r option \<Rightarrow> NumberFormat \<Rightarrow> Outcome \<times> 'v) \<Rightarrow>
   ('v, 'r) CVarImpl \<Rightarrow> int64 \<Rightarrow> Outcome \<times> ('v, 'r) CVarImpl" where
  "setIntValue cvarSetInt64 cv newValue =
     (if \<not> isWritable cv then (Failure (Some ReadOnlyError), cv)
      else case cvarSetInt64 (currentValue cv) newValue (rangeArg cv) (numberFormat cv) of
             (Success, v) \<Rightarrow> (Success, setModified (cv\<lparr>currentValue := v\<rparr>))
           | (Failure e, v) \<Rightarrow> (Failure e, cv\<lparr>currentValue := v\<rparr>))"

definition setBoolValue ::
  "('v \<Rightarrow> int64 \<Rightarrow> 'r option \<Rightarrow> NumberFormat \<Rightarrow> Outcome \<times> 'v) \<Rightarrow>
   ('v, 'r) CVarImpl \<Rightarrow> bool \<Rightarrow> Outcome \<times> ('v, 'r) CVarImpl" where
  "setBoolValue cvarSetInt64 cv newValue =
     (if \<not> isWritable cv then (Failure (Some ReadOnlyError), cv)
      else case cvarSetInt64 (currentValue cv) (cvarToInt64_bool newValue) (rangeArg cv) (numberFormat cv) of
             (Success, v) \<Rightarrow> (Success, setModified (cv\<lparr>currentValue := v\<rparr>))
           | (Failure e, v) \<Rightarrow> (Failure e, cv\<lparr>currentValue := v\<rparr>))"

definition setFloatValue ::
  "('v \<Rightarrow> double \<Rightarrow> 'r option \<Rightarrow> Outcome \<times> 'v) \<Rightarrow>
   ('v, 'r) CVarImpl \<Rightarrow> double \<Rightarrow> Outcome \<times> ('v, 'r) CVarImpl" where
  "setFloatValue cvarSetDouble cv newValue =
     (if \<not> isWritable cv then (Failure (Some ReadOnlyError), cv)
      else case cvarSetDouble (currentValue cv) newValue (rangeArg cv) of
             (Success, v) \<Rightarrow> (Success, setModified (cv\<lparr>currentValue := v\<rparr>))
           | (Failure e, v) \<Rightarrow> (Failure e, cv\<lparr>currentValue := v\<rparr>))"

definition setStringValue ::
  "('v \<Rightarrow> string \<Rightarrow> 'r option \<Rightarrow> Outcome \<times> 'v) \<Rightarrow>
   ('v, 'r) CVarImpl \<Rightarrow> string \<Rightarrow> Outcome \<times> ('v, 'r) CVarImpl" where
  "setStringValue cvarSetString cv newValue =
     (if \<not> isWritable cv then (Failure (Some ReadOnlyError), cv)
      else case cvarSetString (currentValue cv) newValue (rangeArg cv) of
             (Success, v) \<Rightarrow> (Success, setModified (cv\<lparr>currentValue := v\<rparr>))
           | (Failure e, v) \<Rightarrow> (Failure e, cv\<lparr>currentValue := v\<rparr>))"

definition setStringValueIgnoreRO ::
  "('v \<Rightarrow> string \<Rightarrow> 'r option \<Rightarrow> Outcome \<times> 'v) \<Rightarrow>
   ('v, 'r) CVarImpl \<Rightarrow> string \<Rightarrow> bool \<Rightarrow> bool \<Rightarrow> Outcome \<times> ('v, 'r) CVarImpl" where
  "setStringValueIgnoreRO cvarSetString cv newValue writeRomCVars writeInitCVars =
     (if flags cv AND ReadOnly \<noteq> 0 \<and> \<not> writeRomCVars then (Failure (Some ReadOnlyError), cv)
      else if flags cv AND InitOnly \<noteq> 0 \<and> \<not> writeInitCVars then (Failure (Some ReadOnlyError), cv)
      else case cvarSetString (currentValue cv) newValue (rangeArg cv) of
             (Success, v) \<Rightarrow> (Success, cv\<lparr>currentValue := v\<rparr>)
           | (Failure e, v) \<Rightarrow> (Failure e, cv\<lparr>currentValue := v\<rparr>))"

definition setDefaultValue :: "('v, 'r) CVarImpl \<Rightarrow> Outcome \<times> ('v, 'r) CVarImpl" where
  "setDefaultValue cv =
     (if \<not> isWritable cv then (Failure (Some ReadOnlyError), cv)
      else (Success, setModified (cv\<lparr>currentValue := defaultValue cv\<rparr>)))"

definition setDefaultValueIgnoreRO ::
  "('v, 'r) CVarImpl \<Rightarrow> bool \<Rightarrow> bool \<Rightarrow> Outcome \<times> ('v, 'r) CVarImpl" where
  "setDefaultValueIgnoreRO cv writeRomCVars writeInitCVars =
     (if flags cv AND ReadOnly \<noteq> 0 \<and> \<not> writeRomCVars then (Failure (Some ReadOnlyError), cv)
      else if flags cv AND InitOnly \<noteq> 0 \<and> \<not> writeInitCVars then (Failure (Some ReadOnlyError), cv)
      else (Success, cv\<lparr>currentValue := defaultValue cv\<rparr>))"

definition getStringValue ::
  "('v \<Rightarrow> NumberFormat \<Rightarrow> string) \<Rightarrow> ('v, 'r) CVarImpl \<Rightarrow> string" where
  "getStringValue cvarToString cv = cvarToString (currentValue cv) (numberFormat cv)"

subsection \<open>The supported CVar types\<close>

type_synonym CVarInt = "(int64, int64 CVarNumberRange) CVarImpl"
type_synonym CVarBool = "(bool, bool CVarNumberRange) CVarImpl"
type_synonym CVarFloat = "(double, double CVarNumberRange) CVarImpl"
type_synonym CVarString = "(string, CVarAllowedStrings) CVarImpl"
type_synonym CVarEnum = "(CVarEnumConst, CVarEnumConstList) CVarImpl"

text \<open>
  The registry stores \<open>CVarImplBase\<close> pointers and calls the virtual interface; the
  model's \<open>CVar\<close> is the sum of the five instantiations and every virtual call
  dispatches on the constructor.
\<close>

datatype CVar =
    IntVar CVarInt
  | BoolVar CVarBool
  | FloatVar CVarFloat
  | StringVar CVarString
  | EnumVar CVarEnum

fun getFlags :: "CVar \<Rightarrow> uint32" where
  "getFlags (IntVar cv) = flags cv"
| "getFlags (BoolVar cv) = flags cv"
| "getFlags (FloatVar cv) = flags cv"
| "getFlags (StringVar cv) = flags cv"
| "getFlags (EnumVar cv) = flags cv"


fun cvarIsWritable :: "CVar \<Rightarrow> bool" where
  "cvarIsWritable (IntVar cv) = isWritable cv"
| "cvarIsWritable (BoolVar cv) = isWritable cv"
| "cvarIsWritable (FloatVar cv) = isWritable cv"
| "cvarIsWritable (StringVar cv) = isWritable cv"
| "cvarIsWritable (EnumVar cv) = isWritable cv"

fun cvarGetStringValue :: "Platform \<Rightarrow> CVar \<Rightarrow> string" where
  "cvarGetStringValue P (IntVar cv) = getStringValue cvarToString_int cv"
| "cvarGetStringValue P (BoolVar cv) = getStringValue (\<lambda>v f. cvarToString_bool P v) cv"
| "cvarGetStringValue P (FloatVar cv) = getStringValue (\<lambda>v f. cvarToString_double P v) cv"
| "cvarGetStringValue P (StringVar cv) = getStringValue (\<lambda>v f. v) cv"
| "cvarGetStringValue P (EnumVar cv) = getStringValue cvarToString_enum cv"

fun cvarGetIntValue :: "Platform \<Rightarrow> CVar \<Rightarrow> int64" where
  "cvarGetIntValue P (IntVar cv) = currentValue cv"
| "cvarGetIntValue P (BoolVar cv) = cvarToInt64_bool (currentValue cv)"
| "cvarGetIntValue P (FloatVar cv) = doubleToInt64 P (currentValue cv)"
| "cvarGetIntValue P (StringVar cv) = fst (cvarToInt64_str (currentValue cv))"
| "cvarGetIntValue P (EnumVar cv) = constValue (currentValue cv)"

definition cvarGetBoolValue :: "Platform \<Rightarrow> CVar \<Rightarrow> bool" where
  "cvarGetBoolValue P cvar = (cvarGetIntValue P cvar \<noteq> 0)"

fun cvarGetFloatValue :: "Platform \<Rightarrow> CVar \<Rightarrow> double" where
  "cvarGetFloatValue P (IntVar cv) = int64ToDouble P (currentValue cv)"
| "cvarGetFloatValue P (BoolVar cv) = int64ToDouble P (cvarToInt64_bool (currentValue cv))"
| "cvarGetFloatValue P (FloatVar cv) = currentValue cv"
| "cvarGetFloatValue P (StringVar cv) = fst (cvarToDouble_str P (currentValue cv))"
| "cvarGetFloatValue P (EnumVar cv) = int64ToDouble P (constValue (currentValue cv))"

fun cvarSetIntValue :: "Platform \<Rightarrow> CVar \<Rightarrow> int64 \<Rightarrow> Outcome \<times> CVar" where
  "cvarSetIntValue P (IntVar cv) v = map_prod id IntVar (setIntValue cvarSetInt64_int cv v)"
| "cvarSetIntValue P (BoolVar cv) v = map_prod id BoolVar (setIntValue cvarSetInt64_bool cv v)"
| "cvarSetIntValue P (FloatVar cv) v = map_prod id FloatVar (setIntValue (cvarSetInt64_double P) cv v)"
| "cvarSetIntValue P (StringVar cv) v = map_prod id StringVar (setIntValue cvarSetInt64_string cv v)"
| "cvarSetIntValue P (EnumVar cv) v = map_prod id EnumVar (setIntValue cvarSetInt64_enum cv v)"

fun cvarSetBoolValue :: "Platform \<Rightarrow> CVar \<Rightarrow> bool \<Rightarrow> Outcome \<times> CVar" where
  "cvarSetBoolValue P (IntVar cv) v = map_prod id IntVar (setBoolValue cvarSetInt64_int cv v)"
| "cvarSetBoolValue P (BoolVar cv) v = map_prod id BoolVar (setBoolValue cvarSetInt64_bool cv v)"
| "cvarSetBoolValue P (FloatVar cv) v = map_prod id FloatVar (setBoolValue (cvarSetInt64_double P) cv v)"
| "cvarSetBoolValue P (StringVar cv) v = map_prod id StringVar (setBoolValue cvarSetInt64_string cv v)"
| "cvarSetBoolValue P (EnumVar cv) v = map_prod id EnumVar (setBoolValue cvarSetInt64_enum cv v)"

fun cvarSetFloatValue :: "Platform \<Rightarrow> CVar \<Rightarrow> double \<Rightarrow> Outcome \<times> CVar" where
  "cvarSetFloatValue P (IntVar cv) v = map_prod id IntVar (setFloatValue (cvarSetDouble_int P) cv v)"
| "cvarSetFloatValue P (BoolVar cv) v = map_prod id BoolVar (setFloatValue cvarSetDouble_bool cv v)"
| "cvarSetFloatValue P (FloatVar cv) v = map_prod id FloatVar (setFloatValue cvarSetDouble_double cv v)"
| "cvarSetFloatValue P (StringVar cv) v = map_prod id StringVar (setFloatValue (cvarSetDouble_string P) cv v)"
| "cvarSetFloatValue P (EnumVar cv) v = map_prod id EnumVar (setFloatValue (cvarSetDouble_enum P) cv v)"

fun cvarSetStringValue :: "Platform \<Rightarrow> CVar \<Rightarrow> string \<Rightarrow> Outcome \<times> CVar" where
  "cvarSetStringValue P (IntVar cv) v = map_prod id IntVar (setStringValue cvarSetString_int cv v)"
| "cvarSetStringValue P (BoolVar cv) v = map_prod id BoolVar (setStringValue (cvarSetString_bool P) cv v)"
| "cvarSetStringValue P (FloatVar cv) v = map_prod id FloatVar (setStringValue (cvarSetString_double P) cv v)"
| "cvarSetStringValue P (StringVar cv) v = map_prod id StringVar (setStringValue cvarSetString_string cv v)"
| "cvarSetStringValue P (EnumVar cv) v = map_prod id EnumVar (setStringValue cvarSetString_enum cv v)"

fun cvarSetStringValueIgnoreRO :: "Platform \<Rightarrow> CVar \<Rightarrow> string \<Rightarrow> bool \<Rightarrow> bool \<Rightarrow> Outcome \<times> CVar" where
  "cvarSetStringValueIgnoreRO P (IntVar cv) v r i =
     map_prod id IntVar (setStringValueIgnoreRO cvarSetString_int cv v r i)"
| "cvarSetStringValueIgnoreRO P (BoolVar cv) v r i =
     map_prod id BoolVar (setStringValueIgnoreRO (cvarSetString_bool P) cv v r i)"
| "cvarSetStringValueIgnoreRO P (FloatVar cv) v r i =
     map_prod id FloatVar (setStringValueIgnoreRO (cvarSetString_double P) cv v r i)"
| "cvarSetStringValueIgnoreRO P (StringVar cv) v r i =
     map_prod id StringVar (setStringValueIgnoreRO cvarSetString_string cv v r i)"
| "cvarSetStringValueIgnoreRO P (EnumVar cv) v r i =
     map_prod id EnumVar (setStringValueIgnoreRO cvarSetString_enum cv v r i)"

fun cvarSetDefaultValue :: "CVar \<Rightarrow> Outcome \<times> CVar" where
  "cvarSetDefaultValue (IntVar cv) = map_prod id IntVar (setDefaultValue cv)"
| "cvarSetDefaultValue (BoolVar cv) = map_prod id BoolVar (setDefaultValue cv)"
| "cvarSetDefaultValue (FloatVar cv) = map_prod id FloatVar (setDefaultValue cv)"
| "cvarSetDefaultValue (StringVar cv) = map_prod id StringVar (setDefaultValue cv)"
| "cvarSetDefaultValue (EnumVar cv) = map_prod id EnumVar (setDefaultValue cv)"

fun cvarSetDefaultValueIgnoreRO :: "CVar \<Rightarrow> bool \<Rightarrow> bool \<Rightarrow> Outcome \<times> CVar" where
  "cvarSetDefaultValueIgnoreRO (IntVar cv) r i = map_prod id IntVar (setDefaultValueIgnoreRO cv r i)"
| "cvarSetDefaultValueIgnoreRO (BoolVar cv) r i = map_prod id BoolVar (setDefaultValueIgnoreRO cv r i)"
| "cvarSetDefaultValueIgnoreRO (FloatVar cv) r i = map_prod id FloatVar (setDefaultValueIgnoreRO cv r i)"
| "cvarSetDefaultValueIgnoreRO (StringVar cv) r i = map_prod id StringVar (setDefaultValueIgnoreRO cv r i)"
| "cvarSetDefaultValueIgnoreRO (EnumVar cv) r i = map_prod id EnumVar (setDefaultValueIgnoreRO cv r i)"

section \<open>The registry name index\<close>

text \<open>
  \<open>StringHasher\<close>: Jenkins' one-at-a-time hash on 32-bit unsigned integers.  Each
  character is promoted to \<open>int\<close> before it is added.
\<close>

fun StringHasher_loop :: "uint32 \<Rightarrow> string \<Rightarrow> uint32" where
  "StringHasher_loop h [] = h"
| "StringHasher_loop h (c # str) =
     (let h1 = h + word_of_int (charInt c);
          h2 = h1 + push_bit 10 h1;
          h3 = h2 XOR drop_bit 6 h2
      in StringHasher_loop h3 str)"

definition StringHasher :: "string \<Rightarrow> uint32" where
  "StringHasher str =
     (let h = StringHasher_loop 0 str;
          h1 = h + push_bit 3 h;
          h2 = h1 XOR drop_bit 11 h1
      in h2 + push_bit 15 h2)"

text \<open>
  \<open>HashTableLink\<close> is the intrusive part of every entry.  Entries live at addresses;
  the heap of links maps an address to the link fields found there, and a null pointer
  is \<open>None\<close>.
\<close>

type_synonym addr = nat

record HashTableLink =
  hashKey :: uint32
  hashNext :: "addr option"
  listNext :: "addr option"

type_synonym linkHeap = "addr \<Rightarrow> HashTableLink"

definition newLink :: HashTableLink where
  "newLink = \<lparr>hashKey = 0, hashNext = None, listNext = None\<rparr>"

text \<open>
  \<open>LinkedHashTable<T, HF>\<close>.  The bucket array is \<open>None\<close> until it is allocated.
  The hash functor \<open>HF\<close> is an argument of every operation that hashes a key.

  An operation yields \<open>None\<close> when the call does not return normally: a \<open>CFG_ASSERT\<close>
  fails, a null pointer is dereferenced, or a chain walk never ends.
\<close>

record LinkedHashTable =
  table :: "addr option list option"
  listHead :: "addr option"
  bucketCount :: nat
  usedBuckets :: int

definition DefaultHTSizeHint :: nat where
  "DefaultHTSizeHint = 1033"

definition emptyTable :: LinkedHashTable where
  "emptyTable = \<lparr>table = None, listHead = None, bucketCount = 0, usedBuckets = 0\<rparr>"

definition allocate :: "LinkedHashTable \<Rightarrow> nat \<Rightarrow> LinkedHashTable option" where
  "allocate T sizeInBuckets =
     (if table T \<noteq> None then Some T
      else if sizeInBuckets = 0 then None
      else Some (T\<lparr>table := Some (replicate sizeInBuckets None), bucketCount := sizeInBuckets\<rparr>))"


definition isEmpty :: "LinkedHashTable \<Rightarrow> bool" where
  "isEmpty T = (usedBuckets T = 0)"

definition hashOf :: "(string \<Rightarrow> uint32) \<Rightarrow> string \<Rightarrow> uint32 option" where
  \<comment> \<open>\<open>CFG_ASSERT(hashKey != 0 && "Null hash indexes not allowed!")\<close>\<close>
  "hashOf HF key = (if HF key \<noteq> 0 then Some (HF key) else None)"

definition bucketOf :: "LinkedHashTable \<Rightarrow> uint32 \<Rightarrow> nat option" where
  \<comment> \<open>\<open>hashKey % bucketCount\<close>, an index into the allocated array\<close>
  "bucketOf T h =
     (case table T of
        None \<Rightarrow> None
      | Some tbl \<Rightarrow>
          if bucketCount T = 0 \<or> \<not> unat h mod bucketCount T < length tbl then None
          else Some (unat h mod bucketCount T))"

partial_function (option) findByKey_loop :: "linkHeap \<Rightarrow> uint32 \<Rightarrow> addr option \<Rightarrow> addr option option" where
  "findByKey_loop H h node =
     (case node of
        None \<Rightarrow> Some None
      | Some a \<Rightarrow> if h = hashKey (H a) then Some (Some a) else findByKey_loop H h (hashNext (H a)))"

definition findByKey ::
  "(string \<Rightarrow> uint32) \<Rightarrow> linkHeap \<Rightarrow> LinkedHashTable \<Rightarrow> string \<Rightarrow> addr option option" where
  "findByKey HF H T key =
     (if isEmpty T then Some None
      else case hashOf HF key of
             None \<Rightarrow> None
           | Some h \<Rightarrow>
               (case bucketOf T h of
                  None \<Rightarrow> None
                | Some b \<Rightarrow> findByKey_loop H h (the (table T) ! b)))"

definition linkWithKey ::
  "(string \<Rightarrow> uint32) \<Rightarrow> linkHeap \<Rightarrow> LinkedHashTable \<Rightarrow> addr \<Rightarrow> string \<Rightarrow>
   (linkHeap \<times> LinkedHashTable) option" where
  "linkWithKey HF H T node key =
     (if hashKey (H node) \<noteq> 0 then None
      else case allocate T DefaultHTSizeHint of
             None \<Rightarrow> None
           | Some T1 \<Rightarrow>
               (case hashOf HF key of
                  None \<Rightarrow> None
                | Some h \<Rightarrow>
                    (case bucketOf T1 h of
                       None \<Rightarrow> None
                     | Some bucket \<Rightarrow>
                         Some (H(node := \<lparr>hashKey = h,
                                          hashNext = the (table T1) ! bucket,
                                          listNext = listHead T1\<rparr>),
                               T1\<lparr>table := Some ((the (table T1))[bucket := Some node]),
                                  listHead := Some node,
                                  usedBuckets := usedBuckets T1 + 1\<rparr>))))"





section \<open>\<open>CVarManagerImpl\<close>\<close>

text \<open>
  The manager owns the entries it registers.  \<open>links\<close> holds the \<open>HashTableLink\<close>
  part of every entry and \<open>cvars\<close> the \<open>CVar\<close> part of the live ones.  CVar names are
  case-sensitive in the default configuration, so the name index hashes with
  \<open>StringHasher\<close>.  A name pointer that is null is treated like the empty name: the
  sources test both together everywhere.
\<close>

record CVarManagerImpl =
  registeredCVars :: LinkedHashTable
  links :: linkHeap
  cvars :: "addr \<rightharpoonup> CVar"
  allowWritingRomCVars :: bool
  allowWritingInitCVars :: bool

definition newCVarManagerImpl :: "nat \<Rightarrow> CVarManagerImpl" where
  "newCVarManagerImpl hashTableSize =
     \<lparr>registeredCVars =
        (if hashTableSize > 0 then the (allocate emptyTable hashTableSize) else emptyTable),
      links = (\<lambda>a. newLink), cvars = Map.empty,
      allowWritingRomCVars = False, allowWritingInitCVars = False\<rparr>"

definition findCVar :: "CVarManagerImpl \<Rightarrow> string \<Rightarrow> addr option option" where
  "findCVar mgr varName =
     (if varName = [] then Some None
      else findByKey StringHasher (links mgr) (registeredCVars mgr) varName)"

datatype RegistrationError =
  NullOrEmptyName | InvalidName | DifferentFlags | DifferentValue | DuplicateName

text \<open>
  \<open>validateCVarRegistration\<close>: \<open>Some None\<close> is "registration is a go".  The
  comparison of the registered value with \<open>initValue\<close> is the argument \<open>sameValue\<close>.
\<close>

definition validateCVarRegistration ::
  "CVarManagerImpl \<Rightarrow> string \<Rightarrow> uint32 \<Rightarrow> (CVar \<Rightarrow> bool) \<Rightarrow> RegistrationError option option" where
  "validateCVarRegistration mgr varName varFlags sameValue =
     (if varName = [] then Some (Some NullOrEmptyName)
      else if \<not> isValidCVarName varName then Some (Some InvalidName)
      else case findCVar mgr varName of
             None \<Rightarrow> None
           | Some (Some a) \<Rightarrow>
               (case cvars mgr a of
                  None \<Rightarrow> None
                | Some cvar \<Rightarrow>
                    Some (Some (if getFlags cvar \<noteq> varFlags then DifferentFlags
                                else if \<not> sameValue cvar then DifferentValue
                                else DuplicateName)))
           | Some None \<Rightarrow> Some None)"

text \<open>
  The common tail of the \<open>registerCVarX\<close> functions: allocate, construct and link.
  \<open>newVar\<close> is the address \<open>memAlloc\<close> returns, which holds no live entry.  The result
  is the manager and either the reported error (a null result) or the new entry.
\<close>

definition registerValidated ::
  "CVarManagerImpl \<Rightarrow> addr \<Rightarrow> string \<Rightarrow> CVar \<Rightarrow> RegistrationError option option \<Rightarrow>
   (CVarManagerImpl \<times> (RegistrationError + addr)) option" where
  "registerValidated mgr newVar varName obj validation =
     (case validation of
        None \<Rightarrow> None
      | Some (Some e) \<Rightarrow> Some (mgr, Inl e)
      | Some None \<Rightarrow>
          if cvars mgr newVar \<noteq> None then None
          else case linkWithKey StringHasher ((links mgr)(newVar := newLink)) (registeredCVars mgr)
                      newVar varName of
                 None \<Rightarrow> None
               | Some (H, T) \<Rightarrow>
                   Some (mgr\<lparr>registeredCVars := T, links := H,
                             cvars := (cvars mgr)(newVar \<mapsto> obj)\<rparr>, Inr newVar))"

definition registerCVarBool ::
  "Platform \<Rightarrow> CVarManagerImpl \<Rightarrow> addr \<Rightarrow> string \<Rightarrow> string \<Rightarrow> uint32 \<Rightarrow> bool \<Rightarrow>
   (CVarManagerImpl \<times> (RegistrationError + addr)) option" where
  "registerCVarBool P mgr newVar varName varDesc varFlags initValue =
     registerValidated mgr newVar varName
       (BoolVar (newCVarImpl varName varDesc varFlags initValue \<lparr>minValue = False, maxValue = True\<rparr>))
       (validateCVarRegistration mgr varName varFlags (\<lambda>cvar. cvarGetBoolValue P cvar = initValue))"

definition registerCVarInt ::
  "Platform \<Rightarrow> CVarManagerImpl \<Rightarrow> addr \<Rightarrow> string \<Rightarrow> string \<Rightarrow> uint32 \<Rightarrow> int64 \<Rightarrow> int64 \<Rightarrow> int64 \<Rightarrow>
   (CVarManagerImpl \<times> (RegistrationError + addr)) option" where
  "registerCVarInt P mgr newVar varName varDesc varFlags initValue minVal maxVal =
     registerValidated mgr newVar varName
       (IntVar (newCVarImpl varName varDesc varFlags initValue \<lparr>minValue = minVal, maxValue = maxVal\<rparr>))
       (validateCVarRegistration mgr varName varFlags (\<lambda>cvar. cvarGetIntValue P cvar = initValue))"

definition registerCVarFloat ::
  "Platform \<Rightarrow> CVarManagerImpl \<Rightarrow> addr \<Rightarrow> string \<Rightarrow> string \<Rightarrow> uint32 \<Rightarrow> double \<Rightarrow> double \<Rightarrow> double \<Rightarrow>
   (CVarManagerImpl \<times> (RegistrationError + addr)) option" where
  "registerCVarFloat P mgr newVar varName varDesc varFlags initValue minVal maxVal =
     registerValidated mgr newVar varName
       (FloatVar (newCVarImpl varName varDesc varFlags initValue \<lparr>minValue = minVal, maxValue = maxVal\<rparr>))
       (validateCVarRegistration mgr varName varFlags
          (\<lambda>cvar. cvarGetFloatValue P cvar = initValue \<and> initValue \<noteq> DNaN))"

definition registerCVarString ::
  "Platform \<Rightarrow> CVarManagerImpl \<Rightarrow> addr \<Rightarrow> string \<Rightarrow> string \<Rightarrow> uint32 \<Rightarrow> string \<Rightarrow> string list option \<Rightarrow>
   (CVarManagerImpl \<times> (RegistrationError + addr)) option" where
  "registerCVarString P mgr newVar varName varDesc varFlags initValue allowedStrings =
     registerValidated mgr newVar varName
       (StringVar (newCVarImpl varName varDesc varFlags initValue \<lparr>strings = allowedStrings\<rparr>))
       (validateCVarRegistration mgr varName varFlags (\<lambda>cvar. cvarGetStringValue P cvar = initValue))"


text \<open>
  The by-name setters.  The flag the virtual setter returns is dropped, as in the
  sources.  \<open>INT64_MIN\<close>, \<open>INT64_MAX\<close>, \<open>DBL_MIN\<close> and \<open>DBL_MAX\<close> are written out.
\<close>

definition INT64_MIN :: int64 where "INT64_MIN = word_of_int (- (2 ^ 63))"
definition INT64_MAX :: int64 where "INT64_MAX = word_of_int (2 ^ 63 - 1)"
definition DBL_MIN :: double where "DBL_MIN = DNum (1 / 2 ^ 1022)"
definition DBL_MAX :: double where "DBL_MAX = DNum ((2 - 1 / 2 ^ 52) * 2 ^ 1023)"

definition setExisting ::
  "CVarManagerImpl \<Rightarrow> addr \<Rightarrow> (CVar \<Rightarrow> Outcome \<times> CVar) \<Rightarrow>
   (CVarManagerImpl \<times> (RegistrationError + addr)) option" where
  "setExisting mgr a setter =
     (case cvars mgr a of
        None \<Rightarrow> None
      | Some cvar \<Rightarrow> Some (mgr\<lparr>cvars := (cvars mgr)(a \<mapsto> snd (setter cvar))\<rparr>, Inr a))"

definition setCVarValueBool ::
  "Platform \<Rightarrow> CVarManagerImpl \<Rightarrow> addr \<Rightarrow> string \<Rightarrow> bool \<Rightarrow> uint32 \<Rightarrow>
   (CVarManagerImpl \<times> (RegistrationError + addr)) option" where
  "setCVarValueBool P mgr newVar varName val varFlags =
     (case findCVar mgr varName of
        None \<Rightarrow> None
      | Some (Some a) \<Rightarrow> setExisting mgr a (\<lambda>cvar. cvarSetBoolValue P cvar val)
      | Some None \<Rightarrow> registerCVarBool P mgr newVar varName [] varFlags val)"

definition setCVarValueInt ::
  "Platform \<Rightarrow> CVarManagerImpl \<Rightarrow> addr \<Rightarrow> string \<Rightarrow> int64 \<Rightarrow> uint32 \<Rightarrow>
   (CVarManagerImpl \<times> (RegistrationError + addr)) option" where
  "setCVarValueInt P mgr newVar varName val varFlags =
     (case findCVar mgr varName of
        None \<Rightarrow> None
      | Some (Some a) \<Rightarrow> setExisting mgr a (\<lambda>cvar. cvarSetIntValue P cvar val)
      | Some None \<Rightarrow> registerCVarInt P mgr newVar varName [] varFlags val INT64_MIN INT64_MAX)"

definition setCVarValueFloat ::
  "Platform \<Rightarrow> CVarManagerImpl \<Rightarrow> addr \<Rightarrow> string \<Rightarrow> double \<Rightarrow> uint32 \<Rightarrow>
   (CVarManagerImpl \<times> (RegistrationError + addr)) option" where
  "setCVarValueFloat P mgr newVar varName val varFlags =
     (case findCVar mgr varName of
        None \<Rightarrow> None
      | Some (Some a) \<Rightarrow> setExisting mgr a (\<lambda>cvar. cvarSetFloatValue P cvar val)
      | Some None \<Rightarrow> registerCVarFloat P mgr newVar varName [] varFlags val DBL_MIN DBL_MAX)"

definition setCVarValueString ::
  "Platform \<Rightarrow> CVarManagerImpl \<Rightarrow> addr \<Rightarrow> string \<Rightarrow> string \<Rightarrow> uint32 \<Rightarrow>
   (CVarManagerImpl \<times> (RegistrationError + addr)) option" where
  "setCVarValueString P mgr newVar varName val varFlags =
     (case findCVar mgr varName of
        None \<Rightarrow> None
      | Some (Some a) \<Rightarrow> setExisting mgr a (\<lambda>cvar. cvarSetStringValue P cvar val)
      | Some None \<Rightarrow> registerCVarString P mgr newVar varName [] varFlags val None)"

text \<open>
  The setters used by the \<open>set\<close> and \<open>reset\<close> commands.  The argument is the entry
  (\<open>CFG_ASSERT(cvar != nullptr)\<close>); the result is the flag returned and the manager.
\<close>

definition internalSetStringValue ::
  "Platform \<Rightarrow> CVarManagerImpl \<Rightarrow> addr \<Rightarrow> string \<Rightarrow> (Outcome \<times> CVarManagerImpl) option" where
  "internalSetStringValue P mgr a val =
     (case cvars mgr a of
        None \<Rightarrow> None
      | Some cvar \<Rightarrow>
          (case (if \<not> cvarIsWritable cvar \<and> (allowWritingRomCVars mgr \<or> allowWritingInitCVars mgr)
                 then cvarSetStringValueIgnoreRO P cvar val
                        (allowWritingRomCVars mgr) (allowWritingInitCVars mgr)
                 else cvarSetStringValue P cvar val) of
             (r, cvar') \<Rightarrow> Some (r, mgr\<lparr>cvars := (cvars mgr)(a \<mapsto> cvar')\<rparr>)))"

definition internalSetDefaultValue ::
  "CVarManagerImpl \<Rightarrow> addr \<Rightarrow> (Outcome \<times> CVarManagerImpl) option" where
  "internalSetDefaultValue mgr a =
     (case cvars mgr a of
        None \<Rightarrow> None
      | Some cvar \<Rightarrow>
          (case (if \<not> cvarIsWritable cvar \<and> (allowWritingRomCVars mgr \<or> allowWritingInitCVars mgr)
                 then cvarSetDefaultValueIgnoreRO cvar
                        (allowWritingRomCVars mgr) (allowWritingInitCVars mgr)
                 else cvarSetDefaultValue cvar) of
             (r, cvar') \<Rightarrow> Some (r, mgr\<lparr>cvars := (cvars mgr)(a \<mapsto> cvar')\<rparr>)))"

definition setAllowWritingReadOnlyVars :: "CVarManagerImpl \<Rightarrow> bool \<Rightarrow> CVarManagerImpl" where
  "setAllowWritingReadOnlyVars mgr allow =
     mgr\<lparr>allowWritingRomCVars := allow, allowWritingInitCVars := allow\<rparr>"

definition setAllowWritingInitOnlyVars :: "CVarManagerImpl \<Rightarrow> bool \<Rightarrow> CVarManagerImpl" where
  "setAllowWritingInitOnlyVars mgr allow = mgr\<lparr>allowWritingInitCVars := allow\<rparr>"

section \<open>Range membership and example variables\<close>

text \<open>
  "Inside the declared range", for both numeric types.  On \<open>int64_t\<close> the comparison
  is signed; on \<open>double\<close> it is \<open>\<le>\<close>, which no NaN satisfies.
\<close>

definition inRangeInt :: "int64 CVarNumberRange \<Rightarrow> int64 \<Rightarrow> bool" where
  "inRangeInt r v = (minValue r \<le>s v \<and> v \<le>s maxValue r)"



text \<open>
  The variables of the specification's scenarios and of the repository's examples:
  \<open>fps\<close> (an integer in \<open>[1, 240]\<close>, currently 60), \<open>boot.mode\<close> (an init-only string),
  the README's \<open>fVar\<close> (a float in \<open>[-1, 1]\<close>) and the registration test's \<open>eVar\<close>
  (the enum of classic cars).
\<close>

definition fpsVar :: CVarInt where
  "fpsVar = newCVarImpl ''fps'' [] RangeCheck 60 \<lparr>minValue = 1, maxValue = 240\<rparr>"

definition bootModeVar :: CVarString where
  "bootModeVar = newCVarImpl ''boot.mode'' [] InitOnly ''cold'' \<lparr>strings = None\<rparr>"


definition classicCars :: CVarEnumConstList where
  "classicCars = mkCVarEnumConstList (Some [0, 1, 2, 3, 0])
                   (Some [''Camaro'', ''Mustang'', ''Maverick'', ''Barracuda''])"

definition eVar :: CVarEnum where
  "eVar = newCVarImpl ''eVar'' ''an enum'' RangeCheck \<lparr>constName = ''Mustang'', constValue = 1\<rparr>
            classicCars"

text \<open>
  The default table of boolean strings, and a platform for evaluating examples: its
  floating-point entries are placeholders that no example below reaches.
\<close>

definition defaultBoolStrings :: "(string \<times> string) list" where
  "defaultBoolStrings =
     [(''true'', ''false''), (''yes'', ''no''), (''on'', ''off''), (''1'', ''0'')]"

definition examplePlatform :: Platform where
  "examplePlatform =
     \<lparr>int64ToDouble = (\<lambda>i. DNum (real_of_int (sint i))), doubleToInt64 = (\<lambda>d. 0),
      strtod = (\<lambda>s. None), snprintf_g8 = (\<lambda>d. []), boolStrings = defaultBoolStrings\<rparr>"

text \<open>
  A manager created with a size hint of 7 buckets, in which \<open>fps\<close> and \<open>boot.mode\<close> are
  registered at the addresses 10 and 20.
\<close>

definition exampleManager :: CVarManagerImpl where
  "exampleManager =
     fst (the (registerCVarString examplePlatform
       (fst (the (registerCVarInt examplePlatform (newCVarManagerImpl 7) 10
                    ''fps'' [] RangeCheck 60 1 240)))
       20 ''boot.mode'' [] InitOnly ''cold'' None))"

text \<open>The two registrations, step by step: the manager after each of them.\<close>

definition manager1 :: CVarManagerImpl where
  "manager1 =
     \<lparr>registeredCVars = \<lparr>table = Some [Some 10, None, None, None, None, None, None],
                          listHead = Some 10, bucketCount = 7, usedBuckets = 1\<rparr>,
      links = (\<lambda>a. newLink)(10 := \<lparr>hashKey = 1188151419, hashNext = None, listNext = None\<rparr>),
      cvars = [10 \<mapsto> IntVar fpsVar],
      allowWritingRomCVars = False, allowWritingInitCVars = False\<rparr>"

definition manager2 :: CVarManagerImpl where
  "manager2 =
     \<lparr>registeredCVars = \<lparr>table = Some [Some 10, None, None, None, Some 20, None, None],
                          listHead = Some 20, bucketCount = 7, usedBuckets = 2\<rparr>,
      links = (\<lambda>a. newLink)
               (10 := \<lparr>hashKey = 1188151419, hashNext = None, listNext = None\<rparr>,
                20 := \<lparr>hashKey = 2713187054, hashNext = None, listNext = Some 10\<rparr>),
      cvars = [10 \<mapsto> IntVar fpsVar, 20 \<mapsto> StringVar bootModeVar],
      allowWritingRomCVars = False, allowWritingInitCVars = False\<rparr>"

text \<open>The manager after \<open>vsync\<close> is auto-registered at the address 30 as a boolean.\<close>

definition manager3 :: "uint32 \<Rightarrow> CVarManagerImpl" where
  "manager3 varFlags =
     \<lparr>registeredCVars = \<lparr>table = Some [Some 10, None, None, None, Some 20, Some 30, None],
                          listHead = Some 30, bucketCount = 7, usedBuckets = 3\<rparr>,
      links = (\<lambda>a. newLink)
               (10 := \<lparr>hashKey = 1188151419, hashNext = None, listNext = None\<rparr>,
                20 := \<lparr>hashKey = 2713187054, hashNext = None, listNext = Some 10\<rparr>,
                30 := \<lparr>hashKey = 1561187339, hashNext = None, listNext = Some 20\<rparr>),
      cvars = [10 \<mapsto> IntVar fpsVar, 20 \<mapsto> StringVar bootModeVar,
               30 \<mapsto> BoolVar (newCVarImpl ''vsync'' [] varFlags True \<lparr>minValue = False, maxValue = True\<rparr>)],
      allowWritingRomCVars = False, allowWritingInitCVars = False\<rparr>"




section \<open>The command pipeline\<close>

definition MaxCommandArgStrLength :: nat where "MaxCommandArgStrLength = 2048"
definition MaxReentrantCommands :: int where "MaxReentrantCommands = 999999"
definition CommandBufferSize :: nat where "CommandBufferSize = 65535"
definition CommandTextSeparator :: char where "CommandTextSeparator = CHR '';''"
definition ExecAll :: uint32 where "ExecAll = NOT 0"

subsection \<open>\<open>extractNextCommand\<close>\<close>

text \<open>
  A C string is modelled by the list of its characters before the terminating NUL, so
  \<open>*str == '\\0'\<close> reads \<open>str = []\<close> and \<open>++str\<close> is \<open>tl str\<close>.

  The locals of the parsing loop.  \<open>destBuf\<close> holds the characters copied so far, so
  \<open>charsCopied\<close> is its length.
\<close>

record ExtractState =
  destBuf :: string
  quoteCount :: int
  quoted :: bool
  singleQuote :: bool
  backslash :: bool
  doneFlag :: bool
  outOverflowed :: bool

definition initExtractState :: ExtractState where
  "initExtractState =
     \<lparr>destBuf = [], quoteCount = 0, quoted = False, singleQuote = False, backslash = False,
      doneFlag = False, outOverflowed = False\<rparr>"

text \<open>
  CVar substitution is a collaborator of the splitter.  \<open>expandCVar\<close> is given the text
  at the \<open>$\<close>, the destination so far and its size; it fails (\<open>None\<close>) or yields the
  number of characters up to the closing parenthesis it stops at, and the destination
  with the value copied in.
\<close>

type_synonym CVarExpander = "string \<Rightarrow> string \<Rightarrow> nat \<Rightarrow> (nat \<times> string) option"

text \<open>
  One pass of the loop body on the character \<open>chr\<close> for the branches that fall through
  to the end of the body (newline, quotes, separator, any other character).
\<close>

definition extractStep :: "ExtractState \<Rightarrow> char \<Rightarrow> ExtractState" where
  "extractStep st chr =
     (let st1 =
            (if chr = CHR 0x0A then st\<lparr>doneFlag := \<not> backslash st \<and> \<not> quoted st, backslash := False\<rparr>
             else if chr = CHR 0x22 then
               st\<lparr>quoteCount := quoteCount st + 1, quoted := odd (quoteCount st + 1)\<rparr>
             else if chr = CHR 0x27 then
               (if \<not> quoted st then
                  st\<lparr>quoteCount := quoteCount st + 1, quoted := odd (quoteCount st + 1),
                     singleQuote := True\<rparr>
                else if singleQuote st then
                  st\<lparr>quoteCount := quoteCount st + 1, quoted := odd (quoteCount st + 1),
                     singleQuote := False\<rparr>
                else st)
             else if chr = CommandTextSeparator then st\<lparr>doneFlag := \<not> quoted st\<rparr>
             else st);
          st2 = (if backslash st1 \<and> \<not> (chr = CHR '' '' \<or> chr = CHR 0x09)
                 then st1\<lparr>backslash := False\<rparr> else st1)
      in if \<not> doneFlag st2 then st2\<lparr>destBuf := destBuf st2 @ [chr]\<rparr> else st2)"

text \<open>
  The parsing loop.  When an expansion fails the rest of the broken command is skipped up
  to its terminator, and the \<open>++str\<close> of the loop then steps over that terminator.  When
  the text ends before a terminator, that step leaves \<open>str\<close> one past the terminating NUL
  in the sources; the model yields the empty rest there.
\<close>

function extractLoop ::
  "CVarExpander \<Rightarrow> nat \<Rightarrow> ExtractState \<Rightarrow> string \<Rightarrow> ExtractState \<times> string" where
  "extractLoop expandCVar destSizeInChars st str =
     (if doneFlag st \<or> str = [] \<or> \<not> length (destBuf st) < destSizeInChars then (st, str)
      else
        let chr = hd str in
        if chr = CHR 0x0D then extractLoop expandCVar destSizeInChars st (tl str)
        else if chr = CHR 0x5C then
          extractLoop expandCVar destSizeInChars (st\<lparr>backslash := True\<rparr>) (tl str)
        else if chr = CHR ''$'' \<and> take 1 (tl str) = ''('' then
          (case expandCVar str (destBuf st) destSizeInChars of
             None \<Rightarrow>
               extractLoop expandCVar destSizeInChars (st\<lparr>outOverflowed := True, doneFlag := True\<rparr>)
                 (drop 1 (dropWhile (\<lambda>c. c \<noteq> CHR 0x0A \<and> c \<noteq> CommandTextSeparator) str))
           | Some (k, dest') \<Rightarrow>
               extractLoop expandCVar destSizeInChars (st\<lparr>destBuf := dest'\<rparr>) (drop (Suc k) str))
        else extractLoop expandCVar destSizeInChars (extractStep st chr) (tl str))"
  by pat_completeness auto
termination
proof (relation "measure (\<lambda>(e, n, st, str). length str)")
  show "wf (measure (\<lambda>(e, n, st, str). length str))" by simp
next
  fix expandCVar :: CVarExpander and destSizeInChars st and str :: string and x
  assume "\<not> (doneFlag st \<or> str = [] \<or> \<not> length (destBuf st) < destSizeInChars)" "x = hd str"
    "\<not> x = CHR 0x0D" "\<not> x = CHR 0x5C"
    "x = CHR ''$'' \<and> take 1 (tl str) = ''(''"
    "expandCVar str (destBuf st) destSizeInChars = None"
  then have "str \<noteq> []" by simp
  moreover have "length (dropWhile (\<lambda>c. c \<noteq> CHR 0x0A \<and> c \<noteq> CommandTextSeparator) str) \<le> length str"
    by (rule length_dropWhile_le)
  ultimately show "((expandCVar, destSizeInChars, st\<lparr>outOverflowed := True, doneFlag := True\<rparr>,
          drop 1 (dropWhile (\<lambda>c. c \<noteq> CHR 0x0A \<and> c \<noteq> CommandTextSeparator) str)),
         expandCVar, destSizeInChars, st, str) \<in> measure (\<lambda>(e, n, st, str). length str)"
    by (cases str) (auto split: if_splits simp: le_imp_less_Suc)
qed (auto simp: neq_Nil_conv)

declare extractLoop.simps [simp del]

text \<open>
  \<open>extractNextCommand\<close>: the returned flag, the text left in \<open>destBuf\<close>, the value
  written to \<open>outOverflowed\<close>, and the text \<open>*outStr\<close> points to afterwards.
\<close>

definition extractNextCommand ::
  "CVarExpander \<Rightarrow> string \<Rightarrow> nat \<Rightarrow> bool \<times> string \<times> bool \<times> string" where
  "extractNextCommand expandCVar outStr destSizeInChars =
     (let str0 = dropWhile (\<lambda>c. isWhitespace c \<or> c = CommandTextSeparator) outStr;
          (st, str) = extractLoop expandCVar destSizeInChars initExtractState str0;
          st' = (if length (destBuf st) = destSizeInChars
                 then st\<lparr>destBuf := butlast (destBuf st), outOverflowed := True\<rparr> else st)
      in (length (destBuf st') > 0, destBuf st', outOverflowed st', str))"

subsection \<open>\<open>CommandArgs\<close>\<close>












subsection \<open>The command buffer\<close>

text \<open>
  \<open>cmdBuffer\<close> is the pending text (\<open>cmdBufferUsed\<close> is its length); \<open>userData\<close> stands
  for everything else a command handler can reach.
\<close>

record 'u CommandManagerImpl =
  cmdBuffer :: string
  userData :: 'u

definition execInsert :: "string \<Rightarrow> 'u CommandManagerImpl \<Rightarrow> 'u CommandManagerImpl" where
  "execInsert str m =
     (if str = [] then m
      else
        let strLen = length str + 1 in
        if length (cmdBuffer m) + strLen \<ge> CommandBufferSize then m
        else m\<lparr>cmdBuffer := str @ [CommandTextSeparator] @ cmdBuffer m\<rparr>)"

definition execAppend :: "string \<Rightarrow> 'u CommandManagerImpl \<Rightarrow> 'u CommandManagerImpl" where
  "execAppend str m =
     (if str = [] then m
      else
        let strLen = length str + 1 in
        if length (cmdBuffer m) + strLen \<ge> CommandBufferSize then m
        else m\<lparr>cmdBuffer := cmdBuffer m @ str @ [CommandTextSeparator]\<rparr>)"

definition clearBuffer :: "'u CommandManagerImpl \<Rightarrow> 'u CommandManagerImpl" where
  "clearBuffer m = m\<lparr>cmdBuffer := []\<rparr>"

text \<open>
  How the loop of \<open>execBufferedCommands\<close> was left, and the record of one dispatch:
  the command text handed to the handler and the buffer as the handler finds it.
\<close>

datatype ExitReason = NoMoreCommands | ExtractionOverflow | ReentrantLimit | MaxReached

type_synonym 'u CommandHandler = "string \<Rightarrow> 'u CommandManagerImpl \<Rightarrow> 'u CommandManagerImpl"

text \<open>
  The while loop.  \<open>execTokenized\<close> is the effect of tokenizing the extracted text and
  running its handler, which may call \<open>execInsert\<close> and \<open>execAppend\<close>.
\<close>

partial_function (option) execBufferedCommands_loop ::
  "CVarExpander \<Rightarrow> 'u CommandHandler \<Rightarrow> uint32 \<Rightarrow> int \<Rightarrow> (string \<times> string) list \<Rightarrow>
   'u CommandManagerImpl \<Rightarrow> (int \<times> ExitReason \<times> (string \<times> string) list \<times> 'u CommandManagerImpl) option"
where
  "execBufferedCommands_loop expandCVar execTokenized maxCommandsToExec commandsExecuted trace m =
     (case extractNextCommand expandCVar (cmdBuffer m) MaxCommandArgStrLength of
        (found, tempBuffer, overflowed, cmdBufferPtr) \<Rightarrow>
          if \<not> found then
            Some (commandsExecuted, NoMoreCommands, trace,
                  if cmdBufferPtr = [] then clearBuffer m else m)
          else if overflowed then
            Some (commandsExecuted, ExtractionOverflow, trace, clearBuffer m)
          else
            let m1 = m\<lparr>cmdBuffer := cmdBufferPtr\<rparr>;
                m2 = execTokenized tempBuffer m1;
                n = commandsExecuted + 1;
                trace' = trace @ [(tempBuffer, cmdBufferPtr)]
            in if n = MaxReentrantCommands then Some (n, ReentrantLimit, trace', clearBuffer m2)
               else if maxCommandsToExec \<noteq> ExecAll \<and> word_of_int n = maxCommandsToExec then
                 Some (n, MaxReached, trace', if cmdBuffer m2 = [] then clearBuffer m2 else m2)
               else execBufferedCommands_loop expandCVar execTokenized maxCommandsToExec n trace' m2)"

definition execBufferedCommands ::
  "CVarExpander \<Rightarrow> 'u CommandHandler \<Rightarrow> uint32 \<Rightarrow> 'u CommandManagerImpl \<Rightarrow>
   (int \<times> ExitReason \<times> (string \<times> string) list \<times> 'u CommandManagerImpl) option" where
  "execBufferedCommands expandCVar execTokenized maxCommandsToExec m =
     (if length (cmdBuffer m) = 0 \<or> maxCommandsToExec = 0 then Some (0, NoMoreCommands, [], m)
      else execBufferedCommands_loop expandCVar execTokenized maxCommandsToExec 0 [] m)"

subsection \<open>Example data for the command pipeline\<close>

text \<open>Without a CVar manager every expansion fails.\<close>

definition expandCVar_noManager :: CVarExpander where
  "expandCVar_noManager str dest destSizeInChars = None"


text \<open>Characters that end a command outside quotes, and texts made of plain characters only.\<close>

definition isTerminator :: "char \<Rightarrow> bool" where
  "isTerminator c = (c = CHR 0x0A \<or> c = CommandTextSeparator)"

definition isPlainChar :: "char \<Rightarrow> bool" where
  "isPlainChar c = (c \<noteq> CHR 0x0D \<and> c \<noteq> CHR 0x5C \<and> c \<noteq> CHR 0x22 \<and> c \<noteq> CHR 0x27 \<and> c \<noteq> CHR ''$'')"

definition skipLeading :: "string \<Rightarrow> string" where
  "skipLeading s = dropWhile (\<lambda>c. isWhitespace c \<or> c = CommandTextSeparator) s"

subsection \<open>Dispatching the first commands of the buffer, as the specification words it\<close>

text \<open>
  One command record taken off the front of the buffer: the command text and the buffer
  shifted left by the bytes consumed.
\<close>

definition nextCommand :: "CVarExpander \<Rightarrow> string \<Rightarrow> (string \<times> string) option" where
  "nextCommand expandCVar buf =
     (case extractNextCommand expandCVar buf MaxCommandArgStrLength of
        (found, cmd, overflowed, rest) \<Rightarrow> if found \<and> \<not> overflowed then Some (cmd, rest) else None)"

text \<open>
  \<open>dispatchN n\<close> dispatches exactly \<open>n\<close> commands in buffer order: each handler is run on
  the manager whose buffer has already lost the record of its own command, and the next
  record is taken from the buffer the handler leaves.  The result is the list of
  dispatches and the manager after the last of them.
\<close>

fun dispatchN ::
  "CVarExpander \<Rightarrow> 'u CommandHandler \<Rightarrow> nat \<Rightarrow> 'u CommandManagerImpl \<Rightarrow>
   ((string \<times> string) list \<times> 'u CommandManagerImpl) option" where
  "dispatchN expandCVar handler 0 m = Some ([], m)"
| "dispatchN expandCVar handler (Suc n) m =
     (case nextCommand expandCVar (cmdBuffer m) of
        None \<Rightarrow> None
      | Some (cmd, rest) \<Rightarrow>
          (case dispatchN expandCVar handler n (handler cmd (m\<lparr>cmdBuffer := rest\<rparr>)) of
             None \<Rightarrow> None
           | Some (tr, m') \<Rightarrow> Some ((cmd, rest) # tr, m')))"

text \<open>
  A command text made of plain characters that holds no terminator and does not start
  with whitespace.
\<close>

definition plainCommand :: "string \<Rightarrow> bool" where
  "plainCommand s =
     (s \<noteq> [] \<and> list_all (\<lambda>c. isPlainChar c \<and> \<not> isTerminator c) s \<and> \<not> isWhitespace (hd s))"

text \<open>A handler for the command \<open>a\<close> that appends the command \<open>c\<close>; other commands do nothing.\<close>

definition appendingHandler :: "unit CommandHandler" where
  "appendingHandler cmd m = (if cmd = ''a'' then execAppend ''c'' m else m)"

definition exampleBuffer :: "unit CommandManagerImpl" where
  "exampleBuffer = \<lparr>cmdBuffer = ''a;b;'', userData = ()\<rparr>"

subsection \<open>One command of a pending text, as the specification words it\<close>














section \<open>The invariant of the name index\<close>

text \<open>
  Bucket chains.  \<open>hseg H p as q\<close>: following \<open>hashNext\<close> from the pointer \<open>p\<close> visits
  exactly the entries \<open>as\<close> and arrives at \<open>q\<close>; \<open>hpath\<close> is a chain that ends in null.
  \<open>lseg\<close> and \<open>lpath\<close> are the same for \<open>listNext\<close>, the list of all entries.
\<close>

fun hseg :: "linkHeap \<Rightarrow> addr option \<Rightarrow> addr list \<Rightarrow> addr option \<Rightarrow> bool" where
  "hseg H p [] q = (p = q)"
| "hseg H p (a # as) q = (p = Some a \<and> hseg H (hashNext (H a)) as q)"

definition hpath :: "linkHeap \<Rightarrow> addr option \<Rightarrow> addr list \<Rightarrow> bool" where
  "hpath H p as = hseg H p as None"




definition chainsOk :: "linkHeap \<Rightarrow> LinkedHashTable \<Rightarrow> (addr \<rightharpoonup> string) \<Rightarrow> bool" where
  "chainsOk H T K =
     (case table T of
        None \<Rightarrow> dom K = {}
      | Some tbl \<Rightarrow>
          0 < bucketCount T \<and> length tbl = bucketCount T \<and>
          (\<forall>b<length tbl. \<exists>as. hpath H (tbl ! b) as \<and> distinct as \<and>
              set as = {a \<in> dom K. unat (hashKey (H a)) mod bucketCount T = b}))"




section \<open>The states of the CVar registry\<close>













section \<open>Name validation against the naming rule\<close>

lemma char_class_facts:
  "\<not> isLetter CHR ''.''" "\<not> isDigit CHR ''.''" "\<not> isLetter CHR ''_''" "\<not> isDigit CHR ''_''"
  "isLetter c \<Longrightarrow> \<not> isDigit c"
  by (auto simp: isLetter_def isDigit_def charInt_def split: if_splits)

lemma loop_agrees_without_underscore:
  "CHR ''_'' \<notin> set str \<Longrightarrow>
   isValidCVarName_loop str =
     (list_all (\<lambda>d. isLetter d \<or> isDigit d \<or> d = CHR ''_'' \<or> d = CHR ''.'') str \<and> dotsFollowed str)"
proof (induction str rule: isValidCVarName_loop.induct)
  case 1
  then show ?case by simp
next
  case (2 c rest)
  show ?case
  proof (cases rest)
    case Nil
    then show ?thesis using 2 by (auto simp: char_class_facts)
  next
    case (Cons c2 rest2)
    show ?thesis
    proof (cases "c = CHR ''.''")
      case True
      then show ?thesis using 2 Cons 
        by (cases rest2) (auto simp: char_class_facts)
    next
      case False
      then show ?thesis using 2 Cons by (auto simp: char_class_facts)
    qed
  qed
qed

lemma dotsFollowed_Cons: "c \<noteq> CHR ''.'' \<Longrightarrow> dotsFollowed (c # str) = dotsFollowed str"
  by (cases str) auto

lemma agrees_without_inner_underscore:
  "CHR ''_'' \<notin> set (tl str) \<Longrightarrow> isValidCVarName str = namingRule str"
proof (cases str)
  case Nil
  then show ?thesis by (simp add: isValidCVarName_def namingRule_def)
next
  case (Cons c rest)
  assume "CHR ''_'' \<notin> set (tl str)"
  then have u: "CHR ''_'' \<notin> set rest" using Cons by simp
  show ?thesis
  proof (cases "isLetter c \<or> c = CHR ''_''")
    case True
    then have "c \<noteq> CHR ''.''" using char_class_facts(1) by auto
    then show ?thesis using True Cons
      by (auto simp: isValidCVarName_def namingRule_def loop_agrees_without_underscore[OF u]
            dotsFollowed_Cons)
  next
    case False
    then show ?thesis using Cons by (simp add: isValidCVarName_def namingRule_def)
  qed
qed

text \<open>
  Claim C5: for every input string, \<open>isValidCVarName\<close> accepts it exactly when it
  satisfies the naming rule (first character a letter or underscore, later characters
  letters, digits, underscores or dots, every dot followed by a letter or underscore and
  never last).  The code and the rule agree on every name without an underscore after
  the first character (the lemma above), and differ after such an underscore: the code
  steps over the character that follows it without looking at what that character
  requires.  So \<open>a_.\<close> and \<open>a_.1\<close> are accepted although their dot ends the name or
  precedes a digit, and \<open>a_\<close> is rejected although the rule allows it.
\<close>

theorem isValidCVarName_at_underscore_dot:
  "isValidCVarName ''a_.'' \<and> \<not> namingRule ''a_.''
   \<and> isValidCVarName ''a_.1'' \<and> \<not> namingRule ''a_.1''
   \<and> \<not> isValidCVarName ''a_'' \<and> namingRule ''a_''"
  by (simp add: isValidCVarName_def namingRule_def isLetter_def isDigit_def charInt_def)


section \<open>Writes to CVars\<close>

lemmas flag_defs =
  Modified_def Persistent_def Volatile_def ReadOnly_def InitOnly_def RangeCheck_def UserDefined_def

lemma setter_flags_generic:
  "setIntValue fi cv i = (Success, cv1) \<Longrightarrow> flags cv1 = flags cv OR Modified"
  "setBoolValue fi cv b = (Success, cv2) \<Longrightarrow> flags cv2 = flags cv OR Modified"
  "setFloatValue fd cv d = (Success, cv3) \<Longrightarrow> flags cv3 = flags cv OR Modified"
  "setStringValue fs cv s = (Success, cv4) \<Longrightarrow> flags cv4 = flags cv OR Modified"
  "setDefaultValue cv = (Success, cv5) \<Longrightarrow> flags cv5 = flags cv OR Modified"
  by (auto simp: setIntValue_def setBoolValue_def setFloatValue_def setStringValue_def
        setDefaultValue_def setModified_def split: if_splits prod.splits Outcome.splits)

lemma setter_readonly_generic:
  assumes "\<not> isWritable cv"
  shows "setIntValue fi cv i = (Failure (Some ReadOnlyError), cv)"
    "setBoolValue fi cv b = (Failure (Some ReadOnlyError), cv)"
    "setFloatValue fd cv d = (Failure (Some ReadOnlyError), cv)"
    "setStringValue fs cv s = (Failure (Some ReadOnlyError), cv)"
    "setDefaultValue cv = (Failure (Some ReadOnlyError), cv)"
  using assms
  by (simp_all add: setIntValue_def setBoolValue_def setFloatValue_def setStringValue_def
        setDefaultValue_def)

lemma ignoreRO_flags_generic:
  "setStringValueIgnoreRO fs cv s r i = (res, cv1) \<Longrightarrow> flags cv1 = flags cv"
  "setDefaultValueIgnoreRO cv r i = (res, cv2) \<Longrightarrow> flags cv2 = flags cv"
  by (auto simp: setStringValueIgnoreRO_def setDefaultValueIgnoreRO_def
        split: if_splits prod.splits Outcome.splits)

lemma cvar_public_flags:
  "cvarSetIntValue P cvar i = (Success, c1) \<Longrightarrow> getFlags c1 = getFlags cvar OR Modified"
  "cvarSetBoolValue P cvar b = (Success, c2) \<Longrightarrow> getFlags c2 = getFlags cvar OR Modified"
  "cvarSetFloatValue P cvar d = (Success, c3) \<Longrightarrow> getFlags c3 = getFlags cvar OR Modified"
  "cvarSetStringValue P cvar s = (Success, c4) \<Longrightarrow> getFlags c4 = getFlags cvar OR Modified"
  "cvarSetDefaultValue cvar = (Success, c5) \<Longrightarrow> getFlags c5 = getFlags cvar OR Modified"
  by (cases cvar; auto simp: map_prod_def split: prod.splits dest: setter_flags_generic)+

lemma cvar_readonly:
  assumes "\<not> cvarIsWritable cvar"
  shows "cvarSetIntValue P cvar i = (Failure (Some ReadOnlyError), cvar)"
    "cvarSetBoolValue P cvar b = (Failure (Some ReadOnlyError), cvar)"
    "cvarSetFloatValue P cvar d = (Failure (Some ReadOnlyError), cvar)"
    "cvarSetStringValue P cvar s = (Failure (Some ReadOnlyError), cvar)"
    "cvarSetDefaultValue cvar = (Failure (Some ReadOnlyError), cvar)"
  using assms by (cases cvar; simp add: setter_readonly_generic)+

lemma cvar_ignoreRO_flags:
  "cvarSetStringValueIgnoreRO P cvar s r i = (res, c1) \<Longrightarrow> getFlags c1 = getFlags cvar"
  "cvarSetDefaultValueIgnoreRO cvar r i = (res, c2) \<Longrightarrow> getFlags c2 = getFlags cvar"
  by (cases cvar; auto simp: map_prod_def split: prod.splits dest: ignoreRO_flags_generic)+

lemma overload_atomic:
  "cvarSetInt64_int o1 i r1 f = (Failure e, v1) \<Longrightarrow> v1 = o1"
  "cvarSetInt64_bool o2 i r2 f = (Failure e, v2) \<Longrightarrow> v2 = o2"
  "cvarSetInt64_double P o3 i r3 f = (Failure e, v3) \<Longrightarrow> v3 = o3"
  "cvarSetInt64_string o4 i r4 f = (Failure e, v4) \<Longrightarrow> v4 = o4"
  "cvarSetInt64_enum o5 i r5 f = (Failure e, v5) \<Longrightarrow> v5 = o5"
  "cvarSetDouble_int P o1 d r1 = (Failure e, v1) \<Longrightarrow> v1 = o1"
  "cvarSetDouble_bool o2 d r2 = (Failure e, v2) \<Longrightarrow> v2 = o2"
  "cvarSetDouble_double o3 d r3 = (Failure e, v3) \<Longrightarrow> v3 = o3"
  "cvarSetDouble_string P o4 d r4 = (Failure e, v4) \<Longrightarrow> v4 = o4"
  "cvarSetDouble_enum P o5 d r5 = (Failure e, v5) \<Longrightarrow> v5 = o5"
  "cvarSetString_int o1 s r1 = (Failure e, v1) \<Longrightarrow> v1 = o1"
  "cvarSetString_bool P o2 s r2 = (Failure e, v2) \<Longrightarrow> v2 = o2"
  "cvarSetString_double P o3 s r3 = (Failure e, v3) \<Longrightarrow> v3 = o3"
  "cvarSetString_string o4 s r4 = (Failure e, v4) \<Longrightarrow> v4 = o4"
  "cvarSetString_enum o5 s r5 = (Failure e, v5) \<Longrightarrow> v5 = o5"
  by (auto simp: cvarSetInt64_int_def cvarSetInt64_bool_def cvarSetInt64_double_def
        cvarSetInt64_string_def cvarSetInt64_enum_def cvarSetDouble_int_def cvarSetDouble_bool_def
        cvarSetDouble_double_def cvarSetDouble_string_def cvarSetDouble_enum_def
        cvarSetString_int_def cvarSetString_bool_def cvarSetString_double_def
        cvarSetString_string_def cvarSetString_enum_def
        split: option.splits if_splits prod.splits Outcome.splits)

lemma generic_atomic:
  "(\<And>o' i r f e v. fi o' i r f = (Failure e, v) \<Longrightarrow> v = o') \<Longrightarrow>
     setIntValue fi cv i = (Failure e, cv1) \<Longrightarrow> cv1 = cv"
  "(\<And>o' i r f e v. fi o' i r f = (Failure e, v) \<Longrightarrow> v = o') \<Longrightarrow>
     setBoolValue fi cv b = (Failure e, cv2) \<Longrightarrow> cv2 = cv"
  "(\<And>o' d r e v. fd o' d r = (Failure e, v) \<Longrightarrow> v = o') \<Longrightarrow>
     setFloatValue fd cv d = (Failure e, cv3) \<Longrightarrow> cv3 = cv"
  "(\<And>o' s r e v. fs o' s r = (Failure e, v) \<Longrightarrow> v = o') \<Longrightarrow>
     setStringValue fs cv s = (Failure e, cv4) \<Longrightarrow> cv4 = cv"
  by (auto simp: setIntValue_def setBoolValue_def setFloatValue_def setStringValue_def
        split: if_splits prod.splits Outcome.splits)

lemma cvar_atomic:
  "cvarSetIntValue P cvar i = (Failure e, c1) \<Longrightarrow> c1 = cvar"
  "cvarSetBoolValue P cvar b = (Failure e, c2) \<Longrightarrow> c2 = cvar"
  "cvarSetFloatValue P cvar d = (Failure e, c3) \<Longrightarrow> c3 = cvar"
  "cvarSetStringValue P cvar s = (Failure e, c4) \<Longrightarrow> c4 = cvar"
  "cvarSetDefaultValue cvar = (Failure e, c5) \<Longrightarrow> c5 = cvar"
proof -
  show "cvarSetIntValue P cvar i = (Failure e, c1) \<Longrightarrow> c1 = cvar"
    by (cases cvar; clarsimp simp: map_prod_def split: prod.splits)
       (erule generic_atomic(1)[rotated], erule overload_atomic)+
  show "cvarSetBoolValue P cvar b = (Failure e, c2) \<Longrightarrow> c2 = cvar"
    by (cases cvar; clarsimp simp: map_prod_def split: prod.splits)
       (erule generic_atomic(2)[rotated], erule overload_atomic)+
  show "cvarSetFloatValue P cvar d = (Failure e, c3) \<Longrightarrow> c3 = cvar"
    by (cases cvar; clarsimp simp: map_prod_def split: prod.splits)
       (erule generic_atomic(3)[rotated], erule overload_atomic)+
  show "cvarSetStringValue P cvar s = (Failure e, c4) \<Longrightarrow> c4 = cvar"
    by (cases cvar; clarsimp simp: map_prod_def split: prod.splits)
       (erule generic_atomic(4)[rotated], erule overload_atomic)+
  show "cvarSetDefaultValue cvar = (Failure e, c5) \<Longrightarrow> c5 = cvar"
    by (cases cvar; auto simp: map_prod_def setDefaultValue_def split: prod.splits if_splits)
qed


section \<open>Integers to strings and back\<close>

lemma digitValue_digitChar: "d < 16 \<Longrightarrow> digitValue (digitChar d) = Some d"
  by (auto simp: digitValue_def digitChar_def Let_def)

lemma isDigitOfBase_digitChar: "d < b \<Longrightarrow> b \<le> 16 \<Longrightarrow> isDigitOfBase b (digitChar d)"
  by (simp add: isDigitOfBase_def digitValue_digitChar)

lemma digitChar_zero_iff: "d < 16 \<Longrightarrow> digitChar d = CHR ''0'' \<longleftrightarrow> d = 0"
proof
  assume "d < 16" "digitChar d = CHR ''0''"
  then have "digitValue (digitChar d) = digitValue CHR ''0''" by simp
  with \<open>d < 16\<close> show "d = 0" by (simp add: digitValue_digitChar) (simp add: digitValue_def)
next
  assume "d = 0" then show "digitChar d = CHR ''0''" by (simp add: digitChar_def) code_simp
qed

lemma digitsValue_rev: "digitsValue b (rev ds) = valLSB b ds"
  by (simp add: digitsValue_def valLSB_def foldr_conv_foldl)

lemma unat_div_base: "2 \<le> b \<Longrightarrow> b \<le> 16 \<Longrightarrow> unat ((n :: uint64) div of_nat b) = unat n div b"
  by (simp add: unat_div unat_of_nat)

lemma loop_props:
  "2 \<le> b \<Longrightarrow> b \<le> 16 \<Longrightarrow> unat n < 2 ^ k \<Longrightarrow> 0 < k \<Longrightarrow> len + int k < sz \<Longrightarrow>
   (case intToString_loop n b len sz of (ds, l) \<Rightarrow>
      l \<le> len + int k \<and> valLSB b ds = unat n \<and> list_all (isDigitOfBase b) ds \<and> ds \<noteq> []
      \<and> (n \<noteq> 0 \<longrightarrow> last ds \<noteq> CHR ''0''))"
proof (induction n b len sz arbitrary: k rule: intToString_loop.induct)
  case (1 number numBase len destSizeInChars)
  let ?d = "unat number mod numBase"
  let ?n' = "number div of_nat numBase"
  have d: "?d < numBase" "?d < 16" using 1(2,3) by (auto intro: less_le_trans[OF mod_less_divisor])
  have un': "unat ?n' = unat number div numBase" using 1(2,3) by (rule unat_div_base)
  have dv: "digitValue (digitChar ?d) = Some ?d" using d by (simp add: digitValue_digitChar)
  have dok: "isDigitOfBase numBase (digitChar ?d)" using d 1(3) by (simp add: isDigitOfBase_digitChar)
  show ?case
  proof (cases "?n' \<noteq> 0 \<and> len + 1 < destSizeInChars")
    case True
    then have nz: "unat ?n' \<noteq> 0" by (simp add: unat_eq_0)
    have k2: "2 \<le> k"
    proof (rule ccontr)
      assume "\<not> 2 \<le> k" with 1(5) have "k = 1" by simp
      with 1(4) have "unat number < 2" by simp
      with 1(2) have "unat number div numBase = 0" by simp
      with nz un' show False by simp
    qed
    have "unat number div numBase \<le> unat number div 2" using 1(2) by (simp add: div_le_mono2)
    also have "\<dots> < 2 ^ (k - 1)"
    proof -
      obtain k' where k': "k = Suc k'" using k2 by (cases k) auto
      with 1(4) have "unat number < 2 * 2 ^ k'" by simp
      then have "unat number div 2 < 2 ^ k'" by simp
      then show ?thesis using k' by simp
    qed
    finally have b': "unat ?n' < 2 ^ (k - 1)" using un' by simp
    have "(len + 1) + int (k - 1) < destSizeInChars" using 1(6) k2 by simp
    from 1(1)[OF refl refl refl True 1(2) 1(3) b' _ this] k2
    have IH: "case intToString_loop ?n' numBase (len + 1) destSizeInChars of (ds, l) \<Rightarrow>
      l \<le> len + 1 + int (k - 1) \<and> valLSB numBase ds = unat ?n' \<and> list_all (isDigitOfBase numBase) ds \<and> ds \<noteq> []
      \<and> (?n' \<noteq> 0 \<longrightarrow> last ds \<noteq> CHR ''0'')" by simp
    obtain ds l where r: "intToString_loop ?n' numBase (len + 1) destSizeInChars = (ds, l)" by fastforce
    have res: "intToString_loop number numBase len destSizeInChars = (digitChar ?d # ds, l)"
      using True r by (subst intToString_loop.simps) (simp add: Let_def)
    from IH r have ih: "l \<le> len + 1 + int (k - 1)" "valLSB numBase ds = unat ?n'"
      "list_all (isDigitOfBase numBase) ds" "ds \<noteq> []" "last ds \<noteq> CHR ''0''" using True by auto
    have "valLSB numBase (digitChar ?d # ds) = unat ?n' * numBase + ?d"
      using ih(2) dv by (simp add: valLSB_def)
    also have "\<dots> = unat number" using un' by simp
    finally have v: "valLSB numBase (digitChar ?d # ds) = unat number" .
    show ?thesis using res ih v dok k2 by auto
  next
    case False
    have res: "intToString_loop number numBase len destSizeInChars = ([digitChar ?d], len + 1)"
      using False by (subst intToString_loop.simps) (auto simp: Let_def)
    have "len + 1 < destSizeInChars" using 1(5,6) by simp
    with False have "?n' = 0" by simp
    then have "unat number div numBase = 0" using un' by simp
    then have small: "unat number < numBase" using 1(2) by (simp add: div_eq_0_iff)
    then have v: "valLSB numBase [digitChar ?d] = unat number" using dv by (simp add: valLSB_def)
    have "number \<noteq> 0 \<longrightarrow> digitChar ?d \<noteq> CHR ''0''"
      using small d by (auto simp: digitChar_zero_iff unat_eq_0)
    then show ?thesis using res v dok 1(5) by auto
  qed
qed

lemma take_bit_uint64: "take_bit 64 (uint (w::int64)) = uint w"
  using uint_lt2p[of w] by (simp add: take_bit_int_eq_self_iff)

lemma sint_int64_cases: "sint (w :: int64) = (if sint w < 0 then uint w - 2 ^ 64 else uint w)"
proof -
  have "sint w = take_bit 64 (uint w) - 2 ^ 64 * of_bool (bit (uint w) 63)"
    by (simp add: sint_uint signed_take_bit_eq_take_bit_minus)
  moreover have "bit (uint w) 63 \<longleftrightarrow> sint w < 0"
    by (simp add: sint_uint)
  ultimately show ?thesis by (cases "sint w < 0") (simp_all add: take_bit_uint64)
qed

lemma clamp_sint: "clampInt64 (sint w) = w"
  using sint_ge[of w] sint_lt[of w] by (simp add: clampInt64_def)

lemma nonneg_unat: "\<not> (val :: int64) <s 0 \<Longrightarrow> int (unat val) = sint val"
proof -
  assume "\<not> val <s 0"
  then have "0 \<le> sint val" by (simp add: word_sless_alt)
  then have "sint val = uint val" using sint_int64_cases[of val] by simp
  then show ?thesis by simp
qed

lemma neg_unat: "(val :: int64) <s 0 \<Longrightarrow> - int (unat (- val)) = sint val \<and> - val \<noteq> 0"
proof -
  assume a: "val <s 0"
  then have s: "sint val < 0" by (simp add: word_sless_alt)
  have nz: "val \<noteq> 0" using s by auto
  have sv: "sint val = uint val - 2 ^ 64" using s sint_int64_cases[of val] by simp
  have pos: "0 < uint val" using sv s sint_ge[of val] by simp
  have lt: "uint val < 2 ^ 64" using uint_lt2p[of val] by simp
  have "uint (- val) = (- uint val) mod 2 ^ 64" by (simp add: uint_word_ariths)
  also have "\<dots> = (2 ^ 64 - uint val) mod 2 ^ 64" by (metis mod_add_self1 uminus_add_conv_diff add.commute)
  also have "\<dots> = 2 ^ 64 - uint val" using pos lt by (intro mod_pos_pos_trivial) auto
  finally have "uint (- val) = 2 ^ 64 - uint val" .
  then have "- int (unat (- val)) = sint val" using sv by simp
  then show ?thesis using nz by simp
qed

lemma digit_not_space: "isDigitOfBase b c \<Longrightarrow> \<not> isspaceC c"
  by (auto simp: isDigitOfBase_def digitValue_def isspaceC_def Let_def split: if_splits option.splits)

lemma digit_not_sign: "isDigitOfBase b c \<Longrightarrow> c \<noteq> CHR ''-'' \<and> c \<noteq> CHR ''+''"
  by (auto simp: isDigitOfBase_def digitValue_def Let_def split: if_splits option.splits)

lemma digit10_not_x: "isDigitOfBase 10 c \<Longrightarrow> c \<noteq> CHR ''x'' \<and> c \<noteq> CHR ''X''"
  by (auto simp: isDigitOfBase_def digitValue_def Let_def split: if_splits option.splits)

lemma strtoll_base_dec:
  "s \<noteq> [] \<Longrightarrow> hd s \<noteq> CHR ''0'' \<Longrightarrow> strtoll_base s = (10, s)"
  by (cases s rule: strtoll_base.cases) auto

lemma strtoll_base_hex:
  "isDigitOfBase 16 h \<Longrightarrow> strtoll_base (CHR ''0'' # CHR ''x'' # h # r) = (16, h # r)"
  by simp


lemma strtoll0_parts:
  "dropWhile isspaceC s = s1 \<Longrightarrow> strtoll_sign s1 = (neg, s2) \<Longrightarrow> strtoll_base s2 = (b, s3) \<Longrightarrow>
   takeWhile (isDigitOfBase b) s3 = ds \<Longrightarrow> ds \<noteq> [] \<Longrightarrow>
   strtoll0 s = Some (clampInt64 (if neg then - int (digitsValue b ds) else int (digitsValue b ds)))"
  by (simp add: strtoll0_def)

lemma takeWhile_all: "list_all P xs \<Longrightarrow> takeWhile P xs = xs"
  by (simp add: list_all_iff)

lemma strtoll0_digits:
  assumes "ds \<noteq> []" "list_all (isDigitOfBase 10) ds" "hd ds \<noteq> CHR ''0''"
  shows "strtoll0 ds = Some (clampInt64 (int (digitsValue 10 ds)))"
proof -
  obtain c r where ds: "ds = c # r" using assms(1) by (cases ds) auto
  have c: "isDigitOfBase 10 c" using assms(2) ds by simp
  have dw: "dropWhile isspaceC ds = ds" using ds digit_not_space[OF c] by simp
  have sg: "strtoll_sign ds = (False, ds)" using ds digit_not_sign[OF c] by simp
  have bs: "strtoll_base ds = (10, ds)" using assms(1,3) by (rule strtoll_base_dec)
  show ?thesis
    using strtoll0_parts[OF dw sg bs takeWhile_all[OF assms(2)] assms(1)] by simp
qed

lemma strtoll0_minus_digits:
  assumes "ds \<noteq> []" "list_all (isDigitOfBase 10) ds" "hd ds \<noteq> CHR ''0''"
  shows "strtoll0 (CHR ''-'' # ds) = Some (clampInt64 (- int (digitsValue 10 ds)))"
proof -
  have dw: "dropWhile isspaceC (CHR ''-'' # ds) = CHR ''-'' # ds" by (simp add: isspaceC_def)
  have sg: "strtoll_sign (CHR ''-'' # ds) = (True, ds)" by simp
  have bs: "strtoll_base ds = (10, ds)" using assms(1,3) by (rule strtoll_base_dec)
  show ?thesis
    using strtoll0_parts[OF dw sg bs takeWhile_all[OF assms(2)] assms(1)] by simp
qed

lemma strtoll0_hex:
  assumes "ds \<noteq> []" "list_all (isDigitOfBase 16) ds"
  shows "strtoll0 (CHR ''0'' # CHR ''x'' # ds) = Some (clampInt64 (int (digitsValue 16 ds)))"
proof -
  obtain h r where ds: "ds = h # r" using assms(1) by (cases ds) auto
  have h: "isDigitOfBase 16 h" using assms(2) ds by simp
  have dw: "dropWhile isspaceC (CHR ''0'' # CHR ''x'' # ds) = CHR ''0'' # CHR ''x'' # ds"
    by (simp add: isspaceC_def)
  have sg: "strtoll_sign (CHR ''0'' # CHR ''x'' # ds) = (False, CHR ''0'' # CHR ''x'' # ds)" by simp
  have bs: "strtoll_base (CHR ''0'' # CHR ''x'' # ds) = (16, ds)" unfolding ds using h by simp
  show ?thesis
    using strtoll0_parts[OF dw sg bs takeWhile_all[OF assms(2)] assms(1)] by simp
qed

lemma loop64:
  assumes "2 \<le> b" "b \<le> 16" "len \<le> 2"
  obtains ds l where "intToString_loop n b len 128 = (ds, l)" "l < 128" "valLSB b ds = unat n"
    "list_all (isDigitOfBase b) ds" "ds \<noteq> []" "n \<noteq> 0 \<longrightarrow> last ds \<noteq> CHR ''0''"
proof -
  obtain ds l where r: "intToString_loop n b len 128 = (ds, l)" by fastforce
  have "unat n < 2 ^ LENGTH(64)" by (rule unsigned_less)
  then have "unat n < 2 ^ 64" by simp
  from loop_props[OF assms(1,2) this, of len 128] assms(3) r
  have "l \<le> len + 64" "valLSB b ds = unat n" "list_all (isDigitOfBase b) ds" "ds \<noteq> []"
    "n \<noteq> 0 \<longrightarrow> last ds \<noteq> CHR ''0''" by auto
  with r assms(3) show ?thesis by (intro that[of ds l]) auto
qed

lemma roundtrip_hex:
  assumes "\<not> val <s 0"
  shows "cvarToInt64_str (cvarToString_int val Hexadecimal) = (val, True)"
proof -
  obtain ds l where r: "intToString_loop val 16 2 128 = (ds, l)" "l < 128" "valLSB 16 ds = unat val"
    "list_all (isDigitOfBase 16) ds" "ds \<noteq> []"
    by (rule loop64[of 16 2 val]) auto
  have str: "cvarToString_int val Hexadecimal = CHR ''0'' # CHR ''x'' # rev ds"
    using r(1,2) by (simp add: cvarToString_int_def intToString_def numberBase_def CVarTempStrMaxSize_def)
  have "strtoll0 (CHR ''0'' # CHR ''x'' # rev ds) = Some (clampInt64 (int (digitsValue 16 (rev ds))))"
    using r(4,5) by (intro strtoll0_hex) (simp_all add: list_all_iff)
  also have "clampInt64 (int (digitsValue 16 (rev ds))) = val"
    using r(3) nonneg_unat[OF assms] by (simp add: digitsValue_rev clamp_sint)
  finally show ?thesis by (simp add: str cvarToInt64_str_def)
qed

lemma roundtrip_dec_zero: "cvarToInt64_str (cvarToString_int 0 Decimal) = (0, True)"
  by code_simp

lemma roundtrip_dec_nonneg:
  assumes "\<not> val <s 0"
  shows "cvarToInt64_str (cvarToString_int val Decimal) = (val, True)"
proof (cases "val = 0")
  case True
  then show ?thesis by (simp add: roundtrip_dec_zero)
next
  case False
  obtain ds l where r: "intToString_loop val 10 0 128 = (ds, l)" "l < 128" "valLSB 10 ds = unat val"
    "list_all (isDigitOfBase 10) ds" "ds \<noteq> []" "val \<noteq> 0 \<longrightarrow> last ds \<noteq> CHR ''0''"
    by (rule loop64[of 10 0 val]) auto
  have str: "cvarToString_int val Decimal = rev ds"
    using r(1,2) assms by (simp add: cvarToString_int_def intToString_def numberBase_def CVarTempStrMaxSize_def)
  have "strtoll0 (rev ds) = Some (clampInt64 (int (digitsValue 10 (rev ds))))"
    using r(4,5,6) False by (intro strtoll0_digits) (simp_all add: list_all_iff hd_rev)
  also have "clampInt64 (int (digitsValue 10 (rev ds))) = val"
    using r(3) nonneg_unat[OF assms] by (simp add: digitsValue_rev clamp_sint)
  finally show ?thesis by (simp add: str cvarToInt64_str_def)
qed

lemma roundtrip_dec_neg:
  assumes "val <s 0"
  shows "cvarToInt64_str (cvarToString_int val Decimal) = (val, True)"
proof -
  have nz: "- val \<noteq> 0" and mag: "- int (unat (- val)) = sint val" using neg_unat[OF assms] by auto
  obtain ds l where r: "intToString_loop (- val) 10 1 128 = (ds, l)" "l < 128" "valLSB 10 ds = unat (- val)"
    "list_all (isDigitOfBase 10) ds" "ds \<noteq> []" "- val \<noteq> 0 \<longrightarrow> last ds \<noteq> CHR ''0''"
    by (rule loop64[of 10 1 "- val"]) auto
  have str: "cvarToString_int val Decimal = CHR ''-'' # rev ds"
    using r(1,2) assms by (simp add: cvarToString_int_def intToString_def numberBase_def CVarTempStrMaxSize_def)
  have "strtoll0 (CHR ''-'' # rev ds) = Some (clampInt64 (- int (digitsValue 10 (rev ds))))"
    using r(4,5,6) nz by (intro strtoll0_minus_digits) (simp_all add: list_all_iff hd_rev)
  also have "clampInt64 (- int (digitsValue 10 (rev ds))) = val"
    using r(3) mag by (simp add: digitsValue_rev clamp_sint)
  finally show ?thesis by (simp add: str cvarToInt64_str_def)
qed

lemma small_word_cases:
  assumes "\<not> (val :: int64) <s 0" "val <s 8"
  shows "val \<in> {0, 1, 2, 3, 4, 5, 6, 7}"
proof -
  have "0 \<le> sint val" "sint val < 8" using assms by (simp_all add: word_sless_alt)
  then have "sint val \<in> {0, 1, 2, 3, 4, 5, 6, 7}" by auto
  then have "word_of_int (sint val) \<in> ((word_of_int ` {0, 1, 2, 3, 4, 5, 6, 7}) :: int64 set)" by blast
  then show ?thesis by simp
qed

lemma roundtrip_oct_small:
  assumes "\<not> val <s 0" "val <s 8"
  shows "cvarToInt64_str (cvarToString_int val Octal) = (val, True)"
  using small_word_cases[OF assms] by (elim insertE emptyE; hypsubst; code_simp)

lemma roundtrip_bin_small:
  assumes "\<not> val <s 0" "val <s 2"
  shows "cvarToInt64_str (cvarToString_int val Binary) = (val, True)"
proof -
  have "sint val < 2" using assms(2) by (simp add: word_sless_alt)
  then have "val <s 8" by (simp add: word_sless_alt)
  from small_word_cases[OF assms(1) this] assms(2)
  have "val = 0 \<or> val = 1" by (auto simp: word_sless_alt)
  then show ?thesis by (elim disjE; hypsubst; code_simp)
qed

lemma not_sless_iff: "(\<not> (a::int64) <s b) = (b \<le>s a)"
  by (auto simp: word_sless_alt word_sle_eq)

lemma digit_lt: "isDigitOfBase b c \<Longrightarrow> the (digitValue c) < b"
  by (auto simp: isDigitOfBase_def split: option.splits)

lemma isDigitOfBase_mono: "isDigitOfBase b c \<Longrightarrow> b \<le> b' \<Longrightarrow> isDigitOfBase b' c"
  by (auto simp: isDigitOfBase_def split: option.splits)

lemma valLSB_Cons: "valLSB b (c # ds) = valLSB b ds * b + the (digitValue c)"
  by (simp add: valLSB_def)

lemma valLSB_mono: "b \<le> 10 \<Longrightarrow> valLSB b ds \<le> valLSB 10 ds"
proof (induction ds)
  case Nil
  then show ?case by (simp add: valLSB_def)
next
  case (Cons c ds)
  then have "valLSB b ds * b \<le> valLSB 10 ds * 10" by (intro mult_mono) simp_all
  then show ?case by (simp add: valLSB_Cons)
qed

lemma valLSB_strict:
  assumes "b < 10" "ds \<noteq> []" "list_all (isDigitOfBase b) ds" "b \<le> valLSB b ds"
  shows "valLSB b ds < valLSB 10 ds"
proof -
  obtain c r where ds: "ds = c # r" using assms(2) by (cases ds) auto
  have d: "the (digitValue c) < b" using assms(3) ds by (simp add: digit_lt)
  have "0 < valLSB b r"
  proof (rule ccontr)
    assume "\<not> 0 < valLSB b r"
    then show False using assms(4) d by (simp add: ds valLSB_Cons)
  qed
  then have "valLSB b r * b < valLSB b r * 10" using assms(1) by simp
  also have "\<dots> \<le> valLSB 10 r * 10" using valLSB_mono[of b r] assms(1) by simp
  finally show ?thesis by (simp add: ds valLSB_Cons)
qed

lemma l64: "LENGTH(64) = 64" by simp
lemma uint_word_of_int64: "0 \<le> a \<Longrightarrow> a < 2 ^ 64 \<Longrightarrow> uint (word_of_int a :: 64 word) = a"
proof -
  assume a: "0 \<le> a" "a < 2 ^ 64"
  have "uint (word_of_int a :: 64 word) = a mod 2 ^ LENGTH(64)" by (rule uint_word_of_int)
  also have "\<dots> = a" unfolding l64 using a by (rule mod_pos_pos_trivial)
  finally show ?thesis .
qed
lemma word_of_int_inj64:
  "0 \<le> a \<Longrightarrow> a < 2 ^ 64 \<Longrightarrow> 0 \<le> b \<Longrightarrow> b < 2 ^ 64 \<Longrightarrow>
   (word_of_int a :: 64 word) = word_of_int b \<Longrightarrow> a = b"
  by (metis uint_word_of_int64)

lemma clamp_above:
  assumes nn: "\<not> (val :: int64) <s 0" and gt: "int (unat val) < V"
  shows "(clampInt64 V = val) = (val = INT64_MAX)"
proof -
  have sv: "int (unat val) = sint val" using nn by (rule nonneg_unat)
  have ub: "sint val \<le> 2 ^ 63 - 1" using sint_lt[of val] by simp
  have lb: "0 \<le> sint val" using sv by (metis of_nat_0_le_iff)
  have v: "val = word_of_int (sint val)" by simp
  have s64: "sint val < 2 ^ 64" using ub by simp
  have m64: "(2 ^ 63 - 1 :: int) < 2 ^ 64" "(0::int) \<le> 2 ^ 63 - 1" by simp_all
  have vpos: "0 \<le> V" using gt by linarith
  show ?thesis
  proof (cases "V > 2 ^ 63 - 1")
    case True
    then have c: "clampInt64 V = word_of_int (2 ^ 63 - 1)" unfolding clampInt64_def by simp
    show ?thesis unfolding c INT64_MAX_def by (rule eq_commute)
  next
    case False
    then have c: "clampInt64 V = word_of_int V" using vpos unfolding clampInt64_def by simp
    have "V \<noteq> sint val" using gt sv by simp
    moreover have "0 \<le> V" "V < 2 ^ 64" using vpos False by simp_all
    ultimately have "(word_of_int V :: int64) \<noteq> word_of_int (sint val)"
      using lb s64 word_of_int_inj64[of V "sint val"] by blast
    then have ne: "clampInt64 V \<noteq> val" using c by simp
    have lt: "sint val \<noteq> 2 ^ 63 - 1" using gt sv False by simp
    have "val \<noteq> INT64_MAX"
    proof
      assume "val = INT64_MAX"
      then have "(word_of_int (sint val) :: int64) = word_of_int (2 ^ 63 - 1)"
        unfolding INT64_MAX_def by simp
      then have "sint val = 2 ^ 63 - 1"
        using lb s64 m64 word_of_int_inj64[of "sint val" "2 ^ 63 - 1"] by blast
      then show False using lt by simp
    qed
    then show ?thesis using ne by simp
  qed
qed

lemma roundtrip_unprefixed_large:
  assumes nn: "\<not> val <s 0" and b: "b = 2 \<or> b = 8" and fmt: "numberBase fmt = b"
    and big: "b \<le> unat val"
  shows "(cvarToInt64_str (cvarToString_int val fmt) = (val, True)) = (val = INT64_MAX)"
proof -
  have b2: "2 \<le> b" "b \<le> 16" "b < 10" using b by auto
  obtain ds l where r: "intToString_loop val b 0 128 = (ds, l)" "l < 128" "valLSB b ds = unat val"
    "list_all (isDigitOfBase b) ds" "ds \<noteq> []" "val \<noteq> 0 \<longrightarrow> last ds \<noteq> CHR ''0''"
    by (rule loop64[of b 0 val]) (use b2 in auto)
  have str: "cvarToString_int val fmt = rev ds"
    using r(1,2) b fmt nn
    by (auto simp add: cvarToString_int_def intToString_def CVarTempStrMaxSize_def)
  have nz: "val \<noteq> 0" using big b by auto
  have hd: "hd (rev ds) \<noteq> CHR ''0''" using r(5,6) nz by (simp add: hd_rev)
  have d10: "list_all (isDigitOfBase 10) (rev ds)"
    using r(4) b2 by (auto simp add: list_all_iff intro: isDigitOfBase_mono)
  have "strtoll0 (rev ds) = Some (clampInt64 (int (digitsValue 10 (rev ds))))"
    using r(5) d10 hd by (intro strtoll0_digits) simp_all
  then have res: "cvarToInt64_str (rev ds) = (clampInt64 (int (valLSB 10 ds)), True)"
    by (simp add: cvarToInt64_str_def digitsValue_rev)
  have "valLSB b ds < valLSB 10 ds"
    using b2(3) r(5) r(4) big r(3) by (intro valLSB_strict) simp_all
  then have "unat val < valLSB 10 ds" using r(3) by simp
  then have "int (unat val) < int (valLSB 10 ds)" by (rule iffD2[OF of_nat_less_iff])
  from clamp_above[OF nn this] show ?thesis by (simp add: str res)
qed

lemma roundtrip_unprefixed:
  assumes nn: "0 \<le>s val" and fmt: "fmt = Binary \<or> fmt = Octal"
  shows "(cvarToInt64_str (cvarToString_int val fmt) = (val, True))
         = (unat val < numberBase fmt \<or> val = INT64_MAX)"
proof -
  have n0: "\<not> val <s 0" using nn by (simp add: not_sless_iff)
  have b: "numberBase fmt = 2 \<or> numberBase fmt = 8" using fmt by (auto simp add: numberBase_def)
  show ?thesis
  proof (cases "unat val < numberBase fmt")
    case True
    have sv: "int (unat val) = sint val" using n0 by (rule nonneg_unat)
    have "int (unat val) < int (numberBase fmt)" using True by (rule iffD2[OF of_nat_less_iff])
    then have sl: "sint val < int (numberBase fmt)" by (simp only: sv)
    have "cvarToInt64_str (cvarToString_int val fmt) = (val, True)"
    proof (cases fmt)
      case Binary
      then have "sint val < 2" using sl by (simp add: numberBase_def)
      then have "val <s 2" by (simp add: word_sless_alt)
      then show ?thesis using Binary n0 by (simp add: roundtrip_bin_small)
    next
      case Octal
      then have "sint val < 8" using sl by (simp add: numberBase_def)
      then have "val <s 8" by (simp add: word_sless_alt)
      then show ?thesis using Octal n0 by (simp add: roundtrip_oct_small)
    qed (use fmt in auto)
    then show ?thesis using True by simp
  next
    case False
    then have "numberBase fmt \<le> unat val" by simp
    from roundtrip_unprefixed_large[OF n0 b refl this] False show ?thesis by simp
  qed
qed

lemma roundtrip_positive:
  assumes "fmt = Decimal \<or> (fmt = Hexadecimal \<and> 0 \<le>s val)"
  shows "cvarToInt64_str (cvarToString_int val fmt) = (val, True)"
  using assms roundtrip_dec_nonneg[of val] roundtrip_dec_neg[of val] roundtrip_hex[of val]
  by (cases "val <s 0") (auto simp add: not_sless_iff)

lemma setStringValue_int_roundtrip:
  fixes cv :: CVarInt
  assumes "cvarToInt64_str str = (currentValue cv, True)" and "isWritable cv"
    and "\<not> isRangeChecked cv \<or> inRangeInt (valueRange cv) (currentValue cv)"
  shows "setStringValue cvarSetString_int cv str = (Success, setModified cv)"
  using assms
  by (auto simp: setStringValue_def cvarSetString_int_def cvarSetInt64_int_def rangeArg_def
        inRangeInt_def not_sless_iff[symmetric])

text \<open>
  Claim C6: for every non-negative integer and each of the four number formats, the
  string form of an Int CVar's value, assigned back through the string-to-integer
  parse, yields the original value, and under Decimal also for negative values.  As
  amended: this holds under Decimal for every value and under Hexadecimal for every
  non-negative value.  Binary and Octal digits are written without a prefix and are read
  back as a decimal (or, after a leading zero, octal) literal: for a non-negative value
  the round trip holds exactly when the value is below the base (0 and 1 under Binary, 0
  to 7 under Octal) or is \<open>INT64_MAX\<close>, where the decimal reading overflows and is clamped
  back to \<open>INT64_MAX\<close>.  Whenever the conversion round-trips, \<open>setStringValue\<close> with the
  variable's own \<open>getStringValue\<close> succeeds and leaves the value as it was (on a writable
  variable whose value passes its range check).
\<close>

theorem int_string_roundtrip:
  fixes cv :: CVarInt
  shows "(fmt = Decimal \<or> (fmt = Hexadecimal \<and> 0 \<le>s val) \<longrightarrow>
            cvarToInt64_str (cvarToString_int val fmt) = (val, True))
       \<and> ((fmt = Binary \<or> fmt = Octal) \<and> 0 \<le>s val \<longrightarrow>
            (cvarToInt64_str (cvarToString_int val fmt) = (val, True))
            = (unat val < numberBase fmt \<or> val = INT64_MAX))
       \<and> (cvarToInt64_str (cvarToString_int val fmt) = (val, True)
           \<and> currentValue cv = val \<and> numberFormat cv = fmt \<and> isWritable cv
           \<and> (\<not> isRangeChecked cv \<or> inRangeInt (valueRange cv) val) \<longrightarrow>
            setStringValue cvarSetString_int cv (getStringValue cvarToString_int cv)
              = (Success, setModified cv))"
proof (intro conjI impI)
  assume "fmt = Decimal \<or> (fmt = Hexadecimal \<and> 0 \<le>s val)"
  then show "cvarToInt64_str (cvarToString_int val fmt) = (val, True)" by (rule roundtrip_positive)
next
  assume "(fmt = Binary \<or> fmt = Octal) \<and> 0 \<le>s val"
  then show "(cvarToInt64_str (cvarToString_int val fmt) = (val, True))
            = (unat val < numberBase fmt \<or> val = INT64_MAX)"
    by (intro roundtrip_unprefixed) simp_all
next
  assume a: "cvarToInt64_str (cvarToString_int val fmt) = (val, True)
           \<and> currentValue cv = val \<and> numberFormat cv = fmt \<and> isWritable cv
           \<and> (\<not> isRangeChecked cv \<or> inRangeInt (valueRange cv) val)"
  then show "setStringValue cvarSetString_int cv (getStringValue cvarToString_int cv)
              = (Success, setModified cv)"
    using setStringValue_int_roundtrip[of "getStringValue cvarToString_int cv" cv]
    by (auto simp: getStringValue_def)
qed

text \<open>The theorem at concrete values of each format.\<close>

theorem int_string_roundtrip_witness:
  "(0 :: int64) \<le>s 255
   \<and> cvarToString_int 255 Hexadecimal = ''0xFF''
   \<and> cvarToInt64_str ''0xFF'' = (255, True)
   \<and> cvarToString_int (- 42) Decimal = ''-42''
   \<and> cvarToInt64_str ''-42'' = (- 42, True)
   \<and> (0 :: int64) \<le>s 5 \<and> unat (5 :: int64) < numberBase Octal
   \<and> cvarToInt64_str (cvarToString_int 5 Octal) = (5, True)
   \<and> (0 :: int64) \<le>s 2 \<and> \<not> unat (2 :: int64) < numberBase Binary \<and> (2 :: int64) \<noteq> INT64_MAX
   \<and> cvarToInt64_str (cvarToString_int 2 Binary) \<noteq> (2, True)
   \<and> (0 :: int64) \<le>s INT64_MAX
   \<and> cvarToInt64_str (cvarToString_int INT64_MAX Binary) = (INT64_MAX, True)
   \<and> cvarToInt64_str (cvarToString_int INT64_MAX Octal) = (INT64_MAX, True)
   \<and> currentValue fpsVar = 60 \<and> numberFormat fpsVar = Decimal \<and> isWritable fpsVar
   \<and> inRangeInt (valueRange fpsVar) 60
   \<and> setStringValue cvarSetString_int fpsVar (getStringValue cvarToString_int fpsVar)
       = (Success, setModified fpsVar)"
proof -
  have h: "(0 :: int64) \<le>s 255" "(0 :: int64) \<le>s 5" "(0 :: int64) \<le>s 2"
    by (simp_all add: word_sle_eq)
  have hm: "(0 :: int64) \<le>s INT64_MAX" by (simp add: word_sle_eq INT64_MAX_def)
  have u: "unat (5 :: int64) < numberBase Octal" "\<not> unat (2 :: int64) < numberBase Binary"
    by (simp_all add: numberBase_def)
  have m: "(2 :: int64) \<noteq> INT64_MAX" by (simp add: INT64_MAX_def)
  have s1: "cvarToString_int 255 Hexadecimal = ''0xFF''" by code_simp
  have s2: "cvarToString_int (- 42) Decimal = ''-42''" by code_simp
  have f: "currentValue fpsVar = 60" "numberFormat fpsVar = Decimal" "isWritable fpsVar"
    "inRangeInt (valueRange fpsVar) 60"
    by (simp_all add: fpsVar_def newCVarImpl_def isWritable_def inRangeInt_def word_sle_eq
          RangeCheck_def ReadOnly_def InitOnly_def)
  have a1: "cvarToInt64_str (cvarToString_int 255 Hexadecimal) = (255, True)"
    using int_string_roundtrip[of Hexadecimal 255 fpsVar, THEN conjunct1] h by simp
  have a2: "cvarToInt64_str (cvarToString_int (- 42) Decimal) = (- 42, True)"
    using int_string_roundtrip[of Decimal "- 42" fpsVar, THEN conjunct1] by simp
  have a3: "cvarToInt64_str (cvarToString_int 5 Octal) = (5, True)"
    using int_string_roundtrip[of Octal 5 fpsVar, THEN conjunct2, THEN conjunct1] h u by simp
  have a4: "cvarToInt64_str (cvarToString_int 2 Binary) \<noteq> (2, True)"
    using int_string_roundtrip[of Binary 2 fpsVar, THEN conjunct2, THEN conjunct1] h u m by simp
  have a5: "cvarToInt64_str (cvarToString_int INT64_MAX Binary) = (INT64_MAX, True)"
    using int_string_roundtrip[of Binary INT64_MAX fpsVar, THEN conjunct2, THEN conjunct1] hm by simp
  have a6: "cvarToInt64_str (cvarToString_int INT64_MAX Octal) = (INT64_MAX, True)"
    using int_string_roundtrip[of Octal INT64_MAX fpsVar, THEN conjunct2, THEN conjunct1] hm by simp
  have a7: "cvarToInt64_str (cvarToString_int 60 Decimal) = (60, True)"
    using int_string_roundtrip[of Decimal 60 fpsVar, THEN conjunct1] by simp
  have a8: "setStringValue cvarSetString_int fpsVar (getStringValue cvarToString_int fpsVar)
       = (Success, setModified fpsVar)"
    using int_string_roundtrip[of Decimal 60 fpsVar, THEN conjunct2, THEN conjunct2] a7 f by simp
  show ?thesis using h hm u m s1 s2 f a1 a2 a3 a4 a5 a6 a8 by simp
qed

text \<open>The value 2 under Binary and the value 8 under Octal are both written \<open>10\<close> and read back as ten.\<close>

theorem int_string_roundtrip_counterexample:
  "(0 :: int64) \<le>s 2
   \<and> cvarToString_int 2 Binary = ''10'' \<and> cvarToInt64_str ''10'' = (10, True)
   \<and> cvarToString_int 8 Octal = ''10'' \<and> (10 :: int64) \<noteq> 2 \<and> (10 :: int64) \<noteq> 8"
proof -
  have "cvarToString_int 2 Binary = ''10''" "cvarToInt64_str ''10'' = (10, True)"
    "cvarToString_int 8 Octal = ''10''"
    by code_simp+
  then show ?thesis by (simp add: word_sle_eq)
qed

section \<open>The example manager, evaluated\<close>

lemma replicate7: "replicate 7 x = [x, x, x, x, x, x, x]"
  by (simp add: numeral_eq_Suc)

lemma hash_fps: "StringHasher ''fps'' = 1188151419"
  by code_simp

lemma hash_boot_mode: "StringHasher ''boot.mode'' = 2713187054"
  by code_simp

lemma hash_vsync: "StringHasher ''vsync'' = 1561187339"
  by code_simp

lemma valid_names:
  "isValidCVarName ''fps''" "isValidCVarName ''boot.mode''" "isValidCVarName ''vsync''"
  by (simp_all add: isValidCVarName_def isLetter_def isDigit_def charInt_def)

lemma register_fps:
  "registerCVarInt examplePlatform (newCVarManagerImpl 7) 10 ''fps'' [] RangeCheck 60 1 240
     = Some (manager1, Inr 10)"
proof -
  have f: "findCVar (newCVarManagerImpl 7) ''fps'' = Some None"
    by (simp add: findCVar_def newCVarManagerImpl_def findByKey_def isEmpty_def allocate_def
          emptyTable_def)
  have v: "\<And>f. validateCVarRegistration (newCVarManagerImpl 7) ''fps'' RangeCheck f = Some None"
    by (simp add: validateCVarRegistration_def valid_names f)
  have l: "linkWithKey StringHasher ((links (newCVarManagerImpl 7))(10 := newLink))
             (registeredCVars (newCVarManagerImpl 7)) 10 ''fps''
           = Some (links manager1, registeredCVars manager1)"
    by (simp add: linkWithKey_def newCVarManagerImpl_def allocate_def emptyTable_def hashOf_def
          hash_fps bucketOf_def replicate7 newLink_def manager1_def)
  have c: "cvars (newCVarManagerImpl 7) 10 = None"
    by (simp add: newCVarManagerImpl_def)
  have r: "newCVarManagerImpl 7\<lparr>registeredCVars := registeredCVars manager1, links := links manager1,
             cvars := (cvars (newCVarManagerImpl 7))(10 \<mapsto> IntVar fpsVar)\<rparr> = manager1"
    by (simp add: manager1_def newCVarManagerImpl_def)
  show ?thesis
    unfolding registerCVarInt_def registerValidated_def v fpsVar_def[symmetric]
    by (simp only: c l r option.case prod.case if_False simp_thms)
qed

lemma find_in_manager1: "findCVar manager1 ''boot.mode'' = Some None"
  by (simp add: findCVar_def manager1_def findByKey_def isEmpty_def hashOf_def hash_boot_mode
        bucketOf_def findByKey_loop.simps)

lemma register_boot_mode:
  "registerCVarString examplePlatform manager1 20 ''boot.mode'' [] InitOnly ''cold'' None
     = Some (manager2, Inr 20)"
proof -
  have v: "\<And>f. validateCVarRegistration manager1 ''boot.mode'' InitOnly f = Some None"
    by (simp add: validateCVarRegistration_def valid_names find_in_manager1)
  have l: "linkWithKey StringHasher ((links manager1)(20 := newLink)) (registeredCVars manager1) 20 ''boot.mode''
           = Some (links manager2, registeredCVars manager2)"
    by (simp add: linkWithKey_def manager1_def manager2_def allocate_def hashOf_def
          hash_boot_mode bucketOf_def newLink_def)
  have c: "cvars manager1 20 = None" by (simp add: manager1_def)
  have r: "manager1\<lparr>registeredCVars := registeredCVars manager2, links := links manager2,
             cvars := (cvars manager1)(20 \<mapsto> StringVar bootModeVar)\<rparr> = manager2"
    by (simp add: manager1_def manager2_def)
  show ?thesis
    unfolding registerCVarString_def registerValidated_def v bootModeVar_def[symmetric]
    by (simp only: c l r option.case prod.case if_False simp_thms)
qed

lemma exampleManager_eq: "exampleManager = manager2"
  unfolding exampleManager_def register_fps by (simp add: register_boot_mode)

lemma exampleManager_cvars:
  "cvars exampleManager 10 = Some (IntVar fpsVar)"
  "cvars exampleManager 20 = Some (StringVar bootModeVar)"
  "cvars exampleManager 30 = None"
  by (simp_all add: exampleManager_eq manager2_def)

lemma exampleManager_find:
  "findCVar exampleManager ''fps'' = Some (Some 10)"
  "findCVar exampleManager ''boot.mode'' = Some (Some 20)"
  "findCVar exampleManager ''vsync'' = Some None"
  by (simp_all add: exampleManager_eq findCVar_def manager2_def findByKey_def isEmpty_def hashOf_def
        hash_fps hash_boot_mode hash_vsync bucketOf_def findByKey_loop.simps)

section \<open>The Modified flag\<close>

text \<open>
  Claim C3: writes through the privileged internal setter (\<open>internalSetStringValue\<close>,
  \<open>internalSetDefaultValue\<close>) never set the Modified flag, whereas every successful
  write through the public \<open>set*\<close> interface sets it, whatever the ReadOnly/InitOnly
  flags and the override switches.  As amended: the internal setters leave the flags of
  a variable that is ReadOnly or InitOnly untouched, whatever the override switches;
  for a writable variable they call the public setter, so a successful write sets
  Modified there too.  Every successful write through the public interface sets
  Modified and changes no other flag.
\<close>

theorem internal_setters_modified_flag:
  assumes "cvars mgr a = Some cvar"
  shows "(internalSetStringValue P mgr a val = Some (r, mgr') \<longrightarrow>
            (\<exists>cvar'. cvars mgr' a = Some cvar' \<and>
               (\<not> cvarIsWritable cvar \<longrightarrow> getFlags cvar' = getFlags cvar) \<and>
               (cvarIsWritable cvar \<and> r = Success \<longrightarrow> getFlags cvar' = getFlags cvar OR Modified)))
       \<and> (internalSetDefaultValue mgr a = Some (r, mgr') \<longrightarrow>
            (\<exists>cvar'. cvars mgr' a = Some cvar' \<and>
               (\<not> cvarIsWritable cvar \<longrightarrow> getFlags cvar' = getFlags cvar) \<and>
               (cvarIsWritable cvar \<and> r = Success \<longrightarrow> getFlags cvar' = getFlags cvar OR Modified)))
       \<and> (cvarSetIntValue P cvar i = (Success, c1) \<longrightarrow> getFlags c1 = getFlags cvar OR Modified)
       \<and> (cvarSetBoolValue P cvar b = (Success, c2) \<longrightarrow> getFlags c2 = getFlags cvar OR Modified)
       \<and> (cvarSetFloatValue P cvar d = (Success, c3) \<longrightarrow> getFlags c3 = getFlags cvar OR Modified)
       \<and> (cvarSetStringValue P cvar s = (Success, c4) \<longrightarrow> getFlags c4 = getFlags cvar OR Modified)
       \<and> (cvarSetDefaultValue cvar = (Success, c5) \<longrightarrow> getFlags c5 = getFlags cvar OR Modified)"
proof -
  have 1: "internalSetStringValue P mgr a val = Some (r, mgr') \<longrightarrow>
            (\<exists>cvar'. cvars mgr' a = Some cvar' \<and>
               (\<not> cvarIsWritable cvar \<longrightarrow> getFlags cvar' = getFlags cvar) \<and>
               (cvarIsWritable cvar \<and> r = Success \<longrightarrow> getFlags cvar' = getFlags cvar OR Modified))"
    using assms
    by (auto simp: internalSetStringValue_def cvar_readonly split: if_splits prod.splits
          dest: cvar_ignoreRO_flags cvar_public_flags)
  have 2: "internalSetDefaultValue mgr a = Some (r, mgr') \<longrightarrow>
            (\<exists>cvar'. cvars mgr' a = Some cvar' \<and>
               (\<not> cvarIsWritable cvar \<longrightarrow> getFlags cvar' = getFlags cvar) \<and>
               (cvarIsWritable cvar \<and> r = Success \<longrightarrow> getFlags cvar' = getFlags cvar OR Modified))"
    using assms
    by (auto simp: internalSetDefaultValue_def cvar_readonly split: if_splits prod.splits
          dest: cvar_ignoreRO_flags cvar_public_flags)
  show ?thesis using 1 2 cvar_public_flags by blast
qed

theorem internal_setters_modified_flag_witness:
  "cvars (setAllowWritingInitOnlyVars exampleManager True) 20 = Some (StringVar bootModeVar)
   \<and> \<not> cvarIsWritable (StringVar bootModeVar)
   \<and> internalSetStringValue examplePlatform (setAllowWritingInitOnlyVars exampleManager True) 20 ''warm''
       = Some (Success, (setAllowWritingInitOnlyVars exampleManager True)
                 \<lparr>cvars := (cvars exampleManager)(20 \<mapsto> StringVar (bootModeVar\<lparr>currentValue := ''warm''\<rparr>))\<rparr>)
   \<and> getFlags (StringVar (bootModeVar\<lparr>currentValue := ''warm''\<rparr>)) = getFlags (StringVar bootModeVar)
   \<and> cvarSetIntValue examplePlatform (IntVar fpsVar) 120
       = (Success, IntVar (setModified (fpsVar\<lparr>currentValue := 120\<rparr>)))
   \<and> getFlags (IntVar (setModified (fpsVar\<lparr>currentValue := 120\<rparr>))) = getFlags (IntVar fpsVar) OR Modified"
proof -
  let ?M = "setAllowWritingInitOnlyVars exampleManager True"
  let ?M' = "?M\<lparr>cvars := (cvars exampleManager)(20 \<mapsto> StringVar (bootModeVar\<lparr>currentValue := ''warm''\<rparr>))\<rparr>"
  have c: "cvars ?M 20 = Some (StringVar bootModeVar)"
    by (simp add: setAllowWritingInitOnlyVars_def exampleManager_cvars)
  have w: "\<not> cvarIsWritable (StringVar bootModeVar)"
    by (simp add: bootModeVar_def newCVarImpl_def isWritable_def flag_defs)
  have s: "setStringValueIgnoreRO cvarSetString_string bootModeVar ''warm'' False True
           = (Success, bootModeVar\<lparr>currentValue := ''warm''\<rparr>)"
    by (simp add: setStringValueIgnoreRO_def cvarSetString_string_def rangeArg_def isRangeChecked_def
          bootModeVar_def newCVarImpl_def flag_defs)
  have e: "internalSetStringValue examplePlatform ?M 20 ''warm'' = Some (Success, ?M')"
    using w by (simp add: internalSetStringValue_def setAllowWritingInitOnlyVars_def
        exampleManager_cvars exampleManager_eq manager2_def s)
  have i: "cvarSetIntValue examplePlatform (IntVar fpsVar) 120
       = (Success, IntVar (setModified (fpsVar\<lparr>currentValue := 120\<rparr>)))"
    by (simp add: setIntValue_def cvarSetInt64_int_def rangeArg_def isRangeChecked_def isWritable_def
          fpsVar_def newCVarImpl_def flag_defs word_sless_alt)
  note t = internal_setters_modified_flag[where mgr = ?M and a = 20 and cvar = "StringVar bootModeVar"
      and P = examplePlatform and val = "''warm''" and r = Success and mgr' = ?M', OF c]
  note u = internal_setters_modified_flag[where mgr = exampleManager and a = 10 and cvar = "IntVar fpsVar"
      and P = examplePlatform and i = 120 and ?c1.0 = "IntVar (setModified (fpsVar\<lparr>currentValue := 120\<rparr>))",
      OF exampleManager_cvars(1)]
  show ?thesis using c w e i t u by simp
qed

theorem internal_setters_modified_flag_counterexample:
  "cvarIsWritable (IntVar fpsVar) \<and> \<not> isModified fpsVar
   \<and> internalSetStringValue examplePlatform (setAllowWritingReadOnlyVars exampleManager True) 10 ''30''
       = Some (Success, (setAllowWritingReadOnlyVars exampleManager True)
                 \<lparr>cvars := (cvars exampleManager)(10 \<mapsto> IntVar (setModified (fpsVar\<lparr>currentValue := 30\<rparr>)))\<rparr>)
   \<and> isModified (setModified (fpsVar\<lparr>currentValue := 30\<rparr>))"
proof -
  have p: "strtoll0 ''30'' = Some 30" by code_simp
  have w: "isWritable fpsVar" "\<not> isModified fpsVar" "isRangeChecked fpsVar"
    by (simp_all add: fpsVar_def newCVarImpl_def isWritable_def isModified_def isRangeChecked_def flag_defs)
  have s: "setStringValue cvarSetString_int fpsVar ''30''
           = (Success, setModified (fpsVar\<lparr>currentValue := 30\<rparr>))"
    using w by (simp add: setStringValue_def cvarSetString_int_def cvarToInt64_str_def p
        cvarSetInt64_int_def rangeArg_def) (simp add: fpsVar_def newCVarImpl_def word_sless_alt)
  have m: "isModified (setModified (fpsVar\<lparr>currentValue := 30\<rparr>))"
    by (simp add: isModified_def setModified_def fpsVar_def newCVarImpl_def flag_defs)
  show ?thesis
    using w m
    by (simp add: internalSetStringValue_def setAllowWritingReadOnlyVars_def exampleManager_cvars s)
qed

section \<open>Range-checked writes\<close>






























section \<open>Failed writes\<close>

lemma generic_failure:
  assumes "isWritable cv" and "fs (currentValue cv) s (rangeArg cv) = (Failure e, currentValue cv)"
  shows "setStringValue fs cv s = (Failure e, cv)"
  using assms by (simp add: setStringValue_def)

lemma findEnumByName_None: "sv \<notin> set ns \<Longrightarrow> findEnumByName ns vs sv = None"
  by (induction ns vs sv rule: findEnumByName.induct) auto

lemma int_range_failure:
  "\<not> inRangeInt r v \<Longrightarrow> \<exists>e. cvarSetInt64_int old v (Some r) f = (Failure e, old)"
  by (auto simp: cvarSetInt64_int_def inRangeInt_def not_sless_iff)

lemma dbl_range_failure:
  "dless d (minValue r) \<or> dless (maxValue r) d \<Longrightarrow>
     \<exists>e. cvarSetDouble_double old d (Some r) = (Failure e, old)"
  by (auto simp: cvarSetDouble_double_def)

text \<open>
  Claim C4: every failed CVar write is atomic: a public \<open>set*\<close> call on a ReadOnly or
  InitOnly variable fails reporting read-only and leaves the value unchanged, and a
  \<open>setStringValue\<close> whose string does not parse as the target numeric type, or whose
  converted value violates the range or allowed-set constraint, fails with the previous
  value retained.  As amended: the range and the allowed set are enforced only on a
  variable whose RangeCheck flag is set; with that flag the claim holds as stated, and
  every failed public write, whatever its cause, returns the variable unchanged.
\<close>

theorem failed_writes_are_atomic:
  fixes ci :: CVarInt and cf :: CVarFloat and cs :: CVarString and ce :: CVarEnum
  shows "(cvarSetIntValue P cvar iv = (Failure e, c1) \<longrightarrow> c1 = cvar)
       \<and> (cvarSetBoolValue P cvar bv = (Failure e, c2) \<longrightarrow> c2 = cvar)
       \<and> (cvarSetFloatValue P cvar dv = (Failure e, c3) \<longrightarrow> c3 = cvar)
       \<and> (cvarSetStringValue P cvar sv = (Failure e, c4) \<longrightarrow> c4 = cvar)
       \<and> (cvarSetDefaultValue cvar = (Failure e, c5) \<longrightarrow> c5 = cvar)
       \<and> (\<not> cvarIsWritable cvar \<longrightarrow>
            cvarSetIntValue P cvar iv = (Failure (Some ReadOnlyError), cvar)
          \<and> cvarSetBoolValue P cvar bv = (Failure (Some ReadOnlyError), cvar)
          \<and> cvarSetFloatValue P cvar dv = (Failure (Some ReadOnlyError), cvar)
          \<and> cvarSetStringValue P cvar sv = (Failure (Some ReadOnlyError), cvar)
          \<and> cvarSetDefaultValue cvar = (Failure (Some ReadOnlyError), cvar))
       \<and> (isWritable ci \<and> strtoll0 sv = None \<longrightarrow>
            setStringValue cvarSetString_int ci sv = (Failure (Some NoIntConversion), ci))
       \<and> (isWritable cf \<and> strtod P sv = None \<longrightarrow>
            setStringValue (cvarSetString_double P) cf sv = (Failure (Some NoFloatConversion), cf))
       \<and> (isWritable ci \<and> isRangeChecked ci \<and> strtoll0 sv = Some v \<and> \<not> inRangeInt (valueRange ci) v \<longrightarrow>
            fst (setStringValue cvarSetString_int ci sv) \<noteq> Success
          \<and> snd (setStringValue cvarSetString_int ci sv) = ci)
       \<and> (isWritable cf \<and> isRangeChecked cf \<and> strtod P sv = Some d
           \<and> (dless d (minValue (valueRange cf)) \<or> dless (maxValue (valueRange cf)) d) \<longrightarrow>
            fst (setStringValue (cvarSetString_double P) cf sv) \<noteq> Success
          \<and> snd (setStringValue (cvarSetString_double P) cf sv) = cf)
       \<and> (isWritable cs \<and> isRangeChecked cs \<and> strings (valueRange cs) = Some ss \<and> sv \<notin> set ss \<longrightarrow>
            setStringValue cvarSetString_string cs sv = (Failure None, cs))
       \<and> (isWritable ce \<and> isRangeChecked ce \<and> names (valueRange ce) = Some ns \<and> sv \<notin> set ns \<longrightarrow>
            setStringValue cvarSetString_enum ce sv = (Failure None, ce))"
proof -
  have a: "(cvarSetIntValue P cvar iv = (Failure e, c1) \<longrightarrow> c1 = cvar)
       \<and> (cvarSetBoolValue P cvar bv = (Failure e, c2) \<longrightarrow> c2 = cvar)
       \<and> (cvarSetFloatValue P cvar dv = (Failure e, c3) \<longrightarrow> c3 = cvar)
       \<and> (cvarSetStringValue P cvar sv = (Failure e, c4) \<longrightarrow> c4 = cvar)
       \<and> (cvarSetDefaultValue cvar = (Failure e, c5) \<longrightarrow> c5 = cvar)"
    by (intro conjI impI; erule cvar_atomic)
  have b: "\<not> cvarIsWritable cvar \<longrightarrow>
            cvarSetIntValue P cvar iv = (Failure (Some ReadOnlyError), cvar)
          \<and> cvarSetBoolValue P cvar bv = (Failure (Some ReadOnlyError), cvar)
          \<and> cvarSetFloatValue P cvar dv = (Failure (Some ReadOnlyError), cvar)
          \<and> cvarSetStringValue P cvar sv = (Failure (Some ReadOnlyError), cvar)
          \<and> cvarSetDefaultValue cvar = (Failure (Some ReadOnlyError), cvar)"
    by (intro conjI impI; erule cvar_readonly)
  have c: "isWritable ci \<and> strtoll0 sv = None \<longrightarrow>
            setStringValue cvarSetString_int ci sv = (Failure (Some NoIntConversion), ci)"
    by (auto intro!: generic_failure simp: cvarSetString_int_def cvarToInt64_str_def)
  have d: "isWritable cf \<and> strtod P sv = None \<longrightarrow>
            setStringValue (cvarSetString_double P) cf sv = (Failure (Some NoFloatConversion), cf)"
    by (auto intro!: generic_failure simp: cvarSetString_double_def cvarToDouble_str_def)
  have e: "isWritable ci \<and> isRangeChecked ci \<and> strtoll0 sv = Some v \<and> \<not> inRangeInt (valueRange ci) v \<longrightarrow>
            fst (setStringValue cvarSetString_int ci sv) \<noteq> Success
          \<and> snd (setStringValue cvarSetString_int ci sv) = ci"
  proof (intro impI, elim conjE)
    assume h: "isWritable ci" "isRangeChecked ci" "strtoll0 sv = Some v" "\<not> inRangeInt (valueRange ci) v"
    from int_range_failure[OF h(4), of "currentValue ci" Decimal]
    obtain e' where "cvarSetInt64_int (currentValue ci) v (Some (valueRange ci)) Decimal = (Failure e', currentValue ci)" ..
    then have "cvarSetString_int (currentValue ci) sv (rangeArg ci) = (Failure e', currentValue ci)"
      using h(2,3) by (simp add: cvarSetString_int_def cvarToInt64_str_def rangeArg_def)
    from generic_failure[of ci cvarSetString_int sv e', OF h(1) this]
    show "fst (setStringValue cvarSetString_int ci sv) \<noteq> Success
          \<and> snd (setStringValue cvarSetString_int ci sv) = ci" by simp
  qed
  have f: "isWritable cf \<and> isRangeChecked cf \<and> strtod P sv = Some d
           \<and> (dless d (minValue (valueRange cf)) \<or> dless (maxValue (valueRange cf)) d) \<longrightarrow>
            fst (setStringValue (cvarSetString_double P) cf sv) \<noteq> Success
          \<and> snd (setStringValue (cvarSetString_double P) cf sv) = cf"
  proof (intro impI, elim conjE)
    assume h: "isWritable cf" "isRangeChecked cf" "strtod P sv = Some d"
      "dless d (minValue (valueRange cf)) \<or> dless (maxValue (valueRange cf)) d"
    from dbl_range_failure[OF h(4), of "currentValue cf"]
    obtain e' where "cvarSetDouble_double (currentValue cf) d (Some (valueRange cf)) = (Failure e', currentValue cf)" ..
    then have "cvarSetString_double P (currentValue cf) sv (rangeArg cf) = (Failure e', currentValue cf)"
      using h(2,3) by (simp add: cvarSetString_double_def cvarToDouble_str_def rangeArg_def)
    from generic_failure[of cf "cvarSetString_double P" sv e', OF h(1) this]
    show "fst (setStringValue (cvarSetString_double P) cf sv) \<noteq> Success
          \<and> snd (setStringValue (cvarSetString_double P) cf sv) = cf" by simp
  qed
  have g: "isWritable cs \<and> isRangeChecked cs \<and> strings (valueRange cs) = Some ss \<and> sv \<notin> set ss \<longrightarrow>
            setStringValue cvarSetString_string cs sv = (Failure None, cs)"
    by (auto intro!: generic_failure simp: cvarSetString_string_def rangeArg_def)
  have h: "isWritable ce \<and> isRangeChecked ce \<and> names (valueRange ce) = Some ns \<and> sv \<notin> set ns \<longrightarrow>
            setStringValue cvarSetString_enum ce sv = (Failure None, ce)"
    by (auto intro!: generic_failure simp: cvarSetString_enum_def rangeArg_def findEnumByName_None)
  show ?thesis using a b c d e f g h by blast
qed

theorem failed_writes_are_atomic_counterexample:
  "strtoll0 ''500'' = Some 500
   \<and> \<not> inRangeInt (valueRange (fpsVar\<lparr>flags := 0\<rparr>)) 500
   \<and> setStringValue cvarSetString_int (fpsVar\<lparr>flags := 0\<rparr>) ''500''
       = (Success, fpsVar\<lparr>currentValue := 500, flags := Modified\<rparr>)"
proof -
  have p: "strtoll0 ''500'' = Some 500" by code_simp
  show ?thesis
    by (simp add: p setStringValue_def cvarSetString_int_def cvarToInt64_str_def cvarSetInt64_int_def
          rangeArg_def isRangeChecked_def isWritable_def setModified_def fpsVar_def newCVarImpl_def
          inRangeInt_def word_sle_eq flag_defs)
qed

theorem failed_writes_are_atomic_witness:
  "\<not> cvarIsWritable (StringVar bootModeVar)
   \<and> cvarSetStringValue examplePlatform (StringVar bootModeVar) ''hot''
       = (Failure (Some ReadOnlyError), StringVar bootModeVar)
   \<and> isWritable fpsVar \<and> isRangeChecked fpsVar
   \<and> strtoll0 ''fast'' = None
   \<and> setStringValue cvarSetString_int fpsVar ''fast'' = (Failure (Some NoIntConversion), fpsVar)
   \<and> strtoll0 ''500'' = Some 500 \<and> \<not> inRangeInt (valueRange fpsVar) 500
   \<and> fst (setStringValue cvarSetString_int fpsVar ''500'') \<noteq> Success
   \<and> snd (setStringValue cvarSetString_int fpsVar ''500'') = fpsVar
   \<and> isWritable eVar \<and> isRangeChecked eVar
   \<and> names (valueRange eVar) = Some [''Camaro'', ''Mustang'', ''Maverick'', ''Barracuda'']
   \<and> setStringValue cvarSetString_enum eVar ''Beetle'' = (Failure None, eVar)"
proof -
  have w: "\<not> cvarIsWritable (StringVar bootModeVar)"
    by (simp add: bootModeVar_def newCVarImpl_def isWritable_def flag_defs)
  have f: "isWritable fpsVar" "isRangeChecked fpsVar"
    by (simp_all add: fpsVar_def newCVarImpl_def isWritable_def isRangeChecked_def flag_defs)
  have p: "strtoll0 ''fast'' = None" "strtoll0 ''500'' = Some 500" by code_simp+
  have r: "\<not> inRangeInt (valueRange fpsVar) 500"
    by (simp add: fpsVar_def newCVarImpl_def inRangeInt_def word_sle_eq)
  have e: "isWritable eVar" "isRangeChecked eVar"
    "names (valueRange eVar) = Some [''Camaro'', ''Mustang'', ''Maverick'', ''Barracuda'']"
    by (simp_all add: eVar_def classicCars_def mkCVarEnumConstList_def newCVarImpl_def
          isWritable_def isRangeChecked_def flag_defs)
  note c2 = conjunct2
  have r1: "cvarSetStringValue examplePlatform (StringVar bootModeVar) ''hot''
       = (Failure (Some ReadOnlyError), StringVar bootModeVar)"
    using failed_writes_are_atomic[where cvar = "StringVar bootModeVar" and P = examplePlatform
      and sv = "''hot''", THEN c2, THEN c2, THEN c2, THEN c2, THEN c2, THEN conjunct1] w
    by blast
  have r2: "setStringValue cvarSetString_int fpsVar ''fast'' = (Failure (Some NoIntConversion), fpsVar)"
    using failed_writes_are_atomic[where ci = fpsVar and sv = "''fast''",
      THEN c2, THEN c2, THEN c2, THEN c2, THEN c2, THEN c2, THEN conjunct1] f p
    by blast
  have r3: "fst (setStringValue cvarSetString_int fpsVar ''500'') \<noteq> Success
          \<and> snd (setStringValue cvarSetString_int fpsVar ''500'') = fpsVar"
    using failed_writes_are_atomic[where ci = fpsVar and sv = "''500''" and v = 500,
      THEN c2, THEN c2, THEN c2, THEN c2, THEN c2, THEN c2, THEN c2, THEN c2, THEN conjunct1] f p r
    by blast
  have m: "''Beetle'' \<notin> set [''Camaro'', ''Mustang'', ''Maverick'', ''Barracuda'']" by simp
  have r4: "setStringValue cvarSetString_enum eVar ''Beetle'' = (Failure None, eVar)"
    using failed_writes_are_atomic[where ce = eVar and sv = "''Beetle''"
      and ns = "[''Camaro'', ''Mustang'', ''Maverick'', ''Barracuda'']",
      THEN c2, THEN c2, THEN c2, THEN c2, THEN c2, THEN c2, THEN c2, THEN c2, THEN c2, THEN c2, THEN c2]
      e m
    by blast
  show ?thesis
    using w f p r e r1 r2 r3 r4 by blast
qed

section \<open>Enum variables and strings\<close>

lemma findEnumByName_Some:
  "findEnumByName ns vs sv = Some e \<Longrightarrow> constName e = sv \<and> (sv, constValue e) \<in> set (zip ns vs)"
  by (induction ns vs sv rule: findEnumByName.induct) (auto split: if_splits)

lemma findEnumByName_member:
  "sv \<in> set ns \<Longrightarrow> length ns \<le> length vs \<Longrightarrow> findEnumByName ns vs sv \<noteq> None"
  by (induction ns vs sv rule: findEnumByName.induct) auto

lemma enum_set_with_list:
  assumes "isWritable ce" "isRangeChecked ce" "names (valueRange ce) = Some ns"
  shows "setStringValue cvarSetString_enum ce sv =
           (case findEnumByName ns (enumValues (valueRange ce)) sv of
              Some e \<Rightarrow> (Success, setModified (ce\<lparr>currentValue := e\<rparr>))
            | None \<Rightarrow> (Failure None, ce))"
  using assms
  by (simp add: setStringValue_def cvarSetString_enum_def rangeArg_def split: option.splits)

lemma enum_set_numeric:
  assumes "isWritable ce" "\<not> isRangeChecked ce \<or> names (valueRange ce) = None"
  shows "setStringValue cvarSetString_enum ce sv =
           (case strtoll0 sv of
              Some v \<Rightarrow> (Success, setModified (ce\<lparr>currentValue := \<lparr>constName = [], constValue = v\<rparr>\<rparr>))
            | None \<Rightarrow> (Failure (Some NoIntConversion), ce))"
  using assms
  by (auto simp: setStringValue_def cvarSetString_enum_def rangeArg_def cvarSetString_int_def
        cvarToInt64_str_def cvarSetInt64_int_def split: option.splits)

text \<open>
  Claim C8: for every Enum CVar, assigning from a string succeeds when the string is
  one of the enum's symbolic names or a numeric literal denoting a value of the enum;
  on success the stored constant is the named or denoted member, and the string form is
  the symbolic name when the stored value is a member of the list, otherwise the numeric
  rendering.  As amended, for a writable Enum CVar: with RangeCheck set and a constant
  list, the assignment succeeds exactly when the string is one of the symbolic names
  and stores the first constant of that name (a numeric literal is rejected); without
  RangeCheck, or without a list, it succeeds exactly when the string parses as an
  integer and stores that number with an empty name.  The string form is the stored
  name when that is not empty, otherwise the numeric rendering of the stored number.
\<close>

theorem enum_string_assignment:
  fixes ce :: CVarEnum
  assumes "isWritable ce"
  shows "(isRangeChecked ce \<and> names (valueRange ce) = Some ns \<longrightarrow>
            (fst (setStringValue cvarSetString_enum ce sv) = Success
               \<longleftrightarrow> findEnumByName ns (enumValues (valueRange ce)) sv \<noteq> None)
          \<and> (findEnumByName ns (enumValues (valueRange ce)) sv = Some e \<longrightarrow>
                currentValue (snd (setStringValue cvarSetString_enum ce sv)) = e
              \<and> constName e = sv
              \<and> (sv, constValue e) \<in> set (zip ns (enumValues (valueRange ce))))
          \<and> (sv \<in> set ns \<and> length ns \<le> length (enumValues (valueRange ce)) \<longrightarrow>
                findEnumByName ns (enumValues (valueRange ce)) sv \<noteq> None)
          \<and> (sv \<notin> set ns \<longrightarrow> findEnumByName ns (enumValues (valueRange ce)) sv = None))
       \<and> (\<not> isRangeChecked ce \<or> names (valueRange ce) = None \<longrightarrow>
            (fst (setStringValue cvarSetString_enum ce sv) = Success \<longleftrightarrow> strtoll0 sv \<noteq> None)
          \<and> (strtoll0 sv = Some v \<longrightarrow>
                currentValue (snd (setStringValue cvarSetString_enum ce sv))
                  = \<lparr>constName = [], constValue = v\<rparr>))
       \<and> getStringValue cvarToString_enum ce
           = (if constName (currentValue ce) \<noteq> [] then constName (currentValue ce)
              else cvarToString_int (constValue (currentValue ce)) (numberFormat ce))"
proof -
  have a: "isRangeChecked ce \<and> names (valueRange ce) = Some ns \<longrightarrow>
            (fst (setStringValue cvarSetString_enum ce sv) = Success
               \<longleftrightarrow> findEnumByName ns (enumValues (valueRange ce)) sv \<noteq> None)
          \<and> (findEnumByName ns (enumValues (valueRange ce)) sv = Some e \<longrightarrow>
                currentValue (snd (setStringValue cvarSetString_enum ce sv)) = e
              \<and> constName e = sv
              \<and> (sv, constValue e) \<in> set (zip ns (enumValues (valueRange ce))))
          \<and> (sv \<in> set ns \<and> length ns \<le> length (enumValues (valueRange ce)) \<longrightarrow>
                findEnumByName ns (enumValues (valueRange ce)) sv \<noteq> None)
          \<and> (sv \<notin> set ns \<longrightarrow> findEnumByName ns (enumValues (valueRange ce)) sv = None)"
    using enum_set_with_list[OF assms, of ns sv]
      findEnumByName_Some[of ns "enumValues (valueRange ce)" sv e]
      findEnumByName_member[of sv ns "enumValues (valueRange ce)"]
      findEnumByName_None[of sv ns "enumValues (valueRange ce)"]
    by (auto simp: setModified_def split: option.splits)
  have b: "\<not> isRangeChecked ce \<or> names (valueRange ce) = None \<longrightarrow>
            (fst (setStringValue cvarSetString_enum ce sv) = Success \<longleftrightarrow> strtoll0 sv \<noteq> None)
          \<and> (strtoll0 sv = Some v \<longrightarrow>
                currentValue (snd (setStringValue cvarSetString_enum ce sv))
                  = \<lparr>constName = [], constValue = v\<rparr>)"
    using enum_set_numeric[OF assms, of sv]
    by (auto simp: setModified_def split: option.splits)
  have c: "getStringValue cvarToString_enum ce
           = (if constName (currentValue ce) \<noteq> [] then constName (currentValue ce)
              else cvarToString_int (constValue (currentValue ce)) (numberFormat ce))"
    by (simp add: getStringValue_def cvarToString_enum_def)
  show ?thesis using a b c by blast
qed

lemma eVar_facts:
  "isWritable eVar" "isRangeChecked eVar"
  "names (valueRange eVar) = Some [''Camaro'', ''Mustang'', ''Maverick'', ''Barracuda'']"
  "enumValues (valueRange eVar) = [0, 1, 2, 3]"
  by (simp_all add: eVar_def classicCars_def mkCVarEnumConstList_def newCVarImpl_def
        isWritable_def isRangeChecked_def flag_defs)

theorem enum_string_assignment_counterexample:
  "isWritable eVar \<and> isRangeChecked eVar
   \<and> strtoll0 ''2'' = Some 2 \<and> (2 :: int64) \<in> set (enumValues (valueRange eVar))
   \<and> setStringValue cvarSetString_enum eVar ''2'' = (Failure None, eVar)
   \<and> isWritable (eVar\<lparr>flags := 0\<rparr>)
   \<and> ''Maverick'' \<in> set (the (names (valueRange (eVar\<lparr>flags := 0\<rparr>))))
   \<and> setStringValue cvarSetString_enum (eVar\<lparr>flags := 0\<rparr>) ''Maverick''
       = (Failure (Some NoIntConversion), eVar\<lparr>flags := 0\<rparr>)
   \<and> setStringValue cvarSetString_enum (eVar\<lparr>flags := 0\<rparr>) ''2''
       = (Success, eVar\<lparr>currentValue := \<lparr>constName = [], constValue = 2\<rparr>, flags := Modified\<rparr>)
   \<and> getStringValue cvarToString_enum
         (eVar\<lparr>currentValue := \<lparr>constName = [], constValue = 2\<rparr>, flags := Modified\<rparr>) = ''2''"
proof -
  have p: "strtoll0 ''2'' = Some 2" "strtoll0 ''Maverick'' = None" by code_simp+
  have s: "cvarToString_int 2 Decimal = ''2''" by code_simp
  have w0: "isWritable (eVar\<lparr>flags := 0\<rparr>)" "\<not> isRangeChecked (eVar\<lparr>flags := 0\<rparr>)"
    by (simp_all add: isWritable_def isRangeChecked_def)
  have n0: "names (valueRange (eVar\<lparr>flags := 0\<rparr>)) = Some [''Camaro'', ''Mustang'', ''Maverick'', ''Barracuda'']"
    using eVar_facts(3) by simp
  have c1: "setStringValue cvarSetString_enum eVar ''2'' = (Failure None, eVar)"
    by (simp add: enum_set_with_list[OF eVar_facts(1,2,3)] eVar_facts(4))
  have c2: "setStringValue cvarSetString_enum (eVar\<lparr>flags := 0\<rparr>) ''Maverick''
       = (Failure (Some NoIntConversion), eVar\<lparr>flags := 0\<rparr>)"
    using w0 by (simp add: enum_set_numeric p)
  have c3: "setStringValue cvarSetString_enum (eVar\<lparr>flags := 0\<rparr>) ''2''
       = (Success, eVar\<lparr>currentValue := \<lparr>constName = [], constValue = 2\<rparr>, flags := Modified\<rparr>)"
    using w0 by (simp add: enum_set_numeric p setModified_def)
  have c4: "getStringValue cvarToString_enum
         (eVar\<lparr>currentValue := \<lparr>constName = [], constValue = 2\<rparr>, flags := Modified\<rparr>) = ''2''"
    by (simp add: getStringValue_def cvarToString_enum_def s eVar_def newCVarImpl_def)
  show ?thesis
    using eVar_facts p w0 n0 c1 c2 c3 c4 by simp
qed

theorem enum_string_assignment_witness:
  "isWritable eVar \<and> isRangeChecked eVar
   \<and> names (valueRange eVar) = Some [''Camaro'', ''Mustang'', ''Maverick'', ''Barracuda'']
   \<and> findEnumByName [''Camaro'', ''Mustang'', ''Maverick'', ''Barracuda''] (enumValues (valueRange eVar))
         ''Maverick'' = Some \<lparr>constName = ''Maverick'', constValue = 2\<rparr>
   \<and> fst (setStringValue cvarSetString_enum eVar ''Maverick'') = Success
   \<and> currentValue (snd (setStringValue cvarSetString_enum eVar ''Maverick''))
       = \<lparr>constName = ''Maverick'', constValue = 2\<rparr>
   \<and> isWritable (eVar\<lparr>flags := 0\<rparr>) \<and> \<not> isRangeChecked (eVar\<lparr>flags := 0\<rparr>)
   \<and> strtoll0 ''7'' = Some 7
   \<and> fst (setStringValue cvarSetString_enum (eVar\<lparr>flags := 0\<rparr>) ''7'') = Success
   \<and> currentValue (snd (setStringValue cvarSetString_enum (eVar\<lparr>flags := 0\<rparr>) ''7''))
       = \<lparr>constName = [], constValue = 7\<rparr>
   \<and> getStringValue cvarToString_enum eVar = ''Mustang''"
proof -
  have p: "strtoll0 ''7'' = Some 7" by code_simp
  have w0: "isWritable (eVar\<lparr>flags := 0\<rparr>)" "\<not> isRangeChecked (eVar\<lparr>flags := 0\<rparr>)"
    by (simp_all add: isWritable_def isRangeChecked_def)
  have f: "findEnumByName [''Camaro'', ''Mustang'', ''Maverick'', ''Barracuda''] (enumValues (valueRange eVar))
         ''Maverick'' = Some \<lparr>constName = ''Maverick'', constValue = 2\<rparr>"
    by (simp add: eVar_facts(4))
  have cur: "constName (currentValue eVar) = ''Mustang''" by (simp add: eVar_def newCVarImpl_def)
  note t1 = enum_string_assignment[OF eVar_facts(1), where sv = "''Maverick''"
      and ns = "[''Camaro'', ''Mustang'', ''Maverick'', ''Barracuda'']"
      and e = "\<lparr>constName = ''Maverick'', constValue = 2\<rparr>"]
  note t2 = enum_string_assignment[OF w0(1), where sv = "''7''" and v = 7]
  have r1: "fst (setStringValue cvarSetString_enum eVar ''Maverick'') = Success
     \<and> currentValue (snd (setStringValue cvarSetString_enum eVar ''Maverick''))
       = \<lparr>constName = ''Maverick'', constValue = 2\<rparr>"
    using t1[THEN conjunct1] eVar_facts(2,3) f by simp
  have r2: "fst (setStringValue cvarSetString_enum (eVar\<lparr>flags := 0\<rparr>) ''7'') = Success
     \<and> currentValue (snd (setStringValue cvarSetString_enum (eVar\<lparr>flags := 0\<rparr>) ''7''))
       = \<lparr>constName = [], constValue = 7\<rparr>"
    using t2[THEN conjunct2, THEN conjunct1] w0(2) p by simp
  have r3: "getStringValue cvarToString_enum eVar = ''Mustang''"
    using t1[THEN conjunct2, THEN conjunct2] cur by simp
  show ?thesis using eVar_facts(1,2,3) f w0 p r1 r2 r3 by blast
qed

section \<open>The by-name setters\<close>

lemma setter_flag_effect:
  "getFlags (snd (cvarSetIntValue P cvar iv)) = getFlags cvar
     \<or> (fst (cvarSetIntValue P cvar iv) = Success
        \<and> getFlags (snd (cvarSetIntValue P cvar iv)) = getFlags cvar OR Modified)"
  "getFlags (snd (cvarSetBoolValue P cvar bv)) = getFlags cvar
     \<or> (fst (cvarSetBoolValue P cvar bv) = Success
        \<and> getFlags (snd (cvarSetBoolValue P cvar bv)) = getFlags cvar OR Modified)"
  "getFlags (snd (cvarSetFloatValue P cvar dv)) = getFlags cvar
     \<or> (fst (cvarSetFloatValue P cvar dv) = Success
        \<and> getFlags (snd (cvarSetFloatValue P cvar dv)) = getFlags cvar OR Modified)"
  "getFlags (snd (cvarSetStringValue P cvar sv)) = getFlags cvar
     \<or> (fst (cvarSetStringValue P cvar sv) = Success
        \<and> getFlags (snd (cvarSetStringValue P cvar sv)) = getFlags cvar OR Modified)"
proof -
  show "getFlags (snd (cvarSetIntValue P cvar iv)) = getFlags cvar
     \<or> (fst (cvarSetIntValue P cvar iv) = Success
        \<and> getFlags (snd (cvarSetIntValue P cvar iv)) = getFlags cvar OR Modified)"
    using cvar_public_flags(1)[of P cvar iv] cvar_atomic(1)[of P cvar iv]
    by (cases "cvarSetIntValue P cvar iv"; cases "fst (cvarSetIntValue P cvar iv)") auto
  show "getFlags (snd (cvarSetBoolValue P cvar bv)) = getFlags cvar
     \<or> (fst (cvarSetBoolValue P cvar bv) = Success
        \<and> getFlags (snd (cvarSetBoolValue P cvar bv)) = getFlags cvar OR Modified)"
    using cvar_public_flags(2)[of P cvar bv] cvar_atomic(2)[of P cvar bv]
    by (cases "cvarSetBoolValue P cvar bv"; cases "fst (cvarSetBoolValue P cvar bv)") auto
  show "getFlags (snd (cvarSetFloatValue P cvar dv)) = getFlags cvar
     \<or> (fst (cvarSetFloatValue P cvar dv) = Success
        \<and> getFlags (snd (cvarSetFloatValue P cvar dv)) = getFlags cvar OR Modified)"
    using cvar_public_flags(3)[of P cvar dv] cvar_atomic(3)[of P cvar dv]
    by (cases "cvarSetFloatValue P cvar dv"; cases "fst (cvarSetFloatValue P cvar dv)") auto
  show "getFlags (snd (cvarSetStringValue P cvar sv)) = getFlags cvar
     \<or> (fst (cvarSetStringValue P cvar sv) = Success
        \<and> getFlags (snd (cvarSetStringValue P cvar sv)) = getFlags cvar OR Modified)"
    using cvar_public_flags(4)[of P cvar sv] cvar_atomic(4)[of P cvar sv]
    by (cases "cvarSetStringValue P cvar sv"; cases "fst (cvarSetStringValue P cvar sv)") auto
qed

lemma registerValidated_new:
  assumes "registerValidated mgr newVar varName obj validation = Some (mgr', Inr a')"
  shows "a' = newVar \<and> cvars mgr newVar = None \<and> cvars mgr' newVar = Some obj
         \<and> (\<forall>b. b \<noteq> newVar \<longrightarrow> cvars mgr' b = cvars mgr b)"
  using assms
  by (auto simp: registerValidated_def split: option.splits if_splits)

lemma auto_registered_flags:
  "registerCVarInt P mgr newVar varName varDesc fl iv lo hi = Some (mgr', Inr a') \<Longrightarrow>
     a' = newVar \<and> cvars mgr newVar = None \<and> map_option getFlags (cvars mgr' newVar) = Some fl
     \<and> (\<forall>b. b \<noteq> newVar \<longrightarrow> cvars mgr' b = cvars mgr b)"
  "registerCVarBool P mgr newVar varName varDesc fl bv = Some (mgr', Inr a') \<Longrightarrow>
     a' = newVar \<and> cvars mgr newVar = None \<and> map_option getFlags (cvars mgr' newVar) = Some fl
     \<and> (\<forall>b. b \<noteq> newVar \<longrightarrow> cvars mgr' b = cvars mgr b)"
  "registerCVarFloat P mgr newVar varName varDesc fl dv dlo dhi = Some (mgr', Inr a') \<Longrightarrow>
     a' = newVar \<and> cvars mgr newVar = None \<and> map_option getFlags (cvars mgr' newVar) = Some fl
     \<and> (\<forall>b. b \<noteq> newVar \<longrightarrow> cvars mgr' b = cvars mgr b)"
  "registerCVarString P mgr newVar varName varDesc fl sv allowed = Some (mgr', Inr a') \<Longrightarrow>
     a' = newVar \<and> cvars mgr newVar = None \<and> map_option getFlags (cvars mgr' newVar) = Some fl
     \<and> (\<forall>b. b \<noteq> newVar \<longrightarrow> cvars mgr' b = cvars mgr b)"
  by (auto simp: registerCVarInt_def registerCVarBool_def registerCVarFloat_def
        registerCVarString_def newCVarImpl_def dest!: registerValidated_new)

text \<open>
  Claim C10: the by-name setters \<open>setCVarValueBool/Int/Float/String\<close> apply the
  caller-supplied flags only when the named variable does not exist yet and is
  auto-registered; when a variable of that name exists, the flags argument is ignored
  and the variable's flags are unchanged except for the Modified bit set by a
  successful write.  When \<open>findCVar\<close> yields an entry, the result is the manager with
  that entry written by the virtual setter, an expression in which neither the flags
  argument nor the address for a new entry occurs; when it yields none and an entry is
  registered, that entry is new and carries exactly the caller's flags.
\<close>

theorem by_name_setters_flags:
  "(findCVar mgr varName = Some (Some a) \<and> cvars mgr a = Some cvar \<longrightarrow>
      setCVarValueBool P mgr newVar varName bv fl
        = Some (mgr\<lparr>cvars := (cvars mgr)(a \<mapsto> snd (cvarSetBoolValue P cvar bv))\<rparr>, Inr a)
    \<and> setCVarValueInt P mgr newVar varName iv fl
        = Some (mgr\<lparr>cvars := (cvars mgr)(a \<mapsto> snd (cvarSetIntValue P cvar iv))\<rparr>, Inr a)
    \<and> setCVarValueFloat P mgr newVar varName dv fl
        = Some (mgr\<lparr>cvars := (cvars mgr)(a \<mapsto> snd (cvarSetFloatValue P cvar dv))\<rparr>, Inr a)
    \<and> setCVarValueString P mgr newVar varName sv fl
        = Some (mgr\<lparr>cvars := (cvars mgr)(a \<mapsto> snd (cvarSetStringValue P cvar sv))\<rparr>, Inr a)
    \<and> (getFlags (snd (cvarSetBoolValue P cvar bv)) = getFlags cvar
        \<or> (fst (cvarSetBoolValue P cvar bv) = Success
           \<and> getFlags (snd (cvarSetBoolValue P cvar bv)) = getFlags cvar OR Modified))
    \<and> (getFlags (snd (cvarSetIntValue P cvar iv)) = getFlags cvar
        \<or> (fst (cvarSetIntValue P cvar iv) = Success
           \<and> getFlags (snd (cvarSetIntValue P cvar iv)) = getFlags cvar OR Modified))
    \<and> (getFlags (snd (cvarSetFloatValue P cvar dv)) = getFlags cvar
        \<or> (fst (cvarSetFloatValue P cvar dv) = Success
           \<and> getFlags (snd (cvarSetFloatValue P cvar dv)) = getFlags cvar OR Modified))
    \<and> (getFlags (snd (cvarSetStringValue P cvar sv)) = getFlags cvar
        \<or> (fst (cvarSetStringValue P cvar sv) = Success
           \<and> getFlags (snd (cvarSetStringValue P cvar sv)) = getFlags cvar OR Modified)))
   \<and> (findCVar mgr varName = Some None \<and>
        (setCVarValueBool P mgr newVar varName bv fl = Some (mgr', Inr a')
         \<or> setCVarValueInt P mgr newVar varName iv fl = Some (mgr', Inr a')
         \<or> setCVarValueFloat P mgr newVar varName dv fl = Some (mgr', Inr a')
         \<or> setCVarValueString P mgr newVar varName sv fl = Some (mgr', Inr a')) \<longrightarrow>
        a' = newVar \<and> cvars mgr newVar = None
        \<and> map_option getFlags (cvars mgr' newVar) = Some fl
        \<and> (\<forall>b. b \<noteq> newVar \<longrightarrow> cvars mgr' b = cvars mgr b))"
proof -
  have existing: "findCVar mgr varName = Some (Some a) \<and> cvars mgr a = Some cvar \<longrightarrow>
      setCVarValueBool P mgr newVar varName bv fl
        = Some (mgr\<lparr>cvars := (cvars mgr)(a \<mapsto> snd (cvarSetBoolValue P cvar bv))\<rparr>, Inr a)
    \<and> setCVarValueInt P mgr newVar varName iv fl
        = Some (mgr\<lparr>cvars := (cvars mgr)(a \<mapsto> snd (cvarSetIntValue P cvar iv))\<rparr>, Inr a)
    \<and> setCVarValueFloat P mgr newVar varName dv fl
        = Some (mgr\<lparr>cvars := (cvars mgr)(a \<mapsto> snd (cvarSetFloatValue P cvar dv))\<rparr>, Inr a)
    \<and> setCVarValueString P mgr newVar varName sv fl
        = Some (mgr\<lparr>cvars := (cvars mgr)(a \<mapsto> snd (cvarSetStringValue P cvar sv))\<rparr>, Inr a)"
    by (simp add: setCVarValueBool_def setCVarValueInt_def setCVarValueFloat_def
          setCVarValueString_def setExisting_def)
  have fresh: "findCVar mgr varName = Some None \<and>
        (setCVarValueBool P mgr newVar varName bv fl = Some (mgr', Inr a')
         \<or> setCVarValueInt P mgr newVar varName iv fl = Some (mgr', Inr a')
         \<or> setCVarValueFloat P mgr newVar varName dv fl = Some (mgr', Inr a')
         \<or> setCVarValueString P mgr newVar varName sv fl = Some (mgr', Inr a')) \<longrightarrow>
        a' = newVar \<and> cvars mgr newVar = None
        \<and> map_option getFlags (cvars mgr' newVar) = Some fl
        \<and> (\<forall>b. b \<noteq> newVar \<longrightarrow> cvars mgr' b = cvars mgr b)"
    using auto_registered_flags(1)[of P mgr newVar varName "[]" fl iv INT64_MIN INT64_MAX mgr' a']
      auto_registered_flags(2)[of P mgr newVar varName "[]" fl bv mgr' a']
      auto_registered_flags(3)[of P mgr newVar varName "[]" fl dv DBL_MIN DBL_MAX mgr' a']
      auto_registered_flags(4)[of P mgr newVar varName "[]" fl sv None mgr' a']
    by (auto simp: setCVarValueBool_def setCVarValueInt_def setCVarValueFloat_def
          setCVarValueString_def)
  show ?thesis
    using existing fresh setter_flag_effect(1)[of P cvar iv] setter_flag_effect(2)[of P cvar bv]
      setter_flag_effect(3)[of P cvar dv] setter_flag_effect(4)[of P cvar sv] by blast
qed

lemma register_vsync:
  "registerCVarBool examplePlatform exampleManager 30 ''vsync'' [] fl True
     = Some (manager3 fl, Inr 30)"
proof -
  have v: "\<And>f. validateCVarRegistration manager2 ''vsync'' fl f = Some None"
    using exampleManager_find(3) by (simp add: validateCVarRegistration_def valid_names exampleManager_eq)
  have l: "linkWithKey StringHasher ((links manager2)(30 := newLink)) (registeredCVars manager2) 30 ''vsync''
           = Some (links (manager3 fl), registeredCVars (manager3 fl))"
    by (simp add: linkWithKey_def manager2_def manager3_def allocate_def hashOf_def
          hash_vsync bucketOf_def newLink_def)
  have c: "cvars manager2 30 = None" by (simp add: manager2_def)
  have r: "manager2\<lparr>registeredCVars := registeredCVars (manager3 fl), links := links (manager3 fl),
             cvars := (cvars manager2)(30 \<mapsto> BoolVar (newCVarImpl ''vsync'' [] fl True \<lparr>minValue = False, maxValue = True\<rparr>))\<rparr>
           = manager3 fl"
    by (simp add: manager2_def manager3_def)
  show ?thesis
    unfolding registerCVarBool_def registerValidated_def exampleManager_eq v
    by (simp only: c l r option.case prod.case if_False simp_thms)
qed

theorem by_name_setters_flags_witness:
  "findCVar exampleManager ''fps'' = Some (Some 10) \<and> cvars exampleManager 10 = Some (IntVar fpsVar)
   \<and> setCVarValueInt examplePlatform exampleManager 30 ''fps'' 120 (UserDefined OR ReadOnly)
       = Some (exampleManager\<lparr>cvars := (cvars exampleManager)
                 (10 \<mapsto> IntVar (fpsVar\<lparr>currentValue := 120, flags := RangeCheck OR Modified\<rparr>))\<rparr>, Inr 10)
   \<and> findCVar exampleManager ''vsync'' = Some None
   \<and> setCVarValueBool examplePlatform exampleManager 30 ''vsync'' True (UserDefined OR ReadOnly)
       = Some (manager3 (UserDefined OR ReadOnly), Inr 30)
   \<and> cvars exampleManager 30 = None
   \<and> map_option getFlags (cvars (manager3 (UserDefined OR ReadOnly)) 30) = Some (UserDefined OR ReadOnly)"
proof -
  have i: "setIntValue cvarSetInt64_int fpsVar 120
       = (Success, fpsVar\<lparr>currentValue := 120, flags := RangeCheck OR Modified\<rparr>)"
    by (simp add: setIntValue_def cvarSetInt64_int_def rangeArg_def isRangeChecked_def isWritable_def
          setModified_def fpsVar_def newCVarImpl_def flag_defs word_sless_alt)
  have b: "setCVarValueBool examplePlatform exampleManager 30 ''vsync'' True (UserDefined OR ReadOnly)
       = Some (manager3 (UserDefined OR ReadOnly), Inr 30)"
    by (simp add: setCVarValueBool_def exampleManager_find register_vsync)
  note t = by_name_setters_flags[where mgr = exampleManager and varName = "''fps''" and a = 10
      and cvar = "IntVar fpsVar" and P = examplePlatform and newVar = 30 and iv = 120
      and fl = "UserDefined OR ReadOnly"]
  note u = by_name_setters_flags[where mgr = exampleManager and varName = "''vsync''"
      and P = examplePlatform and newVar = 30 and bv = True and fl = "UserDefined OR ReadOnly"
      and mgr' = "manager3 (UserDefined OR ReadOnly)" and a' = 30]
  show ?thesis
    using t u b i exampleManager_find exampleManager_cvars by simp
qed
section \<open>Splitting the pending text into commands\<close>

lemma extractLoop_stop:
  "doneFlag st \<or> str = [] \<or> \<not> length (destBuf st) < n \<Longrightarrow> extractLoop e n st str = (st, str)"
  by (subst extractLoop.simps) simp

lemma extractLoop_Cons:
  "\<not> doneFlag st \<Longrightarrow> length (destBuf st) < n \<Longrightarrow>
   extractLoop e n st (c # cs) =
     (if c = CHR 0x0D then extractLoop e n st cs
      else if c = CHR 0x5C then extractLoop e n (st\<lparr>backslash := True\<rparr>) cs
      else if c = CHR ''$'' \<and> take 1 cs = ''('' then
        (case e (c # cs) (destBuf st) n of
           None \<Rightarrow> extractLoop e n (st\<lparr>outOverflowed := True, doneFlag := True\<rparr>)
                     (drop 1 (dropWhile (\<lambda>c. c \<noteq> CHR 0x0A \<and> c \<noteq> CommandTextSeparator) (c # cs)))
         | Some (k, dest') \<Rightarrow> extractLoop e n (st\<lparr>destBuf := dest'\<rparr>) (drop k cs))
      else extractLoop e n (extractStep st c) cs)"
  by (subst extractLoop.simps) (auto simp add: Let_def split: option.splits)

lemma extractStep_plain:
  "isPlainChar c \<Longrightarrow> \<not> isTerminator c \<Longrightarrow> \<not> backslash st \<Longrightarrow> \<not> doneFlag st \<Longrightarrow>
   extractStep st c = st\<lparr>destBuf := destBuf st @ [c]\<rparr>"
  by (simp add: extractStep_def isPlainChar_def isTerminator_def Let_def)

lemma extractStep_term:
  "isTerminator c \<Longrightarrow> \<not> backslash st \<Longrightarrow> \<not> quoted st \<Longrightarrow>
   extractStep st c = st\<lparr>doneFlag := True\<rparr>"
  by (auto simp add: extractStep_def isTerminator_def Let_def CommandTextSeparator_def)

lemma terminator_not_special:
  "isTerminator c \<Longrightarrow> c \<noteq> CHR 0x0D \<and> c \<noteq> CHR 0x5C \<and> c \<noteq> CHR ''$''"
  by (auto simp add: isTerminator_def CommandTextSeparator_def)

lemma extractLoop_plain:
  "list_all isPlainChar (takeWhile (\<lambda>c. \<not> isTerminator c) str) \<Longrightarrow>
   \<not> backslash st \<Longrightarrow> \<not> quoted st \<Longrightarrow> \<not> doneFlag st \<Longrightarrow>
   length (destBuf st) + length (takeWhile (\<lambda>c. \<not> isTerminator c) str) < n \<Longrightarrow>
   extractLoop e n st str =
     (st\<lparr>destBuf := destBuf st @ takeWhile (\<lambda>c. \<not> isTerminator c) str,
         doneFlag := (dropWhile (\<lambda>c. \<not> isTerminator c) str \<noteq> [])\<rparr>,
      drop 1 (dropWhile (\<lambda>c. \<not> isTerminator c) str))"
proof (induction str arbitrary: st)
  case Nil
  then show ?case by (simp add: extractLoop_stop)
next
  case (Cons c cs)
  have len: "length (destBuf st) < n" using Cons.prems(5) by simp
  show ?case
  proof (cases "isTerminator c")
    case True
    have "extractLoop e n st (c # cs) = extractLoop e n (extractStep st c) cs"
      using Cons.prems(4) len terminator_not_special[OF True] by (simp add: extractLoop_Cons)
    then show ?thesis using True Cons.prems
      by (simp add: extractStep_term extractLoop_stop)
  next
    case False
    have pc: "isPlainChar c" and pcs: "list_all isPlainChar (takeWhile (\<lambda>c. \<not> isTerminator c) cs)"
      using Cons.prems(1) False by simp_all
    have c1: "c \<noteq> CHR 0x0D" "c \<noteq> CHR 0x5C" "c \<noteq> CHR ''$''" using pc by (simp_all add: isPlainChar_def)
    have step: "extractLoop e n st (c # cs) = extractLoop e n (extractStep st c) cs"
      using Cons.prems(4) len c1 by (simp add: extractLoop_Cons)
    have st': "extractStep st c = st\<lparr>destBuf := destBuf st @ [c]\<rparr>"
      using pc False Cons.prems by (simp add: extractStep_plain)
    have "extractLoop e n (st\<lparr>destBuf := destBuf st @ [c]\<rparr>) cs =
      ((st\<lparr>destBuf := destBuf st @ [c]\<rparr>)\<lparr>destBuf := destBuf (st\<lparr>destBuf := destBuf st @ [c]\<rparr>) @ takeWhile (\<lambda>c. \<not> isTerminator c) cs,
         doneFlag := (dropWhile (\<lambda>c. \<not> isTerminator c) cs \<noteq> [])\<rparr>,
      drop 1 (dropWhile (\<lambda>c. \<not> isTerminator c) cs))"
      using Cons.prems False pcs by (intro Cons.IH) simp_all
    then show ?thesis using step st' False by simp
  qed
qed

lemma extractNextCommand_plain:
  assumes "list_all isPlainChar (takeWhile (\<lambda>c. \<not> isTerminator c) (skipLeading s))"
    and "length (takeWhile (\<lambda>c. \<not> isTerminator c) (skipLeading s)) < n"
  shows "extractNextCommand e s n =
     (takeWhile (\<lambda>c. \<not> isTerminator c) (skipLeading s) \<noteq> [],
      takeWhile (\<lambda>c. \<not> isTerminator c) (skipLeading s), False,
      drop 1 (dropWhile (\<lambda>c. \<not> isTerminator c) (skipLeading s)))"
proof -
  have "extractLoop e n initExtractState (skipLeading s) =
     (initExtractState\<lparr>destBuf := destBuf initExtractState @ takeWhile (\<lambda>c. \<not> isTerminator c) (skipLeading s),
         doneFlag := (dropWhile (\<lambda>c. \<not> isTerminator c) (skipLeading s) \<noteq> [])\<rparr>,
      drop 1 (dropWhile (\<lambda>c. \<not> isTerminator c) (skipLeading s)))"
    using assms by (intro extractLoop_plain) (simp_all add: initExtractState_def)
  then show ?thesis using assms(2)
    by (simp add: extractNextCommand_def skipLeading_def[symmetric] initExtractState_def Let_def)
qed


lemma extractStep_set:
  "set (destBuf (extractStep st c)) \<subseteq> insert c (set (destBuf st))"
  by (auto simp add: extractStep_def Let_def)

lemma extractLoop_set:
  "CHR ''$'' \<notin> set str \<Longrightarrow>
   set (destBuf (fst (extractLoop e n st str))) \<subseteq> set (destBuf st) \<union> (set str - {CHR 0x0D, CHR 0x5C})"
proof (induction str arbitrary: st)
  case Nil
  then show ?case by (simp add: extractLoop_stop)
next
  case (Cons c cs)
  show ?case
  proof (cases "doneFlag st \<or> \<not> length (destBuf st) < n")
    case True
    then show ?thesis by (auto simp add: extractLoop_stop)
  next
    case False
    have d: "CHR ''$'' \<notin> set cs" "c \<noteq> CHR ''$''" using Cons.prems by auto
    show ?thesis
    proof (cases "c = CHR 0x0D \<or> c = CHR 0x5C")
      case True
      then show ?thesis using False d Cons.IH[OF d(1), of st] Cons.IH[OF d(1), of "st\<lparr>backslash := True\<rparr>"]
        by (auto simp add: extractLoop_Cons)
    next
      case c: False
      have "extractLoop e n st (c # cs) = extractLoop e n (extractStep st c) cs"
        using False c d by (simp add: extractLoop_Cons)
      then show ?thesis using Cons.IH[OF d(1), of "extractStep st c"] extractStep_set[of st c] c
        by auto
    qed
  qed
qed

lemma extractNextCommand_set:
  assumes "CHR ''$'' \<notin> set s"
  shows "set (fst (snd (extractNextCommand e s n))) \<subseteq> set s - {CHR 0x0D, CHR 0x5C}"
proof -
  let ?s0 = "dropWhile (\<lambda>c. isWhitespace c \<or> c = CommandTextSeparator) s"
  have sub: "set ?s0 \<subseteq> set s" by (auto dest: set_dropWhileD)
  then have "CHR ''$'' \<notin> set ?s0" using assms by auto
  from extractLoop_set[OF this, of e n initExtractState]
  have "set (destBuf (fst (extractLoop e n initExtractState ?s0))) \<subseteq> set s - {CHR 0x0D, CHR 0x5C}"
    using sub by (auto simp add: initExtractState_def)
  then show ?thesis
    by (cases "extractLoop e n initExtractState ?s0")
       (auto simp add: extractNextCommand_def Let_def dest!: in_set_butlastD)
qed

lemmas extract_eval = extractNextCommand_def extractLoop_Cons extractLoop_stop extractStep_def
  initExtractState_def Let_def isWhitespace_def charInt_def CommandTextSeparator_def
  MaxCommandArgStrLength_def





lemma quoted_separator:
  "extractNextCommand e (''say '' @ [CHR 0x22] @ ''x; y'' @ [CHR 0x22] @ ''; next'') MaxCommandArgStrLength =
     (True, ''say '' @ [CHR 0x22] @ ''x; y'' @ [CHR 0x22], False, '' next'')"
  by (simp add: extract_eval)





section \<open>One command at a time\<close>




















section \<open>Executing the buffered commands\<close>

lemma uint32_of_count:
  "0 \<le> n \<Longrightarrow> n \<le> 999999 \<Longrightarrow> (word_of_int n = (w :: uint32)) = (n = uint w)"
proof -
  assume a: "0 \<le> n" "n \<le> 999999"
  have "uint (word_of_int n :: uint32) = n"
    using a by (simp add: uint_word_of_int take_bit_int_eq_self)
  then show ?thesis by (metis word_of_int_uint)
qed

lemma loop_spec:
  "k = nat (MaxReentrantCommands - n) \<Longrightarrow> 0 \<le> n \<Longrightarrow> n < MaxReentrantCommands \<Longrightarrow>
   (maxc \<noteq> ExecAll \<longrightarrow> n < uint maxc) \<Longrightarrow>
   \<exists>N reason tr2 m'.
      execBufferedCommands_loop e h maxc n tr m = Some (N, reason, tr @ tr2, m')
    \<and> n \<le> N \<and> N \<le> MaxReentrantCommands \<and> (maxc \<noteq> ExecAll \<longrightarrow> N \<le> uint maxc)
    \<and> (reason = NoMoreCommands \<or> reason = MaxReached \<longrightarrow>
         (\<exists>mN. dispatchN e h (nat (N - n)) m = Some (tr2, mN)
              \<and> userData m' = userData mN
              \<and> (cmdBuffer m' = cmdBuffer mN
                  \<or> cmdBuffer m' = [] \<and> nextCommand e (cmdBuffer mN) = None)))"
proof (induction k arbitrary: n tr m)
  case 0
  then show ?case by simp
next
  case (Suc k)
  obtain found tempBuffer overflowed rest where
    ex: "extractNextCommand e (cmdBuffer m) MaxCommandArgStrLength = (found, tempBuffer, overflowed, rest)"
    by (cases "extractNextCommand e (cmdBuffer m) MaxCommandArgStrLength") auto
  show ?case
  proof (cases "found \<and> \<not> overflowed")
    case False
    then have nc: "nextCommand e (cmdBuffer m) = None" using ex by (simp add: nextCommand_def)
    show ?thesis
      using False ex nc Suc.prems
      by (subst execBufferedCommands_loop.simps)
         (auto simp add: clearBuffer_def)
  next
    case True
    then have nc: "nextCommand e (cmdBuffer m) = Some (tempBuffer, rest)"
      using ex by (simp add: nextCommand_def)
    define m2 where "m2 = h tempBuffer (m\<lparr>cmdBuffer := rest\<rparr>)"
    define tr' where "tr' = tr @ [(tempBuffer, rest)]"
    have d1: "dispatchN e h (Suc 0) m = Some ([(tempBuffer, rest)], m2)"
      using nc by (simp add: m2_def)
    have bound: "n + 1 \<le> 999999" using Suc.prems by (simp add: MaxReentrantCommands_def)
    consider (limit) "n + 1 = MaxReentrantCommands"
      | (maxr) "n + 1 \<noteq> MaxReentrantCommands" "maxc \<noteq> ExecAll \<and> word_of_int (n + 1) = maxc"
      | (cont) "n + 1 \<noteq> MaxReentrantCommands" "\<not> (maxc \<noteq> ExecAll \<and> word_of_int (n + 1) = maxc)"
      by blast
    then show ?thesis
    proof cases
      case limit
      have "execBufferedCommands_loop e h maxc n tr m =
            Some (n + 1, ReentrantLimit, tr @ [(tempBuffer, rest)], clearBuffer m2)"
        using True ex limit
        by (subst execBufferedCommands_loop.simps) (simp add: m2_def Let_def)
      then show ?thesis using Suc.prems limit by auto
    next
      case maxr
      have "execBufferedCommands_loop e h maxc n tr m =
            Some (n + 1, MaxReached, tr @ [(tempBuffer, rest)],
                  if cmdBuffer m2 = [] then clearBuffer m2 else m2)"
        using True ex maxr
        by (subst execBufferedCommands_loop.simps) (simp add: m2_def Let_def)
      moreover have "n + 1 = uint maxc"
        using maxr(2) uint32_of_count[of "n + 1" maxc] Suc.prems(2) bound by simp
      moreover have "nat (n + 1 - n) = Suc 0" by simp
      moreover have "dispatchN e h (Suc 0) m = Some ([(tempBuffer, rest)], m2)
          \<and> userData (if cmdBuffer m2 = [] then clearBuffer m2 else m2) = userData m2
          \<and> cmdBuffer (if cmdBuffer m2 = [] then clearBuffer m2 else m2) = cmdBuffer m2"
        using d1 by (simp add: clearBuffer_def)
      ultimately show ?thesis using Suc.prems(2,3)
        by (intro exI[of _ "n + 1"] exI[of _ MaxReached] exI[of _ "[(tempBuffer, rest)]"]
              exI[of _ "if cmdBuffer m2 = [] then clearBuffer m2 else m2"])
           (simp only: simp_thms, intro conjI impI exI[of _ m2], simp_all)
    next
      case cont
      have step: "execBufferedCommands_loop e h maxc n tr m =
            execBufferedCommands_loop e h maxc (n + 1) tr' m2"
        using True ex cont
        by (subst execBufferedCommands_loop.simps) (auto simp add: m2_def tr'_def Let_def)
      have lt: "maxc \<noteq> ExecAll \<longrightarrow> n + 1 < uint maxc"
        using cont(2) uint32_of_count[of "n + 1" maxc] Suc.prems(2,4) bound by auto
      have "\<exists>N reason tr2 m'.
          execBufferedCommands_loop e h maxc (n + 1) tr' m2 = Some (N, reason, tr' @ tr2, m')
        \<and> n + 1 \<le> N \<and> N \<le> MaxReentrantCommands \<and> (maxc \<noteq> ExecAll \<longrightarrow> N \<le> uint maxc)
        \<and> (reason = NoMoreCommands \<or> reason = MaxReached \<longrightarrow>
             (\<exists>mN. dispatchN e h (nat (N - (n + 1))) m2 = Some (tr2, mN)
                  \<and> userData m' = userData mN
                  \<and> (cmdBuffer m' = cmdBuffer mN
                      \<or> cmdBuffer m' = [] \<and> nextCommand e (cmdBuffer mN) = None)))"
        using Suc.prems cont(1) lt by (intro Suc.IH) auto
      then obtain N reason tr2 m' where
        r: "execBufferedCommands_loop e h maxc (n + 1) tr' m2 = Some (N, reason, tr' @ tr2, m')"
        and b: "n + 1 \<le> N" "N \<le> MaxReentrantCommands" "maxc \<noteq> ExecAll \<longrightarrow> N \<le> uint maxc"
        and s: "reason = NoMoreCommands \<or> reason = MaxReached \<longrightarrow>
             (\<exists>mN. dispatchN e h (nat (N - (n + 1))) m2 = Some (tr2, mN)
                  \<and> userData m' = userData mN
                  \<and> (cmdBuffer m' = cmdBuffer mN
                      \<or> cmdBuffer m' = [] \<and> nextCommand e (cmdBuffer mN) = None))"
        by blast
      have nat_eq: "nat (N - n) = Suc (nat (N - (n + 1)))" using b(1) by simp
      have "reason = NoMoreCommands \<or> reason = MaxReached \<longrightarrow>
             (\<exists>mN. dispatchN e h (nat (N - n)) m = Some ((tempBuffer, rest) # tr2, mN)
                  \<and> userData m' = userData mN
                  \<and> (cmdBuffer m' = cmdBuffer mN
                      \<or> cmdBuffer m' = [] \<and> nextCommand e (cmdBuffer mN) = None))"
      proof
        assume "reason = NoMoreCommands \<or> reason = MaxReached"
        with s obtain mN where mn: "dispatchN e h (nat (N - (n + 1))) m2 = Some (tr2, mN)"
          "userData m' = userData mN"
          "cmdBuffer m' = cmdBuffer mN \<or> cmdBuffer m' = [] \<and> nextCommand e (cmdBuffer mN) = None"
          by blast
        have "dispatchN e h (nat (N - n)) m = Some ((tempBuffer, rest) # tr2, mN)"
          unfolding nat_eq using nc mn(1) by (simp add: m2_def)
        then show "\<exists>mN. dispatchN e h (nat (N - n)) m = Some ((tempBuffer, rest) # tr2, mN)
                  \<and> userData m' = userData mN
                  \<and> (cmdBuffer m' = cmdBuffer mN
                      \<or> cmdBuffer m' = [] \<and> nextCommand e (cmdBuffer mN) = None)"
          using mn(2,3) by blast
      qed
      moreover have "execBufferedCommands_loop e h maxc n tr m =
          Some (N, reason, tr @ ((tempBuffer, rest) # tr2), m')"
        using step r by (simp add: tr'_def)
      ultimately show ?thesis using b by (intro exI[of _ N] exI[of _ reason] exI[of _ "(tempBuffer, rest) # tr2"] exI[of _ m']) auto
    qed
  qed
qed

lemma nextCommand_inserted:
  assumes "plainCommand s" "length s < MaxCommandArgStrLength"
    and "length (cmdBuffer m) + length s + 1 < CommandBufferSize"
  shows "nextCommand e (cmdBuffer (execInsert s m)) = Some (s, cmdBuffer m)"
proof -
  let ?b = "s @ CommandTextSeparator # cmdBuffer m"
  have ne: "s \<noteq> []" and pl: "list_all isPlainChar s" and nt: "\<forall>c\<in>set s. \<not> isTerminator c"
    and hd: "\<not> isWhitespace (hd s)"
    using assms(1) by (auto simp add: plainCommand_def list_all_iff)
  have buf: "cmdBuffer (execInsert s m) = ?b"
    using assms(3) ne by (simp add: execInsert_def Let_def)
  have "hd s \<noteq> CommandTextSeparator" using nt ne by (auto simp add: isTerminator_def)
  then have sk: "skipLeading ?b = ?b" using hd ne by (cases s) (simp_all add: skipLeading_def)
  have tm: "isTerminator CommandTextSeparator" by (simp add: isTerminator_def)
  have tw: "takeWhile (\<lambda>c. \<not> isTerminator c) ?b = s"
    using nt tm by (simp add: takeWhile_append2)
  have dw: "dropWhile (\<lambda>c. \<not> isTerminator c) ?b = CommandTextSeparator # cmdBuffer m"
    using nt tm by (simp add: dropWhile_append2)
  have "extractNextCommand e ?b MaxCommandArgStrLength =
     (takeWhile (\<lambda>c. \<not> isTerminator c) (skipLeading ?b) \<noteq> [],
      takeWhile (\<lambda>c. \<not> isTerminator c) (skipLeading ?b), False,
      drop 1 (dropWhile (\<lambda>c. \<not> isTerminator c) (skipLeading ?b)))"
    using pl assms(2) by (intro extractNextCommand_plain) (simp_all only: sk tw)
  then show ?thesis using ne by (simp add: nextCommand_def buf sk tw dw)
qed

lemma execAppend_buffer:
  assumes "s \<noteq> []" "length (cmdBuffer m) + length s + 1 < CommandBufferSize"
  shows "cmdBuffer (execAppend s m) = cmdBuffer m @ s @ [CommandTextSeparator]"
  using assms by (simp add: execAppend_def Let_def)

text \<open>
  Claim C1.  For every command-buffer content, every handler and every \<open>maxCount\<close>,
  \<open>execBufferedCommands\<close> returns; the number \<open>N\<close> it returns is not negative, at most
  \<open>MaxReentrantCommands\<close>, and at most \<open>maxCount\<close> unless that is \<open>ExecAll\<close>.  When it
  returns without an extraction overflow and without hitting the reentrancy limit,
  exactly \<open>N\<close> commands have been dispatched in buffer order, each handler having been
  run on the buffer already shifted left by the bytes of its own command record
  (\<open>dispatchN\<close>), and the buffer afterwards is what these \<open>N\<close> dispatches leave, or is
  empty when no further command can be extracted from that remainder.  A handler that
  calls \<open>execInsert\<close> with a plain command in a buffer with room puts it in front of the
  shifted buffer, so that it is the next command and the shifted buffer follows it; one
  that calls \<open>execAppend\<close> puts it, with a separator, behind the shifted buffer.
\<close>

theorem execBufferedCommands_dispatches:
  "(\<exists>N reason tr m'.
      execBufferedCommands e h maxc m = Some (N, reason, tr, m')
    \<and> 0 \<le> N \<and> N \<le> MaxReentrantCommands \<and> (maxc \<noteq> ExecAll \<longrightarrow> N \<le> uint maxc)
    \<and> (reason = NoMoreCommands \<or> reason = MaxReached \<longrightarrow>
         (\<exists>mN. dispatchN e h (nat N) m = Some (tr, mN)
              \<and> userData m' = userData mN
              \<and> (cmdBuffer m' = cmdBuffer mN
                  \<or> cmdBuffer m' = [] \<and> nextCommand e (cmdBuffer mN) = None))))
   \<and> (plainCommand s \<and> length s < MaxCommandArgStrLength
        \<and> length (cmdBuffer m1) + length s + 1 < CommandBufferSize \<longrightarrow>
          nextCommand e (cmdBuffer (execInsert s m1)) = Some (s, cmdBuffer m1)
        \<and> cmdBuffer (execAppend s m1) = cmdBuffer m1 @ s @ [CommandTextSeparator])"
proof (intro conjI impI)
  assume a: "plainCommand s \<and> length s < MaxCommandArgStrLength
        \<and> length (cmdBuffer m1) + length s + 1 < CommandBufferSize"
  then show "nextCommand e (cmdBuffer (execInsert s m1)) = Some (s, cmdBuffer m1)"
    by (intro nextCommand_inserted) simp_all
  from a have "s \<noteq> []" by (simp add: plainCommand_def)
  with a show "cmdBuffer (execAppend s m1) = cmdBuffer m1 @ s @ [CommandTextSeparator]"
    by (intro execAppend_buffer) simp_all
next
  show "\<exists>N reason tr m'.
      execBufferedCommands e h maxc m = Some (N, reason, tr, m')
    \<and> 0 \<le> N \<and> N \<le> MaxReentrantCommands \<and> (maxc \<noteq> ExecAll \<longrightarrow> N \<le> uint maxc)
    \<and> (reason = NoMoreCommands \<or> reason = MaxReached \<longrightarrow>
         (\<exists>mN. dispatchN e h (nat N) m = Some (tr, mN)
              \<and> userData m' = userData mN
              \<and> (cmdBuffer m' = cmdBuffer mN
                  \<or> cmdBuffer m' = [] \<and> nextCommand e (cmdBuffer mN) = None)))"
  proof (cases "length (cmdBuffer m) = 0 \<or> maxc = 0")
  case True
  then have "execBufferedCommands e h maxc m = Some (0, NoMoreCommands, [], m)"
    by (simp add: execBufferedCommands_def)
  then show ?thesis by (simp add: MaxReentrantCommands_def)
next
  case False
  then have run: "execBufferedCommands e h maxc m = execBufferedCommands_loop e h maxc 0 [] m"
    by (simp add: execBufferedCommands_def)
  have pos: "maxc \<noteq> ExecAll \<longrightarrow> 0 < uint maxc"
  proof -
    have "uint maxc \<noteq> 0" using False by (simp add: uint_0_iff)
    moreover have "0 \<le> uint maxc" by simp
    ultimately show ?thesis by linarith
  qed
  have "\<exists>N reason tr2 m'.
      execBufferedCommands_loop e h maxc 0 [] m = Some (N, reason, [] @ tr2, m')
    \<and> 0 \<le> N \<and> N \<le> MaxReentrantCommands \<and> (maxc \<noteq> ExecAll \<longrightarrow> N \<le> uint maxc)
    \<and> (reason = NoMoreCommands \<or> reason = MaxReached \<longrightarrow>
         (\<exists>mN. dispatchN e h (nat (N - 0)) m = Some (tr2, mN)
              \<and> userData m' = userData mN
              \<and> (cmdBuffer m' = cmdBuffer mN
                  \<or> cmdBuffer m' = [] \<and> nextCommand e (cmdBuffer mN) = None)))"
    using pos by (intro loop_spec[of "nat MaxReentrantCommands"]) (simp_all add: MaxReentrantCommands_def)
  then show ?thesis unfolding run by simp
  qed
qed

text \<open>
  Two commands run out of \<open>a;b;\<close> with a limit of two; the handler of \<open>a\<close> appends \<open>c\<close>,
  which is what the buffer holds afterwards.
\<close>

lemma example_run:
  "execBufferedCommands expandCVar_noManager appendingHandler 2 exampleBuffer =
     Some (2, MaxReached, [(''a'', ''b;''), (''b'', ''c;'')], \<lparr>cmdBuffer = ''c;'', userData = ()\<rparr>)"
  by (simp add: execBufferedCommands_def execBufferedCommands_loop.simps exampleBuffer_def
      appendingHandler_def execAppend_def CommandBufferSize_def ExecAll_def clearBuffer_def
      MaxReentrantCommands_def extract_eval)

theorem execBufferedCommands_dispatches_witness:
  "execBufferedCommands expandCVar_noManager appendingHandler 2 exampleBuffer =
     Some (2, MaxReached, [(''a'', ''b;''), (''b'', ''c;'')], \<lparr>cmdBuffer = ''c;'', userData = ()\<rparr>)
   \<and> dispatchN expandCVar_noManager appendingHandler 2 exampleBuffer =
     Some ([(''a'', ''b;''), (''b'', ''c;'')], \<lparr>cmdBuffer = ''c;'', userData = ()\<rparr>)
   \<and> nextCommand expandCVar_noManager (cmdBuffer (execInsert ''c'' exampleBuffer)) = Some (''c'', ''a;b;'')
   \<and> cmdBuffer (execAppend ''c'' exampleBuffer) = ''a;b;c;''"
proof -
  note inst = execBufferedCommands_dispatches[of expandCVar_noManager appendingHandler 2 exampleBuffer
      "''c''" exampleBuffer]
  obtain N reason tr m' where
    r: "execBufferedCommands expandCVar_noManager appendingHandler 2 exampleBuffer = Some (N, reason, tr, m')"
    and s: "reason = NoMoreCommands \<or> reason = MaxReached \<longrightarrow>
         (\<exists>mN. dispatchN expandCVar_noManager appendingHandler (nat N) exampleBuffer = Some (tr, mN)
              \<and> userData m' = userData mN
              \<and> (cmdBuffer m' = cmdBuffer mN
                  \<or> cmdBuffer m' = [] \<and> nextCommand expandCVar_noManager (cmdBuffer mN) = None))"
    using inst[THEN conjunct1] by blast
  have ev: "execBufferedCommands expandCVar_noManager appendingHandler 2 exampleBuffer =
     Some (2, MaxReached, [(''a'', ''b;''), (''b'', ''c;'')], \<lparr>cmdBuffer = ''c;'', userData = ()\<rparr>)"
    by (rule example_run)
  with r have eqs: "N = 2" "reason = MaxReached" "tr = [(''a'', ''b;''), (''b'', ''c;'')]"
    "m' = \<lparr>cmdBuffer = ''c;'', userData = ()\<rparr>" by simp_all
  with s obtain mN where
    d: "dispatchN expandCVar_noManager appendingHandler (nat 2) exampleBuffer
          = Some ([(''a'', ''b;''), (''b'', ''c;'')], mN)"
    and c: "cmdBuffer m' = cmdBuffer mN \<or> cmdBuffer m' = [] \<and> nextCommand expandCVar_noManager (cmdBuffer mN) = None"
    by blast
  have "cmdBuffer mN = ''c;''" using c eqs(4) by simp
  then have "mN = \<lparr>cmdBuffer = ''c;'', userData = ()\<rparr>" by (cases mN) simp
  with d have d': "dispatchN expandCVar_noManager appendingHandler 2 exampleBuffer =
     Some ([(''a'', ''b;''), (''b'', ''c;'')], \<lparr>cmdBuffer = ''c;'', userData = ()\<rparr>)" by simp
  have "nextCommand expandCVar_noManager (cmdBuffer (execInsert ''c'' exampleBuffer)) = Some (''c'', ''a;b;'')
   \<and> cmdBuffer (execAppend ''c'' exampleBuffer) = ''a;b;c;''"
    using inst[THEN conjunct2]
    by (simp add: plainCommand_def isPlainChar_def isTerminator_def isWhitespace_def charInt_def
        CommandTextSeparator_def MaxCommandArgStrLength_def CommandBufferSize_def exampleBuffer_def)
  with ev d' show ?thesis by simp
qed

section \<open>The invariant of the name index, proved\<close>






lemma find_loop_none:
  "hpath H p as \<Longrightarrow> \<forall>x\<in>set as. hashKey (H x) \<noteq> h \<Longrightarrow> findByKey_loop H h p = Some None"
  unfolding hpath_def
proof (induction as arbitrary: p)
  case Nil
  then show ?case by (simp add: findByKey_loop.simps)
next
  case (Cons a as)
  then show ?case by (subst findByKey_loop.simps) auto
qed















lemma chain_nodes_linked:
  assumes "chainsOk H T K" "table T = Some tbl" "b < length tbl" "hpath H (tbl ! b) as"
    "set as = {a \<in> dom K. unat (hashKey (H a)) mod bucketCount T = b}"
  shows "set as \<subseteq> dom K"
  using assms by auto
















































end
